theory Spec2Isabelle
  imports Main "HOL-Library.Word"
begin

section \<open>The pending-phase reconciler of the cluster controller\<close>

text \<open>
  A shallow embedding of \<^verbatim>\<open>controller/cluster/pending.go\<close>. The Go methods
  mutate the cluster through a pointer and talk to caches, to the orchestrator client and
  to an event recorder. Here every method takes the cluster value and the calls made so
  far, and returns the cluster as it stands in memory afterwards, whether the returned
  pointer is non-nil, the returned error, and the extended list of calls.
\<close>

subsection \<open>Errors and formatted messages\<close>

text \<open>
  \<^verbatim>\<open>fmt.Errorf\<close> and the event recorder are kept as a format string with its
  arguments. \<open>ExternalError\<close> is an error handed up by a collaborator.
\<close>

datatype error = ExternalError string | Errorf string "fmtarg list"
  and fmtarg = ArgStr string | ArgInt int | ArgErr error

subsection \<open>Decimal rendering, for the verb \<^verbatim>\<open>%d\<close>\<close>

definition digitChar :: "nat \<Rightarrow> char" where
  "digitChar d = ''0123456789'' ! d"

function natDigits :: "nat \<Rightarrow> string" where
  "natDigits n = (if n < 10 then [digitChar n] else natDigits (n div 10) @ [digitChar (n mod 10)])"
  by pat_completeness auto
termination
  by (relation "measure (\<lambda>n. n)") auto

declare natDigits.simps [simp del]

definition itoa :: "int \<Rightarrow> string" where
  "itoa i = (if i < 0 then CHR ''-'' # natDigits (nat (- i)) else natDigits (nat i))"

subsection \<open>Orchestrator objects, as far as the reconciler reads them\<close>

type_synonym bytes = "8 word list"
type_synonym time = nat

record servicePort =
  NodePort :: "32 word"

record service =
  Ports :: "servicePort list"

datatype secret = Secret string
datatype serviceAccount = ServiceAccount string
datatype configMap = ConfigMap string
datatype persistentVolumeClaim = PersistentVolumeClaim string
datatype template = Template string

record clusterRoleBinding =
  BindingName :: string

text \<open>
  A deployment's \<^verbatim>\<open>Spec.Selector.MatchLabels\<close>, a Go map, as an association list
  read with \<open>map_of\<close>. The selector itself is taken as present, as it is for every
  deployment the API server has defaulted.
\<close>

record deployment =
  MatchLabels :: "(string \<times> string) list"

record etcdCluster =
  EtcdName :: string

datatype addonPhase = PendingAddonStatusPhase

record clusterAddon =
  AddonMetaName :: string
  AddonName :: string
  AddonPhase :: addonPhase

subsection \<open>The cluster record\<close>

text \<open>
  \<^verbatim>\<open>api.ClusterPhase\<close> is a string type; the three phases this file names are
  constructors, every other value is \<open>OtherPhase\<close>.
\<close>

datatype clusterPhase = Pending | Launching | Failed | OtherPhase string

datatype awsCloudSpec = AWSCloudSpec string

record cloudSpec =
  AWS :: "awsCloudSpec option"

record clusterSpec =
  MasterVersion :: string
  Cloud :: "cloudSpec option"

record objectMeta =
  Name :: string

record clusterAddress =
  URL :: string
  ApiserverExternalPort :: int

record keyCert =
  Key :: "bytes option"
  Cert :: "bytes option"

record clusterStatus =
  LastTransitionTime :: time
  Phase :: clusterPhase
  RootCA :: keyCert
  ApiserverSSH :: string

text \<open>
  \<open>Unnamed\<close> stands for the fields of \<^verbatim>\<open>api.Cluster\<close> that this file never
  names; a collaborator that is handed the cluster may write them.
\<close>

record cluster =
  Metadata :: objectMeta
  Spec :: clusterSpec
  Address :: clusterAddress
  Status :: clusterStatus
  Unnamed :: string

subsection \<open>Calls to the collaborators\<close>

text \<open>
  Every cache read, every request to the orchestrator client and every recorded event,
  in the order the reconciler issues them.
\<close>

datatype call =
    SecretStoreGetByKey string
  | ServiceStoreGetByKey string
  | ServiceStoreList
  | SaStoreGetByKey string
  | ClusterRoleBindingStoreGetByKey string
  | CmStoreGetByKey string
  | PvcStoreGetByKey string
  | DepStoreByIndex string string
  | AddonStoreGetByKey string
  | EtcdClusterStoreGetByKey string
  | SecretsCreate string secret
  | SecretsDelete string string
  | ServicesCreate string service
  | ServiceAccountsCreate string serviceAccount
  | ClusterRoleBindingsCreate clusterRoleBinding
  | ConfigMapsCreate string configMap
  | PersistentVolumeClaimsCreate string persistentVolumeClaim
  | DeploymentsCreate string deployment
  | ClusterAddonsCreate string clusterAddon
  | EtcdClusterCreate string etcdCluster
  | RecordClusterEvent string string "fmtarg list"

subsection \<open>The controller and its collaborators\<close>

record masterVersion =
  EtcdOperatorDeploymentYaml :: string
  ApiserverDeploymentYaml :: string
  ControllerDeploymentYaml :: string
  SchedulerDeploymentYaml :: string
  EtcdClusterYaml :: string

text \<open>
  The fields of \<^verbatim>\<open>clusterController\<close>. A store answers \<^verbatim>\<open>GetByKey\<close> with an
  error or with whether the key exists (the object itself is never used). The client
  answers a request with an error or none; its answer may depend on the calls made before.
\<close>

record clusterController =
  dc :: string
  externalURL :: string
  masterResourcesPath :: string
  minAPIServerPort :: int
  maxAPIServerPort :: int
  defaultMasterVersionID :: string
  versions :: "string \<Rightarrow> masterVersion option"
  client :: "call list \<Rightarrow> call \<Rightarrow> error option"
  secretStore :: "string \<Rightarrow> error + bool"
  serviceStore :: "string \<Rightarrow> error + bool"
  serviceStoreList :: "service list"
  saStore :: "string \<Rightarrow> error + bool"
  clusterRoleBindingStore :: "string \<Rightarrow> error + bool"
  cmStore :: "string \<Rightarrow> error + bool"
  pvcStore :: "string \<Rightarrow> error + bool"
  depStore :: "string \<Rightarrow> string \<Rightarrow> error + deployment list"
  addonStore :: "string \<Rightarrow> error + bool"
  etcdClusterStore :: "string \<Rightarrow> error + bool"

text \<open>The request handed to \<^verbatim>\<open>initca.New\<close>.\<close>

record basicKeyRequest =
  KeyA :: string
  KeyS :: int

record caConfig =
  Expiry :: string

record certificateRequest =
  CN :: string
  KeyRequest :: basicKeyRequest
  CA :: caConfig

text \<open>
  The functions of other packages, none of which is part of this file; they are
  parameters. One that is handed the cluster pointer returns the cluster as it leaves it.
  A secret generator returns, besides, whether its returned cluster pointer is non-nil
  (it is then the pointer it was given) and the secret. \<open>initcaNew\<close> returns
  certificate, key and error, all three of which the caller stores or inspects.
  \<open>timeNow\<close> is the reading of the clock; a reconcile reads it at most once.
\<close>

type_synonym secretGen =
  "clusterController \<Rightarrow> cluster \<Rightarrow> template \<Rightarrow> cluster \<times> (error + bool \<times> secret)"

record collaborators =
  namespaceName :: "string \<Rightarrow> string"
  checkTimeout :: "cluster \<Rightarrow> cluster \<times> error option"
  initcaNew :: "certificateRequest \<Rightarrow> bytes option \<times> bytes option \<times> error option"
  createTokens :: "cluster \<Rightarrow> cluster \<times> (error + secret)"
  createApiserverAuth :: secretGen
  createApiserverSSH :: secretGen
  timeNow :: time
  secretsRange :: "string list"
  depsRange :: "string list"
  pluginsRange :: "string list"

record loaders =
  pathJoin :: "string \<Rightarrow> string \<Rightarrow> string"
  templateParseFiles :: "string \<Rightarrow> error + template"
  LoadServiceFile :: "cluster \<Rightarrow> string \<Rightarrow> string \<Rightarrow> error + service"
  LoadServiceAccountFile :: "string \<Rightarrow> string \<Rightarrow> error + serviceAccount"
  LoadClusterRoleBindingFile :: "string \<Rightarrow> string \<Rightarrow> string \<Rightarrow> error + clusterRoleBinding"
  LoadAwsCloudConfigConfigMap :: "cluster \<Rightarrow> error + configMap"
  LoadDeploymentFile ::
    "cluster \<Rightarrow> masterVersion \<Rightarrow> string \<Rightarrow> string \<Rightarrow> string \<Rightarrow> error + deployment"
  LoadEtcdClusterFile :: "masterVersion \<Rightarrow> string \<Rightarrow> string \<Rightarrow> error + etcdCluster"

text \<open>
  Go ranges over a map in an order the runtime chooses. \<open>rangeMap order m\<close> lists
  the entries of the map literal \<open>m\<close> in the order of \<open>order\<close>, a permutation
  of the keys.
\<close>

definition rangeMap :: "string list \<Rightarrow> (string \<times> 'v) list \<Rightarrow> (string \<times> 'v) list" where
  "rangeMap order m =
     concat (map (\<lambda>k. case map_of m k of None \<Rightarrow> [] | Some v \<Rightarrow> [(k, v)]) order)"

subsection \<open>What a method returns\<close>

text \<open>
  \<open>obj\<close> is the cluster behind the pointer after the call, \<open>changedC\<close> says
  that the returned cluster pointer is non-nil (it then points to \<open>obj\<close>),
  \<open>err\<close> is the returned error and \<open>calls\<close> the calls made so far.
\<close>

record outcome =
  obj :: cluster
  changedC :: bool
  err :: "error option"
  calls :: "call list"

definition returnNil :: "cluster \<Rightarrow> call list \<Rightarrow> outcome" where
  "returnNil c cs = \<lparr>obj = c, changedC = False, err = None, calls = cs\<rparr>"

definition returnErr :: "cluster \<Rightarrow> error \<Rightarrow> call list \<Rightarrow> outcome" where
  "returnErr c e cs = \<lparr>obj = c, changedC = False, err = Some e, calls = cs\<rparr>"

definition returnC :: "cluster \<Rightarrow> call list \<Rightarrow> outcome" where
  "returnC c cs = \<lparr>obj = c, changedC = True, err = None, calls = cs\<rparr>"

subsection \<open>The port allocator\<close>

text \<open>
  \<^verbatim>\<open>GetFreeNodePort\<close>: the two nested loops that collect the used ports, the
  closure \<^verbatim>\<open>isIn\<close>, and the scan from the lower bound. A \<^verbatim>\<open>NodePort\<close> is an
  \<^verbatim>\<open>int32\<close>, converted with \<^verbatim>\<open>int(...)\<close>; the bounds and the scanned port are
  Go \<^verbatim>\<open>int\<close>s. The scan steps only past a used port, which is below \<open>2^31\<close>, so the
  64-bit increment never wraps and \<open>int\<close> is exact.
\<close>

primrec collectPorts :: "servicePort list \<Rightarrow> int list \<Rightarrow> int list" where
  "collectPorts [] usedPorts = usedPorts"
| "collectPorts (port # ports) usedPorts =
     (if NodePort port = 0 then collectPorts ports usedPorts
      else collectPorts ports (usedPorts @ [sint (NodePort port)]))"

primrec collectServices :: "service list \<Rightarrow> int list \<Rightarrow> int list" where
  "collectServices [] usedPorts = usedPorts"
| "collectServices (s # services) usedPorts =
     collectServices services (collectPorts (Ports s) usedPorts)"

primrec isIn :: "int \<Rightarrow> int list \<Rightarrow> bool" where
  "isIn p [] = False"
| "isIn p (takenPort # takenPorts) = (if p = takenPort then True else isIn p takenPorts)"

definition noFreeNodePort :: "clusterController \<Rightarrow> error" where
  "noFreeNodePort cc =
     Errorf ''no free NodePort available within the given range %d-%d''
       [ArgInt (minAPIServerPort cc), ArgInt (maxAPIServerPort cc)]"

function scanPorts :: "clusterController \<Rightarrow> int list \<Rightarrow> int \<Rightarrow> int \<times> error option" where
  "scanPorts cc usedPorts port =
     (if port \<le> maxAPIServerPort cc then
        (if isIn port usedPorts then scanPorts cc usedPorts (port + 1)
         else (port, None))
      else (0, Some (noFreeNodePort cc)))"
  by pat_completeness auto
termination
  by (relation "measure (\<lambda>(cc, usedPorts, port). nat (maxAPIServerPort cc + 1 - port))") auto

declare scanPorts.simps [simp del]

definition GetFreeNodePort ::
  "clusterController \<Rightarrow> call list \<Rightarrow> (int \<times> error option) \<times> call list" where
  "GetFreeNodePort cc cs =
     (let services = serviceStoreList cc;
          usedPorts = collectServices services []
      in (scanPorts cc usedPorts (minAPIServerPort cc), cs @ [ServiceStoreList]))"

text \<open>The non-zero node ports of the port entries of the services in the cache.\<close>

definition takenNodePorts :: "clusterController \<Rightarrow> int set" where
  "takenNodePorts cc =
     {sint (NodePort p) | s p. s \<in> set (serviceStoreList cc) \<and> p \<in> set (Ports s) \<and> NodePort p \<noteq> 0}"

subsection \<open>The root certificate authority\<close>

definition rootCAReq :: "clusterController \<Rightarrow> cluster \<Rightarrow> certificateRequest" where
  "rootCAReq cc c =
     \<lparr>CN = ''root-ca.'' @ Name (Metadata c) @ ''.'' @ dc cc @ ''.'' @ externalURL cc,
      KeyRequest = \<lparr>KeyA = ''rsa'', KeyS = 2048\<rparr>,
      CA = \<lparr>Expiry = itoa (24 * 365 * 10) @ ''h''\<rparr>\<rparr>"

definition pendingCreateRootCA ::
  "clusterController \<Rightarrow> collaborators \<Rightarrow> cluster \<Rightarrow> call list \<Rightarrow> outcome" where
  "pendingCreateRootCA cc ex c cs =
     (if Key (RootCA (Status c)) \<noteq> None then returnNil c cs
      else
        (case initcaNew ex (rootCAReq cc c) of
           (cert, key, e) \<Rightarrow>
             (let c1 = c\<lparr>Status := (Status c)\<lparr>RootCA := \<lparr>Key = key, Cert = cert\<rparr>\<rparr>\<rparr>
              in case e of
                   Some e' \<Rightarrow> returnErr c1 (Errorf ''failed to create root-ca: %v'' [ArgErr e']) cs
                 | None \<Rightarrow> returnC c1 cs)))"

subsection \<open>The token-users secret\<close>

definition launchingCheckTokenUsers ::
  "clusterController \<Rightarrow> collaborators \<Rightarrow> cluster \<Rightarrow> call list \<Rightarrow> outcome" where
  "launchingCheckTokenUsers cc ex c cs =
     (let ns = namespaceName ex (Name (Metadata c));
          key = ns @ ''/token-users'';
          cs1 = cs @ [SecretStoreGetByKey key]
      in case secretStore cc key of
           Inl e \<Rightarrow> returnErr c e cs1
         | Inr True \<Rightarrow> returnNil c cs1
         | Inr False \<Rightarrow>
             (case createTokens ex c of
                (c1, Inl e) \<Rightarrow>
                  returnErr c1 (Errorf ''failed to generate token users: %v'' [ArgErr e]) cs1
              | (c1, Inr secret) \<Rightarrow>
                  (case client cc cs1 (SecretsCreate ns secret) of
                     Some e \<Rightarrow>
                       returnErr c1 (Errorf ''failed to create secret for token user: %v'' [ArgErr e])
                         (cs1 @ [SecretsCreate ns secret])
                   | None \<Rightarrow>
                       returnC c1
                         (cs1 @ [SecretsCreate ns secret,
                                 RecordClusterEvent ''launching'' ''Created secret %q'' [ArgStr key]]))))"

subsection \<open>The public apiserver service\<close>

definition publicURL :: "clusterController \<Rightarrow> cluster \<Rightarrow> string" where
  "publicURL cc c =
     ''https://'' @ Name (Metadata c) @ ''.'' @ dc cc @ ''.'' @ externalURL cc @ '':''
       @ itoa (ApiserverExternalPort (Address c))"

definition launchingCheckApiserverPublicService ::
  "clusterController \<Rightarrow> loaders \<Rightarrow> collaborators \<Rightarrow> cluster \<Rightarrow> call list \<Rightarrow> outcome" where
  "launchingCheckApiserverPublicService cc ld ex c cs =
     (let ns = namespaceName ex (Name (Metadata c));
          key = ns @ ''/'' @ ''apiserver'';
          cs1 = cs @ [ServiceStoreGetByKey key]
      in case serviceStore cc key of
           Inl e \<Rightarrow> returnErr c e cs1
         | Inr True \<Rightarrow> returnNil c cs1
         | Inr False \<Rightarrow>
             (case GetFreeNodePort cc cs1 of
                ((port, perr), cs2) \<Rightarrow>
                  (let c1 = c\<lparr>Address := (Address c)\<lparr>ApiserverExternalPort := port\<rparr>\<rparr>
                   in case perr of
                        Some e \<Rightarrow> returnErr c1 e cs2
                      | None \<Rightarrow>
                          (let c2 = c1\<lparr>Address := (Address c1)\<lparr>URL := publicURL cc c1\<rparr>\<rparr>
                           in case LoadServiceFile ld c2 ''apiserver'' (masterResourcesPath cc) of
                                Inl e \<Rightarrow>
                                  returnErr c2
                                    (Errorf ''failed to generate apiserver service %s: %v''
                                       [ArgStr key, ArgErr e]) cs2
                              | Inr service \<Rightarrow>
                                  (case client cc cs2 (ServicesCreate ns service) of
                                     Some e \<Rightarrow>
                                       returnErr c2
                                         (Errorf ''failed to create apiserver service %s: %v''
                                            [ArgStr key, ArgErr e])
                                         (cs2 @ [ServicesCreate ns service])
                                   | None \<Rightarrow>
                                       returnC c2
                                         (cs2 @ [ServicesCreate ns service,
                                                 RecordClusterEvent ''launching''
                                                   ''Created apiserver service %q'' [ArgStr key]]))))))"

subsection \<open>Services, service accounts and cluster role bindings\<close>

text \<open>
  The three methods range over a map literal with one entry; the loop is a recursion over
  the list of entries. A method that returns only an error is a pair of the error and
  the calls.
\<close>

fun launchingCheckServicesLoop ::
  "clusterController \<Rightarrow> cluster \<Rightarrow> string \<Rightarrow>
   (string \<times> (cluster \<Rightarrow> string \<Rightarrow> string \<Rightarrow> error + service)) list \<Rightarrow> call list \<Rightarrow> outcome" where
  "launchingCheckServicesLoop cc c ns [] cs = returnNil c cs"
| "launchingCheckServicesLoop cc c ns ((s, gen) # services) cs =
     (let key = ns @ ''/'' @ s;
          cs1 = cs @ [ServiceStoreGetByKey key]
      in case serviceStore cc key of
           Inl e \<Rightarrow> returnErr c e cs1
         | Inr True \<Rightarrow> launchingCheckServicesLoop cc c ns services cs1
         | Inr False \<Rightarrow>
             (case gen c s (masterResourcesPath cc) of
                Inl e \<Rightarrow>
                  returnErr c (Errorf ''failed to generate service %s: %v'' [ArgStr s, ArgErr e]) cs1
              | Inr service \<Rightarrow>
                  (case client cc cs1 (ServicesCreate ns service) of
                     Some e \<Rightarrow>
                       returnErr c (Errorf ''failed to create service %s: %v'' [ArgStr s, ArgErr e])
                         (cs1 @ [ServicesCreate ns service])
                   | None \<Rightarrow>
                       launchingCheckServicesLoop cc c ns services
                         (cs1 @ [ServicesCreate ns service,
                                 RecordClusterEvent ''launching'' ''Created service %q'' [ArgStr s]]))))"

definition launchingCheckServices ::
  "clusterController \<Rightarrow> loaders \<Rightarrow> collaborators \<Rightarrow> cluster \<Rightarrow> call list \<Rightarrow> outcome" where
  "launchingCheckServices cc ld ex c cs =
     launchingCheckServicesLoop cc c (namespaceName ex (Name (Metadata c)))
       [(''apiserver-insecure'', LoadServiceFile ld)] cs"

fun launchingCheckServiceAccountsLoop ::
  "clusterController \<Rightarrow> string \<Rightarrow>
   (string \<times> (string \<Rightarrow> string \<Rightarrow> error + serviceAccount)) list \<Rightarrow> call list \<Rightarrow>
   error option \<times> call list" where
  "launchingCheckServiceAccountsLoop cc ns [] cs = (None, cs)"
| "launchingCheckServiceAccountsLoop cc ns ((s, gen) # serviceAccounts) cs =
     (let key = ns @ ''/'' @ s;
          cs1 = cs @ [SaStoreGetByKey key]
      in case saStore cc key of
           Inl e \<Rightarrow> (Some e, cs1)
         | Inr True \<Rightarrow> launchingCheckServiceAccountsLoop cc ns serviceAccounts cs1
         | Inr False \<Rightarrow>
             (case gen s (masterResourcesPath cc) of
                Inl e \<Rightarrow>
                  (Some (Errorf ''failed to generate service account %s: %v'' [ArgStr s, ArgErr e]), cs1)
              | Inr sa \<Rightarrow>
                  (case client cc cs1 (ServiceAccountsCreate ns sa) of
                     Some e \<Rightarrow>
                       (Some (Errorf ''failed to create service account %s: %v'' [ArgStr s, ArgErr e]),
                        cs1 @ [ServiceAccountsCreate ns sa])
                   | None \<Rightarrow>
                       launchingCheckServiceAccountsLoop cc ns serviceAccounts
                         (cs1 @ [ServiceAccountsCreate ns sa,
                                 RecordClusterEvent ''launching'' ''Created service account %q''
                                   [ArgStr s]]))))"

definition launchingCheckServiceAccounts ::
  "clusterController \<Rightarrow> loaders \<Rightarrow> collaborators \<Rightarrow> cluster \<Rightarrow> call list \<Rightarrow>
   error option \<times> call list" where
  "launchingCheckServiceAccounts cc ld ex c cs =
     launchingCheckServiceAccountsLoop cc (namespaceName ex (Name (Metadata c)))
       [(''etcd-operator'', LoadServiceAccountFile ld)] cs"

fun launchingCheckClusterRoleBindingsLoop ::
  "clusterController \<Rightarrow> string \<Rightarrow>
   (string \<times> (string \<Rightarrow> string \<Rightarrow> string \<Rightarrow> error + clusterRoleBinding)) list \<Rightarrow> call list \<Rightarrow>
   error option \<times> call list" where
  "launchingCheckClusterRoleBindingsLoop cc ns [] cs = (None, cs)"
| "launchingCheckClusterRoleBindingsLoop cc ns ((s, gen) # roleBindings) cs =
     (case gen ns s (masterResourcesPath cc) of
        Inl e \<Rightarrow>
          (Some (Errorf ''failed to generate cluster role binding %s: %v'' [ArgStr s, ArgErr e]), cs)
      | Inr binding \<Rightarrow>
          (let cs1 = cs @ [ClusterRoleBindingStoreGetByKey (BindingName binding)]
           in case clusterRoleBindingStore cc (BindingName binding) of
                Inl e \<Rightarrow> (Some e, cs1)
              | Inr True \<Rightarrow> launchingCheckClusterRoleBindingsLoop cc ns roleBindings cs1
              | Inr False \<Rightarrow>
                  (case client cc cs1 (ClusterRoleBindingsCreate binding) of
                     Some e \<Rightarrow>
                       (Some (Errorf ''failed to create cluster role binding %s: %v''
                                [ArgStr s, ArgErr e]),
                        cs1 @ [ClusterRoleBindingsCreate binding])
                   | None \<Rightarrow>
                       launchingCheckClusterRoleBindingsLoop cc ns roleBindings
                         (cs1 @ [ClusterRoleBindingsCreate binding,
                                 RecordClusterEvent ''launching'' ''Created binding %q''
                                   [ArgStr s]]))))"

definition launchingCheckClusterRoleBindings ::
  "clusterController \<Rightarrow> loaders \<Rightarrow> collaborators \<Rightarrow> cluster \<Rightarrow> call list \<Rightarrow>
   error option \<times> call list" where
  "launchingCheckClusterRoleBindings cc ld ex c cs =
     launchingCheckClusterRoleBindingsLoop cc (namespaceName ex (Name (Metadata c)))
       [(''etcd-operator'', LoadClusterRoleBindingFile ld)] cs"

subsection \<open>Secrets\<close>

text \<open>
  One pass through the body of the loop of \<^verbatim>\<open>pendingCheckSecrets\<close>: the outcome,
  and whether the loop goes on to the next entry.
\<close>

definition pendingCheckSecret ::
  "clusterController \<Rightarrow> loaders \<Rightarrow> cluster \<Rightarrow> string set \<Rightarrow> string \<Rightarrow> string \<times> secretGen \<Rightarrow>
   call list \<Rightarrow> outcome \<times> bool" where
  "pendingCheckSecret cc ld c recreateSecrets ns entry cs =
     (case entry of
        (s, gen) \<Rightarrow>
          (let key = ns @ ''/'' @ s;
               cs1 = cs @ [SecretStoreGetByKey key]
           in case secretStore cc key of
                Inl e \<Rightarrow> (returnErr c e cs1, False)
              | Inr exists \<Rightarrow>
                  (if exists \<and> s \<notin> recreateSecrets then (returnNil c cs1, True)
                   else
                     (case (if exists
                            then (client cc cs1 (SecretsDelete ns s), cs1 @ [SecretsDelete ns s])
                            else (None, cs1)) of
                        (Some e, cs2) \<Rightarrow> (returnErr c e cs2, False)
                      | (None, cs2) \<Rightarrow>
                          (case templateParseFiles ld
                                  (pathJoin ld (masterResourcesPath cc) (s @ ''-secret.yaml'')) of
                             Inl e \<Rightarrow> (returnErr c e cs2, False)
                           | Inr t \<Rightarrow>
                               (case gen cc c t of
                                  (c1, Inl e) \<Rightarrow>
                                    (returnErr c1
                                       (Errorf ''failed to generate %s: %v'' [ArgStr s, ArgErr e]) cs2,
                                     False)
                                | (c1, Inr (changed, secret)) \<Rightarrow>
                                    (case client cc cs2 (SecretsCreate ns secret) of
                                       Some e \<Rightarrow>
                                         (returnErr c1
                                            (Errorf ''failed to create secret for %s: %v''
                                               [ArgStr s, ArgErr e])
                                            (cs2 @ [SecretsCreate ns secret]),
                                          False)
                                     | None \<Rightarrow>
                                         (let cs3 = cs2 @ [SecretsCreate ns secret,
                                                           RecordClusterEvent ''pending''
                                                             ''Created secret %q'' [ArgStr key]]
                                          in if changed then (returnC c1 cs3, False)
                                             else (returnNil c1 cs3, True)))))))))"

fun pendingCheckSecretsLoop ::
  "clusterController \<Rightarrow> loaders \<Rightarrow> cluster \<Rightarrow> string set \<Rightarrow> string \<Rightarrow> (string \<times> secretGen) list \<Rightarrow>
   call list \<Rightarrow> outcome" where
  "pendingCheckSecretsLoop cc ld c recreateSecrets ns [] cs = returnNil c cs"
| "pendingCheckSecretsLoop cc ld c recreateSecrets ns (entry # secrets) cs =
     (case pendingCheckSecret cc ld c recreateSecrets ns entry cs of
        (r, True) \<Rightarrow> pendingCheckSecretsLoop cc ld (obj r) recreateSecrets ns secrets (calls r)
      | (r, False) \<Rightarrow> r)"

definition secretsMap :: "collaborators \<Rightarrow> (string \<times> secretGen) list" where
  "secretsMap ex =
     [(''apiserver-auth'', createApiserverAuth ex),
      (''apiserver-ssh'', createApiserverSSH ex)]"

definition pendingCheckSecrets ::
  "clusterController \<Rightarrow> loaders \<Rightarrow> collaborators \<Rightarrow> cluster \<Rightarrow> call list \<Rightarrow> outcome" where
  "pendingCheckSecrets cc ld ex c cs =
     (let recreateSecrets = (if length (ApiserverSSH (Status c)) = 0 then {''apiserver-ssh''} else {});
          ns = namespaceName ex (Name (Metadata c))
      in pendingCheckSecretsLoop cc ld c recreateSecrets ns
           (rangeMap (secretsRange ex) (secretsMap ex)) cs)"

subsection \<open>Config maps and persistent volume claims\<close>

fun launchingCheckConfigMapsLoop ::
  "clusterController \<Rightarrow> cluster \<Rightarrow> string \<Rightarrow> (string \<times> (cluster \<Rightarrow> error + configMap)) list \<Rightarrow>
   call list \<Rightarrow> error option \<times> call list" where
  "launchingCheckConfigMapsLoop cc c ns [] cs = (None, cs)"
| "launchingCheckConfigMapsLoop cc c ns ((s, gen) # cms) cs =
     (let key = ns @ ''/'' @ s;
          cs1 = cs @ [CmStoreGetByKey key]
      in case cmStore cc key of
           Inl e \<Rightarrow> (Some e, cs1)
         | Inr True \<Rightarrow> launchingCheckConfigMapsLoop cc c ns cms cs1
         | Inr False \<Rightarrow>
             (case gen c of
                Inl e \<Rightarrow> (Some (Errorf ''failed to generate cm %s: %v'' [ArgStr s, ArgErr e]), cs1)
              | Inr cm \<Rightarrow>
                  (case client cc cs1 (ConfigMapsCreate ns cm) of
                     Some e \<Rightarrow>
                       (Some (Errorf ''failed to create cm %s; %v'' [ArgStr s, ArgErr e]),
                        cs1 @ [ConfigMapsCreate ns cm])
                   | None \<Rightarrow>
                       launchingCheckConfigMapsLoop cc c ns cms
                         (cs1 @ [ConfigMapsCreate ns cm,
                                 RecordClusterEvent ''launching'' ''Created cm %q'' [ArgStr s]]))))"

definition configMapsFor :: "loaders \<Rightarrow> cluster \<Rightarrow> (string \<times> (cluster \<Rightarrow> error + configMap)) list" where
  "configMapsFor ld c =
     (case Cloud (Spec c) of
        None \<Rightarrow> []
      | Some cloud \<Rightarrow>
          (if AWS cloud \<noteq> None then [(''aws-cloud-config'', LoadAwsCloudConfigConfigMap ld)]
           else []))"

definition launchingCheckConfigMaps ::
  "clusterController \<Rightarrow> loaders \<Rightarrow> collaborators \<Rightarrow> cluster \<Rightarrow> call list \<Rightarrow>
   error option \<times> call list" where
  "launchingCheckConfigMaps cc ld ex c cs =
     launchingCheckConfigMapsLoop cc c (namespaceName ex (Name (Metadata c)))
       (configMapsFor ld c) cs"

fun launchingCheckPvcsLoop ::
  "clusterController \<Rightarrow> cluster \<Rightarrow> string \<Rightarrow>
   (string \<times> (cluster \<Rightarrow> string \<Rightarrow> string \<Rightarrow> error + persistentVolumeClaim)) list \<Rightarrow>
   call list \<Rightarrow> error option \<times> call list" where
  "launchingCheckPvcsLoop cc c ns [] cs = (None, cs)"
| "launchingCheckPvcsLoop cc c ns ((s, gen) # pvcs) cs =
     (let key = ns @ ''/'' @ s @ ''-pvc'';
          cs1 = cs @ [PvcStoreGetByKey key]
      in case pvcStore cc key of
           Inl e \<Rightarrow> (Some e, cs1)
         | Inr True \<Rightarrow> launchingCheckPvcsLoop cc c ns pvcs cs1
         | Inr False \<Rightarrow>
             (case gen c s (masterResourcesPath cc) of
                Inl e \<Rightarrow> (Some (Errorf ''failed to generate pvc %s: %v'' [ArgStr s, ArgErr e]), cs1)
              | Inr pvc \<Rightarrow>
                  (case client cc cs1 (PersistentVolumeClaimsCreate ns pvc) of
                     Some e \<Rightarrow>
                       (Some (Errorf ''failed to create pvc %s; %v'' [ArgStr s, ArgErr e]),
                        cs1 @ [PersistentVolumeClaimsCreate ns pvc])
                   | None \<Rightarrow>
                       launchingCheckPvcsLoop cc c ns pvcs
                         (cs1 @ [PersistentVolumeClaimsCreate ns pvc,
                                 RecordClusterEvent ''launching'' ''Created pvc %q'' [ArgStr s]]))))"

text \<open>The map literal of \<^verbatim>\<open>launchingCheckPvcs\<close> has no entry.\<close>

definition launchingCheckPvcs ::
  "clusterController \<Rightarrow> loaders \<Rightarrow> collaborators \<Rightarrow> cluster \<Rightarrow> call list \<Rightarrow>
   error option \<times> call list" where
  "launchingCheckPvcs cc ld ex c cs =
     launchingCheckPvcsLoop cc c (namespaceName ex (Name (Metadata c))) [] cs"

subsection \<open>Master version, deployments and the etcd cluster\<close>

text \<open>
  The first lines of \<^verbatim>\<open>launchingCheckDeployments\<close> and of
  \<^verbatim>\<open>launchingCheckEtcdCluster\<close> are the same: an empty master version is replaced
  by the default, in the cluster itself.
\<close>

definition withDefaultVersion :: "clusterController \<Rightarrow> cluster \<Rightarrow> cluster" where
  "withDefaultVersion cc c =
     (if MasterVersion (Spec c) = '''' then c\<lparr>Spec := (Spec c)\<lparr>MasterVersion := defaultMasterVersionID cc\<rparr>\<rparr>
      else c)"

definition unknownVersion :: "collaborators \<Rightarrow> cluster \<Rightarrow> call list \<Rightarrow> outcome" where
  "unknownVersion ex c cs =
     (let c1 = c\<lparr>Status := (Status c)\<lparr>LastTransitionTime := timeNow ex\<rparr>\<rparr>;
          c2 = c1\<lparr>Status := (Status c1)\<lparr>Phase := Failed\<rparr>\<rparr>
      in \<lparr>obj = c2, changedC = True,
          err = Some (Errorf ''unknown new cluster %q master version %q''
                        [ArgStr (Name (Metadata c2)), ArgStr (MasterVersion (Spec c2))]),
          calls = cs @ [RecordClusterEvent ''launching''
                          ''Failed to create new cluster %q due to unknown master version %q''
                          [ArgStr (Name (Metadata c2)), ArgStr (MasterVersion (Spec c2))]]\<rparr>)"

primrec roleExists :: "string \<Rightarrow> deployment list \<Rightarrow> bool" where
  "roleExists s [] = False"
| "roleExists s (dep # existingDeps) =
     (case map_of (MatchLabels dep) ''role'' of
        Some role \<Rightarrow> (if role = s then True else roleExists s existingDeps)
      | None \<Rightarrow> roleExists s existingDeps)"

fun launchingCheckDeploymentsLoop ::
  "clusterController \<Rightarrow> loaders \<Rightarrow> cluster \<Rightarrow> masterVersion \<Rightarrow> string \<Rightarrow> deployment list \<Rightarrow>
   (string \<times> string) list \<Rightarrow> call list \<Rightarrow> outcome" where
  "launchingCheckDeploymentsLoop cc ld c mv ns existingDeps [] cs = returnNil c cs"
| "launchingCheckDeploymentsLoop cc ld c mv ns existingDeps ((s, yamlFile) # deps) cs =
     (if roleExists s existingDeps then launchingCheckDeploymentsLoop cc ld c mv ns existingDeps deps cs
      else
        (case LoadDeploymentFile ld c mv (masterResourcesPath cc) (dc cc) yamlFile of
           Inl e \<Rightarrow>
             returnErr c (Errorf ''failed to generate deployment %s: %v'' [ArgStr s, ArgErr e]) cs
         | Inr dep \<Rightarrow>
             (case client cc cs (DeploymentsCreate ns dep) of
                Some e \<Rightarrow>
                  returnErr c (Errorf ''failed to create deployment %s: %v'' [ArgStr s, ArgErr e])
                    (cs @ [DeploymentsCreate ns dep])
              | None \<Rightarrow>
                  launchingCheckDeploymentsLoop cc ld c mv ns existingDeps deps
                    (cs @ [DeploymentsCreate ns dep,
                           RecordClusterEvent ''launching'' ''Created dep %q'' [ArgStr s]]))))"

definition depsMap :: "masterVersion \<Rightarrow> (string \<times> string) list" where
  "depsMap mv =
     [(''etcd-operator'', EtcdOperatorDeploymentYaml mv),
      (''apiserver'', ApiserverDeploymentYaml mv),
      (''controller-manager'', ControllerDeploymentYaml mv),
      (''scheduler'', SchedulerDeploymentYaml mv)]"

definition launchingCheckDeployments ::
  "clusterController \<Rightarrow> loaders \<Rightarrow> collaborators \<Rightarrow> cluster \<Rightarrow> call list \<Rightarrow> outcome" where
  "launchingCheckDeployments cc ld ex c cs =
     (let ns = namespaceName ex (Name (Metadata c));
          c1 = withDefaultVersion cc c
      in case versions cc (MasterVersion (Spec c1)) of
           None \<Rightarrow> unknownVersion ex c1 cs
         | Some mv \<Rightarrow>
             (let cs1 = cs @ [DepStoreByIndex ''namespace'' ns]
              in case depStore cc ''namespace'' ns of
                   Inl e \<Rightarrow> returnErr c1 e cs1
                 | Inr existingDeps \<Rightarrow>
                     launchingCheckDeploymentsLoop cc ld c1 mv ns existingDeps
                       (rangeMap (depsRange ex) (depsMap mv)) cs1))"

definition launchingCheckEtcdCluster ::
  "clusterController \<Rightarrow> loaders \<Rightarrow> collaborators \<Rightarrow> cluster \<Rightarrow> call list \<Rightarrow> outcome" where
  "launchingCheckEtcdCluster cc ld ex c cs =
     (let ns = namespaceName ex (Name (Metadata c));
          c1 = withDefaultVersion cc c
      in case versions cc (MasterVersion (Spec c1)) of
           None \<Rightarrow> unknownVersion ex c1 cs
         | Some mv \<Rightarrow>
             (case LoadEtcdClusterFile ld mv (masterResourcesPath cc) (EtcdClusterYaml mv) of
                Inl e \<Rightarrow> returnErr c1 (Errorf ''failed to load etcd-cluster: %v'' [ArgErr e]) cs
              | Inr etcd \<Rightarrow>
                  (let key = ns @ ''/'' @ EtcdName etcd;
                       cs1 = cs @ [EtcdClusterStoreGetByKey key]
                   in case etcdClusterStore cc key of
                        Inl e \<Rightarrow> returnErr c1 e cs1
                      | Inr True \<Rightarrow> returnC c1 cs1
                      | Inr False \<Rightarrow>
                          (case client cc cs1 (EtcdClusterCreate ns etcd) of
                             Some e \<Rightarrow>
                               returnErr c1
                                 (Errorf ''failed to create ecd-cluster definition (tpr): %v'' [ArgErr e])
                                 (cs1 @ [EtcdClusterCreate ns etcd])
                           | None \<Rightarrow>
                               returnNil c1
                                 (cs1 @ [EtcdClusterCreate ns etcd,
                                         RecordClusterEvent ''launching'' ''Created etcd-cluster''
                                           [ArgStr (EtcdName etcd)]])))))"

subsection \<open>Default add-ons\<close>

definition defaultPlugins :: "(string \<times> string) list" where
  "defaultPlugins =
     [(''flannelcni'', ''flannel-cni''),
      (''heapster'', ''heapster''),
      (''kubedns'', ''kubedns''),
      (''kubeproxy'', ''kube-proxy''),
      (''kubernetesdashboard'', ''kubernetes-dashboard'')]"

text \<open>
  One pass through the body of the loop of \<^verbatim>\<open>launchingCheckDefaultPlugins\<close>: the
  error, whether the loop goes on, and the calls.
\<close>

definition launchingCheckDefaultPlugin ::
  "clusterController \<Rightarrow> cluster \<Rightarrow> string \<Rightarrow> string \<times> string \<Rightarrow> call list \<Rightarrow>
   (error option \<times> bool) \<times> call list" where
  "launchingCheckDefaultPlugin cc c ns entry cs =
     (case entry of
        (safeName, name) \<Rightarrow>
          (let metaName = ''addon-default-'' @ safeName;
               cs1 = cs @ [AddonStoreGetByKey (ns @ ''/'' @ metaName)]
           in case addonStore cc (ns @ ''/'' @ metaName) of
                Inl e \<Rightarrow> ((Some e, False), cs1)
              | Inr True \<Rightarrow> ((None, True), cs1)
              | Inr False \<Rightarrow>
                  (let addon = \<lparr>AddonMetaName = metaName, AddonName = name,
                                AddonPhase = PendingAddonStatusPhase\<rparr>;
                       create = ClusterAddonsCreate (''cluster-'' @ Name (Metadata c)) addon
                   in case client cc cs1 create of
                        Some e \<Rightarrow>
                          ((Some (Errorf ''failed to create default addon third-party-resource %s; %v''
                                    [ArgStr name, ArgErr e]), False),
                           cs1 @ [create])
                      | None \<Rightarrow> ((None, True), cs1 @ [create]))))"

fun launchingCheckDefaultPluginsLoop ::
  "clusterController \<Rightarrow> cluster \<Rightarrow> string \<Rightarrow> (string \<times> string) list \<Rightarrow> call list \<Rightarrow>
   error option \<times> call list" where
  "launchingCheckDefaultPluginsLoop cc c ns [] cs = (None, cs)"
| "launchingCheckDefaultPluginsLoop cc c ns (entry # plugins) cs =
     (case launchingCheckDefaultPlugin cc c ns entry cs of
        ((e, True), cs1) \<Rightarrow> launchingCheckDefaultPluginsLoop cc c ns plugins cs1
      | ((e, False), cs1) \<Rightarrow> (e, cs1))"

definition launchingCheckDefaultPlugins ::
  "clusterController \<Rightarrow> loaders \<Rightarrow> collaborators \<Rightarrow> cluster \<Rightarrow> call list \<Rightarrow>
   error option \<times> call list" where
  "launchingCheckDefaultPlugins cc ld ex c cs =
     launchingCheckDefaultPluginsLoop cc c (namespaceName ex (Name (Metadata c)))
       (rangeMap (pluginsRange ex) defaultPlugins) cs"

subsection \<open>The driver\<close>

text \<open>
  \<^verbatim>\<open>syncPendingCluster\<close>, return by return. Where the Go code returns
  \<^verbatim>\<open>changedC\<close> after a method that returns only an error, the pointer is the one left
  by the last method that assigned it.
\<close>

definition promote :: "collaborators \<Rightarrow> cluster \<Rightarrow> cluster" where
  "promote ex c =
     (let c1 = c\<lparr>Status := (Status c)\<lparr>LastTransitionTime := timeNow ex\<rparr>\<rparr>
      in c1\<lparr>Status := (Status c1)\<lparr>Phase := Launching\<rparr>\<rparr>)"

definition syncFromDeployments ::
  "clusterController \<Rightarrow> loaders \<Rightarrow> collaborators \<Rightarrow> cluster \<Rightarrow> call list \<Rightarrow> outcome" where
  "syncFromDeployments cc ld ex c cs =
     (let r10 = launchingCheckDeployments cc ld ex c cs
      in if err r10 \<noteq> None then r10
         else
           (let r11 = launchingCheckEtcdCluster cc ld ex (obj r10) (calls r10)
            in if err r11 \<noteq> None then r11
               else
                 (case launchingCheckDefaultPlugins cc ld ex (obj r11) (calls r11) of
                    (Some e, cs12) \<Rightarrow> returnErr (obj r11) e cs12
                  | (None, cs12) \<Rightarrow> returnC (promote ex (obj r11)) cs12)))"

definition syncFromSecrets ::
  "clusterController \<Rightarrow> loaders \<Rightarrow> collaborators \<Rightarrow> cluster \<Rightarrow> call list \<Rightarrow> outcome" where
  "syncFromSecrets cc ld ex c cs =
     (let r7 = pendingCheckSecrets cc ld ex c cs
      in if err r7 \<noteq> None \<or> changedC r7 then r7
         else
           (case launchingCheckConfigMaps cc ld ex (obj r7) (calls r7) of
              (e8, cs8) \<Rightarrow>
                (if e8 \<noteq> None \<or> changedC r7 then r7\<lparr>err := e8, calls := cs8\<rparr>
                 else
                   (case launchingCheckPvcs cc ld ex (obj r7) cs8 of
                      (Some e, cs9) \<Rightarrow> returnErr (obj r7) e cs9
                    | (None, cs9) \<Rightarrow> syncFromDeployments cc ld ex (obj r7) cs9))))"

definition syncFromServiceAccounts ::
  "clusterController \<Rightarrow> loaders \<Rightarrow> collaborators \<Rightarrow> outcome \<Rightarrow> outcome" where
  "syncFromServiceAccounts cc ld ex r3 =
     (case launchingCheckServiceAccounts cc ld ex (obj r3) (calls r3) of
        (Some e, cs4) \<Rightarrow> r3\<lparr>err := Some e, calls := cs4\<rparr>
      | (None, cs4) \<Rightarrow>
          (case launchingCheckClusterRoleBindings cc ld ex (obj r3) cs4 of
             (Some e, cs5) \<Rightarrow> r3\<lparr>err := Some e, calls := cs5\<rparr>
           | (None, cs5) \<Rightarrow>
               (let r6 = launchingCheckServices cc ld ex (obj r3) cs5
                in if err r6 \<noteq> None \<or> changedC r6 then r6
                   else syncFromSecrets cc ld ex (obj r6) (calls r6))))"

definition syncPendingCluster ::
  "clusterController \<Rightarrow> loaders \<Rightarrow> collaborators \<Rightarrow> cluster \<Rightarrow> call list \<Rightarrow> outcome" where
  "syncPendingCluster cc ld ex c cs =
     (case checkTimeout ex c of
        (c0, Some e) \<Rightarrow> returnErr c0 e cs
      | (c0, None) \<Rightarrow>
          (let r1 = pendingCreateRootCA cc ex c0 cs
           in if err r1 \<noteq> None \<or> changedC r1 then r1
              else
                (let r2 = launchingCheckTokenUsers cc ex (obj r1) (calls r1)
                 in if err r2 \<noteq> None \<or> changedC r2 then r2
                    else
                      (let r3 = launchingCheckApiserverPublicService cc ld ex (obj r2) (calls r2)
                       in if err r3 \<noteq> None \<or> changedC r3 then r3
                          else syncFromServiceAccounts cc ld ex r3))))"

subsection \<open>What the properties speak of\<close>

text \<open>
  The four parts of the cluster that a reconcile may change before it yields: the root
  CA, the address of the public service, the SSH material, and what is left of the record
  (the part the token generator writes).
\<close>

definition rootCAChanged :: "cluster \<Rightarrow> cluster \<Rightarrow> bool" where
  "rootCAChanged c c' \<longleftrightarrow> RootCA (Status c') \<noteq> RootCA (Status c)"

definition publicServiceChanged :: "cluster \<Rightarrow> cluster \<Rightarrow> bool" where
  "publicServiceChanged c c' \<longleftrightarrow>
     URL (Address c') \<noteq> URL (Address c) \<or>
     ApiserverExternalPort (Address c') \<noteq> ApiserverExternalPort (Address c)"

definition apiserverSSHChanged :: "cluster \<Rightarrow> cluster \<Rightarrow> bool" where
  "apiserverSSHChanged c c' \<longleftrightarrow> ApiserverSSH (Status c') \<noteq> ApiserverSSH (Status c)"

definition tokenUsersChanged :: "cluster \<Rightarrow> cluster \<Rightarrow> bool" where
  "tokenUsersChanged c c' \<longleftrightarrow>
     c'\<lparr>Address := Address c,
        Status := (Status c')\<lparr>RootCA := RootCA (Status c), ApiserverSSH := ApiserverSSH (Status c)\<rparr>\<rparr> \<noteq> c"

definition changedParts :: "cluster \<Rightarrow> cluster \<Rightarrow> nat" where
  "changedParts c c' =
     length (filter id [rootCAChanged c c', publicServiceChanged c c',
                        tokenUsersChanged c c', apiserverSSHChanged c c'])"

text \<open>
  The cluster \<open>c'\<close> is the cluster \<open>c\<close> but for one of the four parts: the root CA, the
  address, the SSH material, or what is left of the record.
\<close>

definition caOnly :: "cluster \<Rightarrow> cluster \<Rightarrow> bool" where
  "caOnly c c' \<longleftrightarrow> c' = c\<lparr>Status := (Status c)\<lparr>RootCA := RootCA (Status c')\<rparr>\<rparr>"

definition addressOnly :: "cluster \<Rightarrow> cluster \<Rightarrow> bool" where
  "addressOnly c c' \<longleftrightarrow> c' = c\<lparr>Address := Address c'\<rparr>"

definition sshOnly :: "cluster \<Rightarrow> cluster \<Rightarrow> bool" where
  "sshOnly c c' \<longleftrightarrow> c' = c\<lparr>Status := (Status c)\<lparr>ApiserverSSH := ApiserverSSH (Status c')\<rparr>\<rparr>"

definition tokenOnly :: "cluster \<Rightarrow> cluster \<Rightarrow> bool" where
  "tokenOnly c c' \<longleftrightarrow> Status c' = Status c \<and> Address c' = Address c"

text \<open>
  What the properties of the driver take for granted about the collaborators: the timeout
  check leaves the cluster alone when it reports no error; the token generator leaves
  status and address alone; the generator of \<^verbatim>\<open>apiserver-auth\<close> leaves the cluster
  alone, and the generator of \<^verbatim>\<open>apiserver-ssh\<close> writes at most
  \<^verbatim>\<open>Status.ApiserverSSH\<close>.
\<close>

definition framed :: "clusterController \<Rightarrow> collaborators \<Rightarrow> bool" where
  "framed cc ex \<longleftrightarrow>
     (\<forall>c. snd (checkTimeout ex c) = None \<longrightarrow> fst (checkTimeout ex c) = c) \<and>
     (\<forall>c. Status (fst (createTokens ex c)) = Status c \<and>
          Address (fst (createTokens ex c)) = Address c) \<and>
     (\<forall>c t. fst (createApiserverAuth ex cc c t) = c) \<and>
     (\<forall>c t. fst (createApiserverSSH ex cc c t) =
             c\<lparr>Status := (Status c)\<lparr>ApiserverSSH := ApiserverSSH (Status (fst (createApiserverSSH ex cc c t)))\<rparr>\<rparr>)"

subsection \<open>An example controller\<close>

definition demoVersion :: masterVersion where
  "demoVersion =
     \<lparr>EtcdOperatorDeploymentYaml = ''etcd-operator-dep.yaml'',
      ApiserverDeploymentYaml = ''apiserver-dep.yaml'',
      ControllerDeploymentYaml = ''controller-manager-dep.yaml'',
      SchedulerDeploymentYaml = ''scheduler-dep.yaml'',
      EtcdClusterYaml = ''etcd-cluster.yaml''\<rparr>"

text \<open>
  Empty caches but for two services that hold the node ports 30000 and 30001, a client
  that accepts every request, and the port range 30000 to 30005.
\<close>

definition demoController :: clusterController where
  "demoController =
     \<lparr>dc = ''eu1'', externalURL = ''example.com'', masterResourcesPath = ''/res'',
      minAPIServerPort = 30000, maxAPIServerPort = 30005,
      defaultMasterVersionID = ''v1'',
      versions = (\<lambda>k. if k = ''v1'' then Some demoVersion else None),
      client = (\<lambda>cs call. None),
      secretStore = (\<lambda>k. Inr False),
      serviceStore = (\<lambda>k. Inr False),
      serviceStoreList =
        [\<lparr>Ports = [\<lparr>NodePort = 30000\<rparr>, \<lparr>NodePort = 0\<rparr>]\<rparr>, \<lparr>Ports = [\<lparr>NodePort = 30001\<rparr>]\<rparr>],
      saStore = (\<lambda>k. Inr False),
      clusterRoleBindingStore = (\<lambda>k. Inr False),
      cmStore = (\<lambda>k. Inr False),
      pvcStore = (\<lambda>k. Inr False),
      depStore = (\<lambda>i k. Inr []),
      addonStore = (\<lambda>k. Inr False),
      etcdClusterStore = (\<lambda>k. Inr False)\<rparr>"

text \<open>
  Collaborators that never fail: the namespace of a cluster is \<^verbatim>\<open>cluster-<name>\<close>,
  the token generator writes the part of the record this file does not name, the
  generator of \<^verbatim>\<open>apiserver-ssh\<close> records the key in the status and returns the
  cluster, the generator of \<^verbatim>\<open>apiserver-auth\<close> returns nil for it.
\<close>

definition demoCollaborators :: collaborators where
  "demoCollaborators =
     \<lparr>namespaceName = (\<lambda>n. ''cluster-'' @ n),
      checkTimeout = (\<lambda>c. (c, None)),
      initcaNew = (\<lambda>req. (Some [67, 69, 82, 84], Some [75, 69, 89], None)),
      createTokens = (\<lambda>c. (c\<lparr>Unnamed := ''tokens''\<rparr>, Inr (Secret ''token-users''))),
      createApiserverAuth = (\<lambda>cc c t. (c, Inr (False, Secret ''apiserver-auth''))),
      createApiserverSSH =
        (\<lambda>cc c t. (c\<lparr>Status := (Status c)\<lparr>ApiserverSSH := ''ssh-rsa''\<rparr>\<rparr>,
                    Inr (True, Secret ''apiserver-ssh''))),
      timeNow = 1000,
      secretsRange = [''apiserver-auth'', ''apiserver-ssh''],
      depsRange = [''etcd-operator'', ''apiserver'', ''controller-manager'', ''scheduler''],
      pluginsRange = [''flannelcni'', ''heapster'', ''kubedns'', ''kubeproxy'', ''kubernetesdashboard'']\<rparr>"

definition demoLoaders :: loaders where
  "demoLoaders =
     \<lparr>pathJoin = (\<lambda>a b. a @ ''/'' @ b),
      templateParseFiles = (\<lambda>p. Inr (Template p)),
      LoadServiceFile = (\<lambda>c app p. Inr \<lparr>Ports = []\<rparr>),
      LoadServiceAccountFile = (\<lambda>app p. Inr (ServiceAccount app)),
      LoadClusterRoleBindingFile = (\<lambda>ns app p. Inr \<lparr>BindingName = ns @ ''-'' @ app\<rparr>),
      LoadAwsCloudConfigConfigMap = (\<lambda>c. Inr (ConfigMap ''aws-cloud-config'')),
      LoadDeploymentFile = (\<lambda>c mv p d yaml. Inr \<lparr>MatchLabels = [(''role'', yaml)]\<rparr>),
      LoadEtcdClusterFile = (\<lambda>mv p yaml. Inr \<lparr>EtcdName = ''etcd-cluster''\<rparr>)\<rparr>"

text \<open>A freshly declared cluster on AWS, and the same cluster later in its life.\<close>

definition demoCluster :: cluster where
  "demoCluster =
     \<lparr>Metadata = \<lparr>Name = ''c1''\<rparr>,
      Spec = \<lparr>MasterVersion = ''v1'', Cloud = Some \<lparr>AWS = Some (AWSCloudSpec ''eu-west-1'')\<rparr>\<rparr>,
      Address = \<lparr>URL = '''', ApiserverExternalPort = 0\<rparr>,
      Status = \<lparr>LastTransitionTime = 0, Phase = Pending,
                RootCA = \<lparr>Key = None, Cert = None\<rparr>, ApiserverSSH = ''''\<rparr>,
      Unnamed = ''''\<rparr>"

definition demoClusterWithCA :: cluster where
  "demoClusterWithCA =
     demoCluster\<lparr>Status := (Status demoCluster)\<lparr>RootCA := \<lparr>Key = Some [75, 69, 89], Cert = Some [67, 69, 82, 84]\<rparr>\<rparr>\<rparr>"

text \<open>
  A cluster whose public service was created once, with port 30001, and a controller
  whose port range, 30000 to 30001, is taken and whose secret cache holds every key.
\<close>

definition allocatedCluster :: cluster where
  "allocatedCluster =
     demoClusterWithCA\<lparr>Address := \<lparr>URL = ''https://c1.eu1.example.com:30001'',
                                    ApiserverExternalPort = 30001\<rparr>\<rparr>"

definition exhaustedController :: clusterController where
  "exhaustedController =
     demoController\<lparr>maxAPIServerPort := 30001, secretStore := (\<lambda>k. Inr True)\<rparr>"

text \<open>A cluster that names no master version, and a controller whose default is unknown.\<close>

definition unversionedCluster :: cluster where
  "unversionedCluster = demoCluster\<lparr>Spec := \<lparr>MasterVersion = '''', Cloud = None\<rparr>\<rparr>"

definition unknownDefaultController :: clusterController where
  "unknownDefaultController = demoController\<lparr>defaultMasterVersionID := ''v0''\<rparr>"

text \<open>Collaborators for which the namespace of a cluster is \<^verbatim>\<open>ns-<name>\<close>.\<close>

definition otherNamespace :: collaborators where
  "otherNamespace = demoCollaborators\<lparr>namespaceName := (\<lambda>n. ''ns-'' @ n)\<rparr>"


text \<open>A controller whose secret cache holds every key.\<close>

definition warmSecretsController :: clusterController where
  "warmSecretsController = demoController\<lparr>secretStore := (\<lambda>k. Inr True)\<rparr>"

text \<open>The cluster with its root CA and with recorded SSH material.\<close>

definition keyedCluster :: cluster where
  "keyedCluster = demoClusterWithCA\<lparr>Status := (Status demoClusterWithCA)\<lparr>ApiserverSSH := ''ssh-rsa''\<rparr>\<rparr>"

text \<open>
  A controller whose caches hold every key and, for every namespace, a deployment for
  each of the four roles.
\<close>

definition warmController :: clusterController where
  "warmController =
     demoController
       \<lparr>secretStore := (\<lambda>k. Inr True), serviceStore := (\<lambda>k. Inr True), saStore := (\<lambda>k. Inr True),
        clusterRoleBindingStore := (\<lambda>k. Inr True), cmStore := (\<lambda>k. Inr True),
        depStore := (\<lambda>i k. Inr [\<lparr>MatchLabels = [(''role'', ''etcd-operator'')]\<rparr>,
                                  \<lparr>MatchLabels = [(''role'', ''apiserver'')]\<rparr>,
                                  \<lparr>MatchLabels = [(''role'', ''controller-manager'')]\<rparr>,
                                  \<lparr>MatchLabels = [(''role'', ''scheduler'')]\<rparr>]),
        addonStore := (\<lambda>k. Inr True), etcdClusterStore := (\<lambda>k. Inr True)\<rparr>"

text \<open>
  A controller whose add-on cache holds the default add-ons of the cluster \<^verbatim>\<open>c1\<close>,
  each under the key of the namespace \<^verbatim>\<open>cluster-c1\<close>.
\<close>

definition retryController :: clusterController where
  "retryController =
     demoController
       \<lparr>addonStore :=
          (\<lambda>k. Inr (k \<in> set (map (\<lambda>(safe, name). ''cluster-c1/addon-default-'' @ safe) defaultPlugins)))\<rparr>"


section \<open>Properties\<close>

lemma set_collectPorts:
  "set (collectPorts ports acc) = set acc \<union> {sint (NodePort p) | p. p \<in> set ports \<and> NodePort p \<noteq> 0}"
  by (induction ports arbitrary: acc) auto

lemma set_collectServices:
  "set (collectServices services acc) =
     set acc \<union> {sint (NodePort p) | s p. s \<in> set services \<and> p \<in> set (Ports s) \<and> NodePort p \<noteq> 0}"
  by (induction services arbitrary: acc) (auto simp: set_collectPorts)

lemma isIn_iff: "isIn p ports \<longleftrightarrow> p \<in> set ports"
  by (induction ports) auto

lemma scanPorts_free:
  "scanPorts cc used port = (p, None) \<Longrightarrow>
     port \<le> p \<and> p \<le> maxAPIServerPort cc \<and> p \<notin> set used \<and> (\<forall>q. port \<le> q \<and> q < p \<longrightarrow> q \<in> set used)"
proof (induction cc used port rule: scanPorts.induct)
  case (1 cc used port)
  show ?case
  proof (cases "port \<le> maxAPIServerPort cc \<and> isIn port used")
    case True
    then have eq: "scanPorts cc used (port + 1) = (p, None)"
      using "1.prems" by (simp add: scanPorts.simps [of cc used port])
    from "1.IH" [OF _ _ eq] True
    have ih: "port + 1 \<le> p \<and> p \<le> maxAPIServerPort cc \<and> p \<notin> set used \<and>
              (\<forall>q. port + 1 \<le> q \<and> q < p \<longrightarrow> q \<in> set used)"
      by simp
    have "port \<in> set used" using True by (simp add: isIn_iff)
    then have "\<forall>q. port \<le> q \<and> q < p \<longrightarrow> q \<in> set used"
      using ih by (metis add.commute less_le zless_imp_add1_zle)
    with ih show ?thesis by simp
  next
    case False
    then show ?thesis
      using "1.prems" by (auto simp: scanPorts.simps [of cc used port] isIn_iff split: if_splits)
  qed
qed

lemma scanPorts_exhausted:
  "scanPorts cc used port = (p, Some e) \<Longrightarrow>
     p = 0 \<and> e = noFreeNodePort cc \<and> (\<forall>q. port \<le> q \<and> q \<le> maxAPIServerPort cc \<longrightarrow> q \<in> set used)"
proof (induction cc used port rule: scanPorts.induct)
  case (1 cc used port)
  show ?case
  proof (cases "port \<le> maxAPIServerPort cc \<and> isIn port used")
    case True
    then have eq: "scanPorts cc used (port + 1) = (p, Some e)"
      using "1.prems" by (simp add: scanPorts.simps [of cc used port])
    from "1.IH" [OF _ _ eq] True
    have ih: "p = 0 \<and> e = noFreeNodePort cc \<and>
              (\<forall>q. port + 1 \<le> q \<and> q \<le> maxAPIServerPort cc \<longrightarrow> q \<in> set used)"
      by simp
    have "port \<in> set used" using True by (simp add: isIn_iff)
    then have "\<forall>q. port \<le> q \<and> q \<le> maxAPIServerPort cc \<longrightarrow> q \<in> set used"
      using ih by (metis add.commute less_le zless_imp_add1_zle)
    with ih show ?thesis by simp
  next
    case False
    then show ?thesis
      using "1.prems" by (auto simp: scanPorts.simps [of cc used port] isIn_iff split: if_splits)
  qed
qed

lemma takenNodePorts_eq: "takenNodePorts cc = set (collectServices (serviceStoreList cc) [])"
  by (simp add: takenNodePorts_def set_collectServices)

text \<open>
  C2. \<^verbatim>\<open>GetFreeNodePort\<close> returns the smallest port of the configured range
  that is not a non-zero node port of a port entry of a service in the cache, whenever
  there is one; when every port of the range is taken it returns the port 0 together with
  the error \<^verbatim>\<open>no free NodePort available within the given range\<close>.
\<close>

theorem GetFreeNodePort_smallest_free:
  "((\<exists>p. minAPIServerPort cc \<le> p \<and> p \<le> maxAPIServerPort cc \<and> p \<notin> takenNodePorts cc) \<longrightarrow>
      (\<exists>p. fst (GetFreeNodePort cc cs) = (p, None) \<and>
           minAPIServerPort cc \<le> p \<and> p \<le> maxAPIServerPort cc \<and> p \<notin> takenNodePorts cc \<and>
           (\<forall>q. minAPIServerPort cc \<le> q \<and> q < p \<longrightarrow> q \<in> takenNodePorts cc))) \<and>
   ((\<forall>p. minAPIServerPort cc \<le> p \<and> p \<le> maxAPIServerPort cc \<longrightarrow> p \<in> takenNodePorts cc) \<longrightarrow>
      fst (GetFreeNodePort cc cs) =
        (0, Some (Errorf ''no free NodePort available within the given range %d-%d''
                    [ArgInt (minAPIServerPort cc), ArgInt (maxAPIServerPort cc)])))"
proof -
  let ?used = "collectServices (serviceStoreList cc) []"
  let ?r = "scanPorts cc ?used (minAPIServerPort cc)"
  have r: "fst (GetFreeNodePort cc cs) = ?r"
    by (simp add: GetFreeNodePort_def Let_def)
  have taken: "takenNodePorts cc = set ?used"
    by (rule takenNodePorts_eq)
  obtain p e where pe: "?r = (p, e)" by (cases ?r)
  show ?thesis
  proof (cases e)
    case None
    with pe scanPorts_free [of cc ?used "minAPIServerPort cc" p]
    have "minAPIServerPort cc \<le> p \<and> p \<le> maxAPIServerPort cc \<and> p \<notin> set ?used \<and>
          (\<forall>q. minAPIServerPort cc \<le> q \<and> q < p \<longrightarrow> q \<in> set ?used)"
      by simp
    with pe None r taken show ?thesis by auto
  next
    case (Some e')
    with pe scanPorts_exhausted [of cc ?used "minAPIServerPort cc" p e']
    have "p = 0 \<and> e' = noFreeNodePort cc \<and>
          (\<forall>q. minAPIServerPort cc \<le> q \<and> q \<le> maxAPIServerPort cc \<longrightarrow> q \<in> set ?used)"
      by simp
    with pe Some r taken show ?thesis by (auto simp: noFreeNodePort_def)
  qed
qed

lemma demo_taken: "takenNodePorts demoController = {30000, 30001}"
  by (auto simp: takenNodePorts_eq demoController_def)

theorem GetFreeNodePort_smallest_free_witness:
  "(\<exists>p. minAPIServerPort demoController \<le> p \<and> p \<le> maxAPIServerPort demoController \<and>
        p \<notin> takenNodePorts demoController) \<and>
   fst (GetFreeNodePort demoController []) = (30002, None)"
proof -
  have free: "\<exists>p. minAPIServerPort demoController \<le> p \<and> p \<le> maxAPIServerPort demoController \<and>
        p \<notin> takenNodePorts demoController"
    by (rule exI [of _ 30002]) (simp add: demo_taken, simp add: demoController_def)
  from GetFreeNodePort_smallest_free [of demoController "[]"] free
  obtain p where p: "fst (GetFreeNodePort demoController []) = (p, None)"
    "minAPIServerPort demoController \<le> p" "p \<notin> takenNodePorts demoController"
    "\<forall>q. minAPIServerPort demoController \<le> q \<and> q < p \<longrightarrow> q \<in> takenNodePorts demoController"
    by blast
  have lo: "minAPIServerPort demoController = 30000"
    by (simp add: demoController_def)
  have "p = 30002"
  proof -
    have a: "30000 \<le> p" using p(2) lo by simp
    have b: "p \<noteq> 30000 \<and> p \<noteq> 30001" using p(3) by (auto simp: demo_taken)
    have c: "\<not> 30002 < p"
      using p(4) [rule_format, of 30002] lo by (auto simp: demo_taken)
    from a b c show ?thesis by arith
  qed
  with p(1) free show ?thesis by simp
qed

lemma natDigits_87600: "natDigits 87600 = ''87600''"
  by (simp add: natDigits.simps [of 87600] natDigits.simps [of 8760] natDigits.simps [of 876]
      natDigits.simps [of 87] natDigits.simps [of 8] digitChar_def)

lemma itoa_expiry: "itoa 87600 = ''87600''"
  by (simp add: itoa_def natDigits_87600)

lemma natDigits_30002: "natDigits 30002 = ''30002''"
  by (simp add: natDigits.simps [of 30002] natDigits.simps [of 3000] natDigits.simps [of 300]
      natDigits.simps [of 30] natDigits.simps [of 3] digitChar_def)

lemma itoa_30002: "itoa 30002 = ''30002''"
  by (simp add: itoa_def natDigits_30002)

lemma rootCAReq_eq:
  "rootCAReq cc c =
     \<lparr>CN = ''root-ca.'' @ Name (Metadata c) @ ''.'' @ dc cc @ ''.'' @ externalURL cc,
      KeyRequest = \<lparr>KeyA = ''rsa'', KeyS = 2048\<rparr>,
      CA = \<lparr>Expiry = ''87600h''\<rparr>\<rparr>"
  by (simp add: rootCAReq_def itoa_expiry)

text \<open>
  C4. \<^verbatim>\<open>pendingCreateRootCA\<close> returns \<^verbatim>\<open>(nil, nil)\<close> and changes nothing when
  the cluster already has a root CA key. Otherwise it hands \<^verbatim>\<open>initca.New\<close> a
  request for an RSA key of size 2048 with the common name
  \<^verbatim>\<open>root-ca.<name>.<dc>.<external-url>\<close> and the expiry \<^verbatim>\<open>87600h\<close>
  (24 * 365 * 10 hours), and stores the certificate and the key it gets in
  \<^verbatim>\<open>Status.RootCA\<close>; it returns the cluster when the library reports no error, and
  nil with the wrapped error when it does. It makes no call to a cache or to the client.
\<close>

theorem pendingCreateRootCA_mints_once:
  "(Key (RootCA (Status c)) \<noteq> None \<longrightarrow>
      pendingCreateRootCA cc ex c cs = \<lparr>obj = c, changedC = False, err = None, calls = cs\<rparr>) \<and>
   (Key (RootCA (Status c)) = None \<longrightarrow>
      (\<forall>cert key e.
         initcaNew ex
           \<lparr>CN = ''root-ca.'' @ Name (Metadata c) @ ''.'' @ dc cc @ ''.'' @ externalURL cc,
            KeyRequest = \<lparr>KeyA = ''rsa'', KeyS = 2048\<rparr>,
            CA = \<lparr>Expiry = ''87600h''\<rparr>\<rparr> = (cert, key, e) \<longrightarrow>
         obj (pendingCreateRootCA cc ex c cs) =
           c\<lparr>Status := (Status c)\<lparr>RootCA := \<lparr>Key = key, Cert = cert\<rparr>\<rparr>\<rparr> \<and>
         calls (pendingCreateRootCA cc ex c cs) = cs \<and>
         (e = None \<longrightarrow>
            changedC (pendingCreateRootCA cc ex c cs) \<and> err (pendingCreateRootCA cc ex c cs) = None) \<and>
         (\<forall>e'. e = Some e' \<longrightarrow>
            \<not> changedC (pendingCreateRootCA cc ex c cs) \<and>
            err (pendingCreateRootCA cc ex c cs) =
              Some (Errorf ''failed to create root-ca: %v'' [ArgErr e']))))"
  by (auto simp: pendingCreateRootCA_def rootCAReq_eq returnNil_def returnErr_def returnC_def Let_def
      split: option.splits)

theorem pendingCreateRootCA_mints_once_witness:
  "(Key (RootCA (Status demoClusterWithCA)) \<noteq> None \<and>
    pendingCreateRootCA demoController demoCollaborators demoClusterWithCA [] =
      \<lparr>obj = demoClusterWithCA, changedC = False, err = None, calls = []\<rparr>) \<and>
   (Key (RootCA (Status demoCluster)) = None \<and>
    initcaNew demoCollaborators
      \<lparr>CN = ''root-ca.c1.eu1.example.com'', KeyRequest = \<lparr>KeyA = ''rsa'', KeyS = 2048\<rparr>,
       CA = \<lparr>Expiry = ''87600h''\<rparr>\<rparr> = (Some [67, 69, 82, 84], Some [75, 69, 89], None) \<and>
    obj (pendingCreateRootCA demoController demoCollaborators demoCluster []) = demoClusterWithCA \<and>
    changedC (pendingCreateRootCA demoController demoCollaborators demoCluster []) \<and>
    err (pendingCreateRootCA demoController demoCollaborators demoCluster []) = None)"
proof -
  have present: "Key (RootCA (Status demoClusterWithCA)) \<noteq> None"
    by (simp add: demoClusterWithCA_def)
  have absent: "Key (RootCA (Status demoCluster)) = None"
    by (simp add: demoCluster_def)
  have name: "Name (Metadata demoCluster) = ''c1''" "dc demoController = ''eu1''"
    "externalURL demoController = ''example.com''"
    by (simp_all add: demoCluster_def demoController_def)
  have new: "initcaNew demoCollaborators
      \<lparr>CN = ''root-ca.c1.eu1.example.com'', KeyRequest = \<lparr>KeyA = ''rsa'', KeyS = 2048\<rparr>,
       CA = \<lparr>Expiry = ''87600h''\<rparr>\<rparr> = (Some [67, 69, 82, 84], Some [75, 69, 89], None)"
    by (simp add: demoCollaborators_def)
  have upd: "demoCluster\<lparr>Status := (Status demoCluster)\<lparr>RootCA := \<lparr>Key = Some [75, 69, 89], Cert = Some [67, 69, 82, 84]\<rparr>\<rparr>\<rparr>
               = demoClusterWithCA"
    by (simp add: demoClusterWithCA_def)
  note thm1 = pendingCreateRootCA_mints_once [of demoClusterWithCA demoController demoCollaborators "[]"]
  note thm2 = pendingCreateRootCA_mints_once [of demoCluster demoController demoCollaborators "[]"]
  from thm1 present
  have a: "pendingCreateRootCA demoController demoCollaborators demoClusterWithCA [] =
      \<lparr>obj = demoClusterWithCA, changedC = False, err = None, calls = []\<rparr>"
    by blast
  from thm2 absent new
  have b: "obj (pendingCreateRootCA demoController demoCollaborators demoCluster []) =
             demoCluster\<lparr>Status := (Status demoCluster)\<lparr>RootCA := \<lparr>Key = Some [75, 69, 89], Cert = Some [67, 69, 82, 84]\<rparr>\<rparr>\<rparr> \<and>
           changedC (pendingCreateRootCA demoController demoCollaborators demoCluster []) \<and>
           err (pendingCreateRootCA demoController demoCollaborators demoCluster []) = None"
    by (simp add: name)
  from a b present absent new upd show ?thesis by simp
qed

lemma demo_freePort: "fst (GetFreeNodePort demoController cs) = (30002, None)"
  by (simp add: GetFreeNodePort_def demoController_def scanPorts.simps [of _ _ 30000]
      scanPorts.simps [of _ _ 30001] scanPorts.simps [of _ _ 30002])

lemma demo_GetFreeNodePort: "GetFreeNodePort demoController cs = ((30002, None), cs @ [ServiceStoreList])"
  using demo_freePort [of cs] by (cases "GetFreeNodePort demoController cs") (simp add: GetFreeNodePort_def)

lemma demoController_sel:
  "serviceStore demoController k = Inr False"
  "secretStore demoController k = Inr False"
  "client demoController cs x = None"
  "dc demoController = ''eu1''"
  "externalURL demoController = ''example.com''"
  "masterResourcesPath demoController = ''/res''"
  by (simp_all add: demoController_def)

lemma fst_GetFreeNodePort: "fst (GetFreeNodePort cc cs) = fst (GetFreeNodePort cc [])"
  by (simp add: GetFreeNodePort_def)

lemma snd_GetFreeNodePort: "snd (GetFreeNodePort cc cs) = cs @ [ServiceStoreList]"
  by (simp add: GetFreeNodePort_def)

text \<open>
  C8. The public-service step writes \<^verbatim>\<open>Address.URL\<close> exactly when the
  \<^verbatim>\<open>apiserver\<close> service is not in the cache and a free port is found, and then the
  URL is \<^verbatim>\<open>https://<name>.<dc>.<external-url>:<port>\<close> with the port, in decimal, that
  the same step has stored in \<^verbatim>\<open>Address.ApiserverExternalPort\<close>; in every other case
  the URL is left as it was. In particular the URL has this form whenever the step
  returns the cluster.
\<close>

theorem publicService_URL_format:
  "let r = launchingCheckApiserverPublicService cc ld ex c cs;
       key = namespaceName ex (Name (Metadata c)) @ ''/apiserver'';
       url = (\<lambda>port. ''https://'' @ Name (Metadata c) @ ''.'' @ dc cc @ ''.'' @ externalURL cc @ '':''
                       @ itoa port)
   in (serviceStore cc key = Inr False \<and> snd (fst (GetFreeNodePort cc [])) = None \<longrightarrow>
         URL (Address (obj r)) = url (ApiserverExternalPort (Address (obj r))) \<and>
         ApiserverExternalPort (Address (obj r)) = fst (fst (GetFreeNodePort cc []))) \<and>
      (\<not> (serviceStore cc key = Inr False \<and> snd (fst (GetFreeNodePort cc [])) = None) \<longrightarrow>
         URL (Address (obj r)) = URL (Address c)) \<and>
      (changedC r \<longrightarrow> URL (Address (obj r)) = url (ApiserverExternalPort (Address (obj r))))"
proof -
  obtain port perr where free: "fst (GetFreeNodePort cc []) = (port, perr)"
    by (cases "fst (GetFreeNodePort cc [])")
  then have G: "\<And>cs'. GetFreeNodePort cc cs' = ((port, perr), cs' @ [ServiceStoreList])"
    by (metis fst_GetFreeNodePort snd_GetFreeNodePort prod.collapse)
  show ?thesis
    unfolding Let_def free
    by (cases "serviceStore cc (namespaceName ex (Name (Metadata c)) @ ''/apiserver'')")
      (auto simp: launchingCheckApiserverPublicService_def G publicURL_def returnNil_def
        returnErr_def returnC_def Let_def split: sum.splits option.splits bool.splits)
qed

theorem publicService_URL_format_witness:
  "serviceStore demoController (namespaceName demoCollaborators (Name (Metadata demoClusterWithCA)) @ ''/apiserver'')
     = Inr False \<and>
   fst (GetFreeNodePort demoController []) = (30002, None) \<and>
   changedC (launchingCheckApiserverPublicService demoController demoLoaders demoCollaborators demoClusterWithCA []) \<and>
   Address (obj (launchingCheckApiserverPublicService demoController demoLoaders demoCollaborators demoClusterWithCA []))
     = \<lparr>URL = ''https://c1.eu1.example.com:30002'', ApiserverExternalPort = 30002\<rparr>"
proof -
  let ?r = "launchingCheckApiserverPublicService demoController demoLoaders demoCollaborators demoClusterWithCA []"
  have miss: "serviceStore demoController
      (namespaceName demoCollaborators (Name (Metadata demoClusterWithCA)) @ ''/apiserver'') = Inr False"
    by (simp add: demoController_def)
  have free: "fst (GetFreeNodePort demoController []) = (30002, None)"
    by (rule demo_freePort)
  have names: "Name (Metadata demoClusterWithCA) = ''c1''" "dc demoController = ''eu1''"
    "externalURL demoController = ''example.com''"
    by (simp_all add: demoClusterWithCA_def demoCluster_def demoController_def)
  from publicService_URL_format [of demoController demoLoaders demoCollaborators demoClusterWithCA "[]"]
    miss free
  have "URL (Address (obj ?r)) = ''https://c1.eu1.example.com:'' @ itoa (ApiserverExternalPort (Address (obj ?r))) \<and>
        ApiserverExternalPort (Address (obj ?r)) = 30002"
    by (simp add: Let_def names)
  then have addr: "Address (obj ?r) = \<lparr>URL = ''https://c1.eu1.example.com:30002'', ApiserverExternalPort = 30002\<rparr>"
    by (cases "Address (obj ?r)") (simp add: itoa_30002)
  have ch: "changedC ?r"
    by (simp add: launchingCheckApiserverPublicService_def Let_def demo_GetFreeNodePort
        demoController_sel returnC_def demoLoaders_def)
  from miss free ch addr show ?thesis by simp
qed

lemma exhausted_GetFreeNodePort:
  "GetFreeNodePort exhaustedController cs =
     ((0, Some (Errorf ''no free NodePort available within the given range %d-%d''
                  [ArgInt 30000, ArgInt 30001])), cs @ [ServiceStoreList])"
  by (simp add: GetFreeNodePort_def exhaustedController_def demoController_def noFreeNodePort_def
      scanPorts.simps [of _ _ 30000] scanPorts.simps [of _ _ 30001] scanPorts.simps [of _ _ 30002])

lemma exhaustedController_sel:
  "serviceStore exhaustedController k = Inr False"
  "secretStore exhaustedController k = Inr True"
  by (simp_all add: exhaustedController_def demoController_def)

lemma allocatedCluster_sel:
  "Key (RootCA (Status allocatedCluster)) = Some [75, 69, 89]"
  "Address allocatedCluster = \<lparr>URL = ''https://c1.eu1.example.com:30001'', ApiserverExternalPort = 30001\<rparr>"
  by (simp_all add: allocatedCluster_def demoClusterWithCA_def demoCluster_def)

text \<open>
  C5. With the \<^verbatim>\<open>apiserver\<close> service missing from the cache and both ports of the
  range taken, the reconcile of a cluster that holds port 30001 returns the error
  \<^verbatim>\<open>no free NodePort\<close> and a nil cluster and asks for no service; the URL of the
  cluster is left as it was, but \<^verbatim>\<open>Address.ApiserverExternalPort\<close>, which was 30001,
  is 0 afterwards: the port returned along with the error is assigned to the field before
  the error is looked at.
\<close>

theorem exhaustion_overwrites_port:
  "serviceStore exhaustedController
     (namespaceName demoCollaborators (Name (Metadata allocatedCluster)) @ ''/apiserver'') = Inr False \<and>
   (\<forall>p. minAPIServerPort exhaustedController \<le> p \<and> p \<le> maxAPIServerPort exhaustedController
        \<longleftrightarrow> p \<in> takenNodePorts exhaustedController) \<and>
   err (syncPendingCluster exhaustedController demoLoaders demoCollaborators allocatedCluster []) =
     Some (Errorf ''no free NodePort available within the given range %d-%d''
             [ArgInt 30000, ArgInt 30001]) \<and>
   \<not> changedC (syncPendingCluster exhaustedController demoLoaders demoCollaborators allocatedCluster []) \<and>
   calls (syncPendingCluster exhaustedController demoLoaders demoCollaborators allocatedCluster []) =
     [SecretStoreGetByKey ''cluster-c1/token-users'', ServiceStoreGetByKey ''cluster-c1/apiserver'',
      ServiceStoreList] \<and>
   URL (Address (obj (syncPendingCluster exhaustedController demoLoaders demoCollaborators allocatedCluster [])))
     = URL (Address allocatedCluster) \<and>
   ApiserverExternalPort (Address allocatedCluster) = 30001 \<and>
   ApiserverExternalPort
     (Address (obj (syncPendingCluster exhaustedController demoLoaders demoCollaborators allocatedCluster [])))
     = 0"
proof -
  have taken: "takenNodePorts exhaustedController = {30000, 30001}"
    by (auto simp: takenNodePorts_eq exhaustedController_def demoController_def)
  have range: "\<forall>p. minAPIServerPort exhaustedController \<le> p \<and> p \<le> maxAPIServerPort exhaustedController
        \<longleftrightarrow> p \<in> takenNodePorts exhaustedController"
    unfolding taken by (auto simp: exhaustedController_def demoController_def)
  have ns: "namespaceName demoCollaborators (Name (Metadata allocatedCluster)) = ''cluster-c1''"
    by (simp add: demoCollaborators_def allocatedCluster_def demoClusterWithCA_def demoCluster_def)
  have to: "checkTimeout demoCollaborators allocatedCluster = (allocatedCluster, None)"
    by (simp add: demoCollaborators_def)
  have r1: "pendingCreateRootCA exhaustedController demoCollaborators allocatedCluster [] =
              returnNil allocatedCluster []"
    by (simp add: pendingCreateRootCA_def allocatedCluster_sel)
  have r2: "launchingCheckTokenUsers exhaustedController demoCollaborators allocatedCluster [] =
              returnNil allocatedCluster [SecretStoreGetByKey ''cluster-c1/token-users'']"
    by (simp add: launchingCheckTokenUsers_def Let_def ns exhaustedController_sel)
  have r3: "launchingCheckApiserverPublicService exhaustedController demoLoaders demoCollaborators
              allocatedCluster [SecretStoreGetByKey ''cluster-c1/token-users''] =
            returnErr (allocatedCluster\<lparr>Address := (Address allocatedCluster)\<lparr>ApiserverExternalPort := 0\<rparr>\<rparr>)
              (Errorf ''no free NodePort available within the given range %d-%d''
                 [ArgInt 30000, ArgInt 30001])
              [SecretStoreGetByKey ''cluster-c1/token-users'', ServiceStoreGetByKey ''cluster-c1/apiserver'',
               ServiceStoreList]"
    by (simp add: launchingCheckApiserverPublicService_def Let_def ns exhaustedController_sel
        exhausted_GetFreeNodePort)
  have r: "syncPendingCluster exhaustedController demoLoaders demoCollaborators allocatedCluster [] =
            returnErr (allocatedCluster\<lparr>Address := (Address allocatedCluster)\<lparr>ApiserverExternalPort := 0\<rparr>\<rparr>)
              (Errorf ''no free NodePort available within the given range %d-%d''
                 [ArgInt 30000, ArgInt 30001])
              [SecretStoreGetByKey ''cluster-c1/token-users'', ServiceStoreGetByKey ''cluster-c1/apiserver'',
               ServiceStoreList]"
    by (simp add: syncPendingCluster_def to r1 Let_def)
      (simp add: returnNil_def r2 [unfolded returnNil_def] r3 returnErr_def)
  show ?thesis
    using range by (simp add: r returnErr_def ns exhaustedController_sel allocatedCluster_sel)
qed

theorem exhaustion_overwrites_port_witness:
  "err (syncPendingCluster exhaustedController demoLoaders demoCollaborators allocatedCluster []) \<noteq> None \<and>
   ApiserverExternalPort
     (Address (obj (syncPendingCluster exhaustedController demoLoaders demoCollaborators allocatedCluster [])))
     \<noteq> ApiserverExternalPort (Address allocatedCluster)"
  using exhaustion_overwrites_port by simp

lemma launchingCheckDeploymentsLoop_obj:
  "obj (launchingCheckDeploymentsLoop cc ld c mv ns existingDeps deps cs) = c"
  by (induction deps arbitrary: cs)
    (auto simp: returnNil_def returnErr_def split: sum.splits option.splits if_splits)

lemma launchingCheckDeploymentsLoop_changedC:
  "\<not> changedC (launchingCheckDeploymentsLoop cc ld c mv ns existingDeps deps cs)"
  by (induction deps arbitrary: cs)
    (auto simp: returnNil_def returnErr_def split: sum.splits option.splits if_splits)

lemma MasterVersion_withDefaultVersion:
  "MasterVersion (Spec (withDefaultVersion cc c)) =
     (if MasterVersion (Spec c) = '''' then defaultMasterVersionID cc else MasterVersion (Spec c))"
  by (simp add: withDefaultVersion_def)

lemma withDefaultVersion_eq:
  "withDefaultVersion cc c =
     c\<lparr>Spec := (Spec c)\<lparr>MasterVersion :=
          (if MasterVersion (Spec c) = '''' then defaultMasterVersionID cc else MasterVersion (Spec c))\<rparr>\<rparr>"
  by (simp add: withDefaultVersion_def)

lemma withDefaultVersion_frame:
  "Metadata (withDefaultVersion cc c) = Metadata c"
  "Address (withDefaultVersion cc c) = Address c"
  "Status (withDefaultVersion cc c) = Status c"
  "Unnamed (withDefaultVersion cc c) = Unnamed c"
  by (simp_all add: withDefaultVersion_def)

lemma launchingCheckDeployments_version:
  "MasterVersion (Spec (obj (launchingCheckDeployments cc ld ex c cs))) =
     MasterVersion (Spec (withDefaultVersion cc c))"
  by (simp add: launchingCheckDeployments_def Let_def unknownVersion_def returnErr_def
      launchingCheckDeploymentsLoop_obj split: option.splits sum.splits)

lemma launchingCheckEtcdCluster_version:
  "MasterVersion (Spec (obj (launchingCheckEtcdCluster cc ld ex c cs))) =
     MasterVersion (Spec (withDefaultVersion cc c))"
  by (simp add: launchingCheckEtcdCluster_def Let_def unknownVersion_def returnErr_def returnNil_def
      returnC_def split: option.splits sum.splits bool.splits)

lemma unknownVersion_eq:
  "unknownVersion ex (withDefaultVersion cc c) cs =
     (let v = (if MasterVersion (Spec c) = '''' then defaultMasterVersionID cc else MasterVersion (Spec c))
      in \<lparr>obj = c\<lparr>Spec := (Spec c)\<lparr>MasterVersion := v\<rparr>,
                   Status := (Status c)\<lparr>LastTransitionTime := timeNow ex, Phase := Failed\<rparr>\<rparr>,
          changedC = True,
          err = Some (Errorf ''unknown new cluster %q master version %q''
                        [ArgStr (Name (Metadata c)), ArgStr v]),
          calls = cs @ [RecordClusterEvent ''launching''
                          ''Failed to create new cluster %q due to unknown master version %q''
                          [ArgStr (Name (Metadata c)), ArgStr v]]\<rparr>)"
  by (simp add: unknownVersion_def withDefaultVersion_def Let_def)

text \<open>
  C3. The deployment step and the etcd-cluster step both replace an empty
  \<^verbatim>\<open>Spec.MasterVersion\<close> by the configured default id, in the cluster itself and on
  every path. When the resulting id is not a key of the version registry, either step sets
  \<^verbatim>\<open>Status.LastTransitionTime\<close> to the current time and \<^verbatim>\<open>Status.Phase\<close> to
  \<open>Failed\<close>, records one event, and returns the cluster so changed together with the
  error \<^verbatim>\<open>unknown new cluster ... master version ...\<close>.
\<close>

theorem unknown_master_version_fails:
  "let v = (if MasterVersion (Spec c) = '''' then defaultMasterVersionID cc else MasterVersion (Spec c));
       failed =
         \<lparr>obj = c\<lparr>Spec := (Spec c)\<lparr>MasterVersion := v\<rparr>,
                  Status := (Status c)\<lparr>LastTransitionTime := timeNow ex, Phase := Failed\<rparr>\<rparr>,
          changedC = True,
          err = Some (Errorf ''unknown new cluster %q master version %q''
                        [ArgStr (Name (Metadata c)), ArgStr v]),
          calls = cs @ [RecordClusterEvent ''launching''
                          ''Failed to create new cluster %q due to unknown master version %q''
                          [ArgStr (Name (Metadata c)), ArgStr v]]\<rparr>
   in MasterVersion (Spec (obj (launchingCheckDeployments cc ld ex c cs))) = v \<and>
      MasterVersion (Spec (obj (launchingCheckEtcdCluster cc ld ex c cs))) = v \<and>
      (versions cc v = None \<longrightarrow>
         launchingCheckDeployments cc ld ex c cs = failed \<and>
         launchingCheckEtcdCluster cc ld ex c cs = failed)"
proof -
  let ?v = "if MasterVersion (Spec c) = '''' then defaultMasterVersionID cc else MasterVersion (Spec c)"
  have v: "MasterVersion (Spec (withDefaultVersion cc c)) = ?v"
    by (rule MasterVersion_withDefaultVersion)
  have dep: "launchingCheckDeployments cc ld ex c cs = unknownVersion ex (withDefaultVersion cc c) cs"
    if "versions cc ?v = None"
    using that v by (simp add: launchingCheckDeployments_def Let_def)
  have etcd: "launchingCheckEtcdCluster cc ld ex c cs = unknownVersion ex (withDefaultVersion cc c) cs"
    if "versions cc ?v = None"
    using that v by (simp add: launchingCheckEtcdCluster_def Let_def)
  show ?thesis
    using dep etcd launchingCheckDeployments_version [of cc ld ex c cs]
      launchingCheckEtcdCluster_version [of cc ld ex c cs] v
    by (simp add: Let_def unknownVersion_eq)
qed

theorem unknown_master_version_fails_witness:
  "MasterVersion (Spec unversionedCluster) = '''' \<and>
   versions unknownDefaultController (defaultMasterVersionID unknownDefaultController) = None \<and>
   launchingCheckDeployments unknownDefaultController demoLoaders demoCollaborators unversionedCluster [] =
     \<lparr>obj = unversionedCluster
              \<lparr>Spec := \<lparr>MasterVersion = ''v0'', Cloud = None\<rparr>,
               Status := (Status unversionedCluster)\<lparr>LastTransitionTime := 1000, Phase := Failed\<rparr>\<rparr>,
      changedC = True,
      err = Some (Errorf ''unknown new cluster %q master version %q'' [ArgStr ''c1'', ArgStr ''v0'']),
      calls = [RecordClusterEvent ''launching''
                 ''Failed to create new cluster %q due to unknown master version %q''
                 [ArgStr ''c1'', ArgStr ''v0'']]\<rparr> \<and>
   launchingCheckEtcdCluster unknownDefaultController demoLoaders demoCollaborators unversionedCluster [] =
     launchingCheckDeployments unknownDefaultController demoLoaders demoCollaborators unversionedCluster []"
proof -
  have empty: "MasterVersion (Spec unversionedCluster) = ''''"
    by (simp add: unversionedCluster_def)
  have dflt: "defaultMasterVersionID unknownDefaultController = ''v0''"
    by (simp add: unknownDefaultController_def)
  have unknown: "versions unknownDefaultController ''v0'' = None"
    by (simp add: unknownDefaultController_def demoController_def)
  have sel: "Name (Metadata unversionedCluster) = ''c1''" "timeNow demoCollaborators = 1000"
    "Spec unversionedCluster = \<lparr>MasterVersion = '''', Cloud = None\<rparr>"
    by (simp_all add: unversionedCluster_def demoCluster_def demoCollaborators_def)
  from unknown_master_version_fails
         [of unversionedCluster unknownDefaultController demoCollaborators "[]" demoLoaders]
    empty dflt unknown
  show ?thesis
    by (simp add: Let_def sel)
qed

text \<open>
  C7. The config-map step turns to a config map, and then to \<^verbatim>\<open>aws-cloud-config\<close>
  alone, exactly when \<^verbatim>\<open>Spec.Cloud\<close> and \<^verbatim>\<open>Spec.Cloud.AWS\<close> are both non-nil:
  for such a cluster its first call is the probe of \<^verbatim>\<open><namespace>/aws-cloud-config\<close>,
  and it asks the client to create the config map the loader produces unless the cache
  already holds the key or the probe or the loader fails. For every other cluster it
  makes no call at all and returns no error. No other config map is ever created.
\<close>

theorem configMaps_only_for_AWS:
  "let ns = namespaceName ex (Name (Metadata c));
       key = ns @ ''/aws-cloud-config'';
       aws = (\<exists>cloud spec. Cloud (Spec c) = Some cloud \<and> AWS cloud = Some spec);
       r = launchingCheckConfigMaps cc ld ex c cs
   in (aws \<longleftrightarrow> take (Suc (length cs)) (snd r) = cs @ [CmStoreGetByKey key]) \<and>
      (aws \<or> r = (None, cs)) \<and>
      (\<forall>n cm. ConfigMapsCreate n cm \<in> set (drop (length cs) (snd r)) \<longleftrightarrow>
                aws \<and> n = ns \<and> cmStore cc key = Inr False \<and> LoadAwsCloudConfigConfigMap ld c = Inr cm)"
proof (cases "Cloud (Spec c)")
  case None
  then show ?thesis
    by (simp add: launchingCheckConfigMaps_def configMapsFor_def Let_def)
next
  case (Some cloud)
  show ?thesis
  proof (cases "AWS cloud")
    case None
    with Some show ?thesis
      by (simp add: launchingCheckConfigMaps_def configMapsFor_def Let_def)
  next
    case (Some spec)
    with \<open>Cloud (Spec c) = Some cloud\<close> show ?thesis
      by (cases "cmStore cc (namespaceName ex (Name (Metadata c)) @ ''/aws-cloud-config'')")
        (auto simp: launchingCheckConfigMaps_def configMapsFor_def Let_def
          split: sum.splits option.splits bool.splits)
  qed
qed

theorem configMaps_only_for_AWS_witness:
  "(\<exists>cloud spec. Cloud (Spec demoCluster) = Some cloud \<and> AWS cloud = Some spec) \<and>
   cmStore demoController ''cluster-c1/aws-cloud-config'' = Inr False \<and>
   LoadAwsCloudConfigConfigMap demoLoaders demoCluster = Inr (ConfigMap ''aws-cloud-config'') \<and>
   take 1 (snd (launchingCheckConfigMaps demoController demoLoaders demoCollaborators demoCluster []))
     = [CmStoreGetByKey ''cluster-c1/aws-cloud-config''] \<and>
   ConfigMapsCreate ''cluster-c1'' (ConfigMap ''aws-cloud-config'')
     \<in> set (snd (launchingCheckConfigMaps demoController demoLoaders demoCollaborators demoCluster [])) \<and>
   \<not> (\<exists>cloud spec. Cloud (Spec unversionedCluster) = Some cloud \<and> AWS cloud = Some spec) \<and>
   launchingCheckConfigMaps demoController demoLoaders demoCollaborators unversionedCluster [] = (None, [])"
proof -
  have aws: "\<exists>cloud spec. Cloud (Spec demoCluster) = Some cloud \<and> AWS cloud = Some spec"
    by (simp add: demoCluster_def)
  have none: "\<not> (\<exists>cloud spec. Cloud (Spec unversionedCluster) = Some cloud \<and> AWS cloud = Some spec)"
    by (simp add: unversionedCluster_def)
  have ns: "namespaceName demoCollaborators (Name (Metadata demoCluster)) = ''cluster-c1''"
    by (simp add: demoCollaborators_def demoCluster_def)
  have miss: "cmStore demoController ''cluster-c1/aws-cloud-config'' = Inr False"
    by (simp add: demoController_def)
  have load: "LoadAwsCloudConfigConfigMap demoLoaders demoCluster = Inr (ConfigMap ''aws-cloud-config'')"
    by (simp add: demoLoaders_def)
  note t1 = configMaps_only_for_AWS [of demoCollaborators demoCluster demoController demoLoaders "[]"]
  note t2 = configMaps_only_for_AWS [of demoCollaborators unversionedCluster demoController demoLoaders "[]"]
  from t1 aws miss load
  have a: "take 1 (snd (launchingCheckConfigMaps demoController demoLoaders demoCollaborators demoCluster []))
             = [CmStoreGetByKey ''cluster-c1/aws-cloud-config''] \<and>
           ConfigMapsCreate ''cluster-c1'' (ConfigMap ''aws-cloud-config'')
             \<in> set (snd (launchingCheckConfigMaps demoController demoLoaders demoCollaborators demoCluster []))"
    by (simp add: Let_def ns)
  from t2 [unfolded Let_def] none
  have b: "launchingCheckConfigMaps demoController demoLoaders demoCollaborators unversionedCluster [] = (None, [])"
    by blast
  from aws none miss load a b show ?thesis by simp
qed

lemma rangeMap_subset: "(k, v) \<in> set (rangeMap order m) \<Longrightarrow> (k, v) \<in> set m"
  by (auto simp: rangeMap_def intro: map_of_SomeD [OF sym] split: option.splits)

lemma rangeMap_member:
  "k \<in> set order \<Longrightarrow> map_of m k = Some v \<Longrightarrow> (k, v) \<in> set (rangeMap order m)"
  by (auto simp: rangeMap_def intro!: bexI [of _ k])

lemma launchingCheckDefaultPlugin_calls:
  "snd (launchingCheckDefaultPlugin cc c ns (safe, name) cs) =
     cs @ [AddonStoreGetByKey (ns @ ''/addon-default-'' @ safe)] \<or>
   addonStore cc (ns @ ''/addon-default-'' @ safe) = Inr False \<and>
   snd (launchingCheckDefaultPlugin cc c ns (safe, name) cs) =
     cs @ [AddonStoreGetByKey (ns @ ''/addon-default-'' @ safe),
           ClusterAddonsCreate (''cluster-'' @ Name (Metadata c))
             \<lparr>AddonMetaName = ''addon-default-'' @ safe, AddonName = name,
              AddonPhase = PendingAddonStatusPhase\<rparr>]"
  by (auto simp: launchingCheckDefaultPlugin_def Let_def split: sum.splits option.splits bool.splits)

text \<open>What a call of the default-plugins step may be, given the calls around it.\<close>

lemma launchingCheckDefaultPluginsLoop_calls:
  "\<exists>new. snd (launchingCheckDefaultPluginsLoop cc c ns es cs) = cs @ new \<and>
     (\<forall>x \<in> set new. \<exists>safe name. (safe, name) \<in> set es \<and>
        (x = AddonStoreGetByKey (ns @ ''/addon-default-'' @ safe) \<or>
         x = ClusterAddonsCreate (''cluster-'' @ Name (Metadata c))
               \<lparr>AddonMetaName = ''addon-default-'' @ safe, AddonName = name,
                AddonPhase = PendingAddonStatusPhase\<rparr> \<and>
         addonStore cc (ns @ ''/addon-default-'' @ safe) = Inr False \<and>
         AddonStoreGetByKey (ns @ ''/addon-default-'' @ safe) \<in> set new))"
proof (induction es arbitrary: cs)
  case Nil
  then show ?case by simp
next
  case (Cons entry es)
  obtain safe name where entry: "entry = (safe, name)" by (cases entry)
  obtain e go cs1 where body: "launchingCheckDefaultPlugin cc c ns (safe, name) cs = ((e, go), cs1)"
    by (metis prod.collapse)
  let ?probe = "AddonStoreGetByKey (ns @ ''/addon-default-'' @ safe)"
  let ?create = "ClusterAddonsCreate (''cluster-'' @ Name (Metadata c))
             \<lparr>AddonMetaName = ''addon-default-'' @ safe, AddonName = name,
              AddonPhase = PendingAddonStatusPhase\<rparr>"
  from launchingCheckDefaultPlugin_calls [of cc c ns safe name cs] body
  have seg: "cs1 = cs @ [?probe] \<or>
             addonStore cc (ns @ ''/addon-default-'' @ safe) = Inr False \<and> cs1 = cs @ [?probe, ?create]"
    by simp
  from Cons.IH [of cs1] obtain new' where
    new': "snd (launchingCheckDefaultPluginsLoop cc c ns es cs1) = cs1 @ new'"
      "\<forall>x \<in> set new'. \<exists>safe name. (safe, name) \<in> set es \<and>
        (x = AddonStoreGetByKey (ns @ ''/addon-default-'' @ safe) \<or>
         x = ClusterAddonsCreate (''cluster-'' @ Name (Metadata c))
               \<lparr>AddonMetaName = ''addon-default-'' @ safe, AddonName = name,
                AddonPhase = PendingAddonStatusPhase\<rparr> \<and>
         addonStore cc (ns @ ''/addon-default-'' @ safe) = Inr False \<and>
         AddonStoreGetByKey (ns @ ''/addon-default-'' @ safe) \<in> set new')"
    by blast
  define tail where "tail = (if go then new' else [])"
  have res: "snd (launchingCheckDefaultPluginsLoop cc c ns (entry # es) cs) = cs1 @ tail"
    using body new'(1) by (simp add: entry tail_def)
  have tail: "set tail \<subseteq> set new'" by (auto simp: tail_def)
  from seg show ?case
  proof
    assume s: "cs1 = cs @ [?probe]"
    have "snd (launchingCheckDefaultPluginsLoop cc c ns (entry # es) cs) = cs @ (?probe # tail)"
      using res s by simp
    moreover have "\<forall>x \<in> set (?probe # tail). \<exists>safe name. (safe, name) \<in> set (entry # es) \<and>
        (x = AddonStoreGetByKey (ns @ ''/addon-default-'' @ safe) \<or>
         x = ClusterAddonsCreate (''cluster-'' @ Name (Metadata c))
               \<lparr>AddonMetaName = ''addon-default-'' @ safe, AddonName = name,
                AddonPhase = PendingAddonStatusPhase\<rparr> \<and>
         addonStore cc (ns @ ''/addon-default-'' @ safe) = Inr False \<and>
         AddonStoreGetByKey (ns @ ''/addon-default-'' @ safe) \<in> set (?probe # tail))"
    proof
      fix x assume "x \<in> set (?probe # tail)"
      then consider "x = ?probe" | "x \<in> set tail" by auto
      then show "\<exists>safe name. (safe, name) \<in> set (entry # es) \<and>
        (x = AddonStoreGetByKey (ns @ ''/addon-default-'' @ safe) \<or>
         x = ClusterAddonsCreate (''cluster-'' @ Name (Metadata c))
               \<lparr>AddonMetaName = ''addon-default-'' @ safe, AddonName = name,
                AddonPhase = PendingAddonStatusPhase\<rparr> \<and>
         addonStore cc (ns @ ''/addon-default-'' @ safe) = Inr False \<and>
         AddonStoreGetByKey (ns @ ''/addon-default-'' @ safe) \<in> set (?probe # tail))"
      proof cases
        case 1
        then show ?thesis using entry by auto
      next
        case 2
        then have "x \<in> set new'" using tail by auto
        with new'(2) obtain safe' name' where
          "(safe', name') \<in> set es"
          "x = AddonStoreGetByKey (ns @ ''/addon-default-'' @ safe') \<or>
           x = ClusterAddonsCreate (''cluster-'' @ Name (Metadata c))
               \<lparr>AddonMetaName = ''addon-default-'' @ safe', AddonName = name',
                AddonPhase = PendingAddonStatusPhase\<rparr> \<and>
           addonStore cc (ns @ ''/addon-default-'' @ safe') = Inr False \<and>
           AddonStoreGetByKey (ns @ ''/addon-default-'' @ safe') \<in> set new'"
          by blast
        moreover have "set new' \<subseteq> set (?probe # tail) \<or> tail = []"
          by (auto simp: tail_def)
        ultimately show ?thesis using 2 by (intro exI [of _ safe'] exI [of _ name']) auto
      qed
    qed
    ultimately show ?thesis by blast
  next
    assume s: "addonStore cc (ns @ ''/addon-default-'' @ safe) = Inr False \<and> cs1 = cs @ [?probe, ?create]"
    have "snd (launchingCheckDefaultPluginsLoop cc c ns (entry # es) cs) = cs @ (?probe # ?create # tail)"
      using res s by simp
    moreover have "\<forall>x \<in> set (?probe # ?create # tail). \<exists>safe name. (safe, name) \<in> set (entry # es) \<and>
        (x = AddonStoreGetByKey (ns @ ''/addon-default-'' @ safe) \<or>
         x = ClusterAddonsCreate (''cluster-'' @ Name (Metadata c))
               \<lparr>AddonMetaName = ''addon-default-'' @ safe, AddonName = name,
                AddonPhase = PendingAddonStatusPhase\<rparr> \<and>
         addonStore cc (ns @ ''/addon-default-'' @ safe) = Inr False \<and>
         AddonStoreGetByKey (ns @ ''/addon-default-'' @ safe) \<in> set (?probe # ?create # tail))"
    proof
      fix x assume "x \<in> set (?probe # ?create # tail)"
      then consider "x = ?probe" | "x = ?create" | "x \<in> set tail" by auto
      then show "\<exists>safe name. (safe, name) \<in> set (entry # es) \<and>
        (x = AddonStoreGetByKey (ns @ ''/addon-default-'' @ safe) \<or>
         x = ClusterAddonsCreate (''cluster-'' @ Name (Metadata c))
               \<lparr>AddonMetaName = ''addon-default-'' @ safe, AddonName = name,
                AddonPhase = PendingAddonStatusPhase\<rparr> \<and>
         addonStore cc (ns @ ''/addon-default-'' @ safe) = Inr False \<and>
         AddonStoreGetByKey (ns @ ''/addon-default-'' @ safe) \<in> set (?probe # ?create # tail))"
      proof cases
        case 1
        then show ?thesis using entry by auto
      next
        case 2
        then show ?thesis using entry s by (intro exI [of _ safe] exI [of _ name]) simp
      next
        case 3
        then have "x \<in> set new'" using tail by auto
        with new'(2) obtain safe' name' where
          "(safe', name') \<in> set es"
          "x = AddonStoreGetByKey (ns @ ''/addon-default-'' @ safe') \<or>
           x = ClusterAddonsCreate (''cluster-'' @ Name (Metadata c))
               \<lparr>AddonMetaName = ''addon-default-'' @ safe', AddonName = name',
                AddonPhase = PendingAddonStatusPhase\<rparr> \<and>
           addonStore cc (ns @ ''/addon-default-'' @ safe') = Inr False \<and>
           AddonStoreGetByKey (ns @ ''/addon-default-'' @ safe') \<in> set new'"
          by blast
        moreover have "set new' \<subseteq> set (?probe # ?create # tail) \<or> tail = []"
          by (auto simp: tail_def)
        ultimately show ?thesis using 3 by (intro exI [of _ safe'] exI [of _ name']) auto
      qed
    qed
    ultimately show ?thesis by blast
  qed
qed
lemma defaultPlugins_last:
  "(safe, name) \<in> set defaultPlugins \<Longrightarrow> (safe', name') \<in> set defaultPlugins \<Longrightarrow>
     last safe = last safe' \<Longrightarrow> safe = safe'"
  by (auto simp: defaultPlugins_def)

lemma defaultPlugins_nonempty: "(safe, name) \<in> set defaultPlugins \<Longrightarrow> safe \<noteq> []"
  by (auto simp: defaultPlugins_def)

lemma addon_keys_coincide:
  assumes "(safe, name) \<in> set defaultPlugins" and "(safe', name') \<in> set defaultPlugins"
  shows "ns @ ''/addon-default-'' @ safe = addonNs @ ''/addon-default-'' @ safe' \<longleftrightarrow>
           safe = safe' \<and> ns = addonNs"
proof
  assume eq: "ns @ ''/addon-default-'' @ safe = addonNs @ ''/addon-default-'' @ safe'"
  have ne: "safe \<noteq> []" "safe' \<noteq> []"
    using assms by (auto dest: defaultPlugins_nonempty)
  from eq have "last (ns @ ''/addon-default-'' @ safe) = last (addonNs @ ''/addon-default-'' @ safe')"
    by (rule arg_cong)
  then have "last safe = last safe'"
    using ne by (simp add: last_append)
  then have same: "safe = safe'" by (rule defaultPlugins_last [OF assms])
  with eq have "ns @ (''/addon-default-'' @ safe) = addonNs @ (''/addon-default-'' @ safe)" by simp
  then have "ns = addonNs" by (simp only: append_same_eq)
  with same show "safe = safe' \<and> ns = addonNs" by simp
next
  assume "safe = safe' \<and> ns = addonNs"
  then show "ns @ ''/addon-default-'' @ safe = addonNs @ ''/addon-default-'' @ safe'" by simp
qed

text \<open>
  The calls of the default-plugins step that are probes or creates, and when the key of
  a created add-on is a key that the step probes.
\<close>

lemma defaultPlugins_calls_and_keys:
  "let ns = namespaceName ex (Name (Metadata c));
       addonNs = ''cluster-'' @ Name (Metadata c);
       new = drop (length cs) (snd (launchingCheckDefaultPlugins cc ld ex c cs))
   in (\<forall>k. AddonStoreGetByKey k \<in> set new \<longrightarrow>
            (\<exists>safe name. (safe, name) \<in> set defaultPlugins \<and> k = ns @ ''/addon-default-'' @ safe)) \<and>
      (\<forall>n a. ClusterAddonsCreate n a \<in> set new \<longrightarrow>
            n = addonNs \<and>
            (\<exists>safe. (safe, AddonName a) \<in> set defaultPlugins \<and>
                    AddonMetaName a = ''addon-default-'' @ safe) \<and>
            AddonStoreGetByKey (ns @ ''/'' @ AddonMetaName a) \<in> set new \<and>
            addonStore cc (ns @ ''/'' @ AddonMetaName a) = Inr False) \<and>
      (\<forall>safe name safe' name'.
            (safe, name) \<in> set defaultPlugins \<and> (safe', name') \<in> set defaultPlugins \<longrightarrow>
            (ns @ ''/addon-default-'' @ safe = addonNs @ ''/addon-default-'' @ safe' \<longleftrightarrow>
               safe = safe' \<and> ns = addonNs))"
proof -
  let ?ns = "namespaceName ex (Name (Metadata c))"
  let ?es = "rangeMap (pluginsRange ex) defaultPlugins"
  from launchingCheckDefaultPluginsLoop_calls [of cc c ?ns ?es cs]
  obtain new where
    new: "snd (launchingCheckDefaultPluginsLoop cc c ?ns ?es cs) = cs @ new"
      "\<forall>x \<in> set new. \<exists>safe name. (safe, name) \<in> set ?es \<and>
        (x = AddonStoreGetByKey (?ns @ ''/addon-default-'' @ safe) \<or>
         x = ClusterAddonsCreate (''cluster-'' @ Name (Metadata c))
               \<lparr>AddonMetaName = ''addon-default-'' @ safe, AddonName = name,
                AddonPhase = PendingAddonStatusPhase\<rparr> \<and>
         addonStore cc (?ns @ ''/addon-default-'' @ safe) = Inr False \<and>
         AddonStoreGetByKey (?ns @ ''/addon-default-'' @ safe) \<in> set new)"
    by blast
  have drop: "drop (length cs) (snd (launchingCheckDefaultPlugins cc ld ex c cs)) = new"
    using new(1) by (simp add: launchingCheckDefaultPlugins_def)
  have probes: "\<exists>safe name. (safe, name) \<in> set defaultPlugins \<and> k = ?ns @ ''/addon-default-'' @ safe"
    if "AddonStoreGetByKey k \<in> set new" for k
  proof -
    from new(2) that obtain safe name where
      sn: "(safe, name) \<in> set ?es" "k = ?ns @ ''/addon-default-'' @ safe"
      by fastforce
    from sn(1) have "(safe, name) \<in> set defaultPlugins" by (rule rangeMap_subset)
    with sn(2) show ?thesis by blast
  qed
  have creates: "n = ''cluster-'' @ Name (Metadata c) \<and>
            (\<exists>safe. (safe, AddonName a) \<in> set defaultPlugins \<and>
                    AddonMetaName a = ''addon-default-'' @ safe) \<and>
            AddonStoreGetByKey (?ns @ ''/'' @ AddonMetaName a) \<in> set new \<and>
            addonStore cc (?ns @ ''/'' @ AddonMetaName a) = Inr False"
    if "ClusterAddonsCreate n a \<in> set new" for n a
  proof -
    from new(2) that obtain safe name where
      sn: "(safe, name) \<in> set ?es"
        "ClusterAddonsCreate n a = ClusterAddonsCreate (''cluster-'' @ Name (Metadata c))
               \<lparr>AddonMetaName = ''addon-default-'' @ safe, AddonName = name,
                AddonPhase = PendingAddonStatusPhase\<rparr>"
        "addonStore cc (?ns @ ''/addon-default-'' @ safe) = Inr False"
        "AddonStoreGetByKey (?ns @ ''/addon-default-'' @ safe) \<in> set new"
      by fastforce
    from sn(1) have "(safe, name) \<in> set defaultPlugins" by (rule rangeMap_subset)
    with sn(2-4) show ?thesis by auto
  qed
  show ?thesis
    unfolding Let_def drop
  proof (intro conjI allI impI)
    fix k assume "AddonStoreGetByKey k \<in> set new"
    then show "\<exists>safe name. (safe, name) \<in> set defaultPlugins \<and> k = ?ns @ ''/addon-default-'' @ safe"
      by (rule probes)
  next
    fix n a assume m: "ClusterAddonsCreate n a \<in> set new"
    from creates [OF m] show "n = ''cluster-'' @ Name (Metadata c)" by simp
    from creates [OF m] show "\<exists>safe. (safe, AddonName a) \<in> set defaultPlugins \<and>
                    AddonMetaName a = ''addon-default-'' @ safe" by simp
    from creates [OF m] show "AddonStoreGetByKey (?ns @ ''/'' @ AddonMetaName a) \<in> set new" by simp
    from creates [OF m] show "addonStore cc (?ns @ ''/'' @ AddonMetaName a) = Inr False" by simp
  next
    fix safe name safe' name'
    assume "(safe, name) \<in> set defaultPlugins \<and> (safe', name') \<in> set defaultPlugins"
    then show "(?ns @ ''/addon-default-'' @ safe = (''cluster-'' @ Name (Metadata c)) @ ''/addon-default-'' @ safe')
                 = (safe = safe' \<and> ?ns = ''cluster-'' @ Name (Metadata c))"
      using addon_keys_coincide by blast
  qed
qed
lemma launchingCheckDefaultPlugin_go:
  assumes "launchingCheckDefaultPlugin cc c ns (safe, name) cs = ((e, go), cs1)"
  shows "if go
         then e = None \<and>
              cs1 = cs @ AddonStoreGetByKey (ns @ ''/addon-default-'' @ safe) #
                      (if addonStore cc (ns @ ''/addon-default-'' @ safe) = Inr False
                       then [ClusterAddonsCreate (''cluster-'' @ Name (Metadata c))
                               \<lparr>AddonMetaName = ''addon-default-'' @ safe, AddonName = name,
                                AddonPhase = PendingAddonStatusPhase\<rparr>]
                       else [])
         else e \<noteq> None"
  using assms
  by (auto simp: launchingCheckDefaultPlugin_def Let_def split: sum.splits option.splits bool.splits)

text \<open>The calls of a range over add-ons that ends without an error.\<close>

lemma launchingCheckDefaultPluginsLoop_done:
  "fst (launchingCheckDefaultPluginsLoop cc c ns es cs) = None \<Longrightarrow>
     snd (launchingCheckDefaultPluginsLoop cc c ns es cs) =
       cs @ concat (map (\<lambda>(safe, name).
              AddonStoreGetByKey (ns @ ''/addon-default-'' @ safe) #
                (if addonStore cc (ns @ ''/addon-default-'' @ safe) = Inr False
                 then [ClusterAddonsCreate (''cluster-'' @ Name (Metadata c))
                         \<lparr>AddonMetaName = ''addon-default-'' @ safe, AddonName = name,
                          AddonPhase = PendingAddonStatusPhase\<rparr>]
                 else [])) es)"
proof (induction es arbitrary: cs)
  case Nil
  then show ?case by simp
next
  case (Cons entry es)
  obtain safe name where entry: "entry = (safe, name)" by (cases entry)
  obtain e go cs1 where body: "launchingCheckDefaultPlugin cc c ns (safe, name) cs = ((e, go), cs1)"
    by (metis prod.collapse)
  note go = launchingCheckDefaultPlugin_go [OF body]
  show ?case
  proof (cases go)
    case False
    with go body entry Cons.prems show ?thesis by simp
  next
    case True
    with body entry have loop: "launchingCheckDefaultPluginsLoop cc c ns (entry # es) cs =
        launchingCheckDefaultPluginsLoop cc c ns es cs1"
      by simp
    with Cons.prems have "fst (launchingCheckDefaultPluginsLoop cc c ns es cs1) = None" by simp
    from Cons.IH [OF this] loop go True show ?thesis
      by (simp add: entry)
  qed
qed

lemma launchingCheckDefaultPluginsLoop_succeeds:
  assumes "\<forall>k. \<exists>b. addonStore cc k = Inr b" and "\<forall>h x. client cc h x = None"
  shows "fst (launchingCheckDefaultPluginsLoop cc c ns es cs) = None"
proof (induction es arbitrary: cs)
  case Nil
  then show ?case by simp
next
  case (Cons entry es)
  obtain safe name where entry: "entry = (safe, name)" by (cases entry)
  obtain b where b: "addonStore cc (ns @ ''/addon-default-'' @ safe) = Inr b"
    using assms(1) by blast
  obtain cs1 where "launchingCheckDefaultPlugin cc c ns (safe, name) cs = ((None, True), cs1)"
    using b assms(2) by (cases b) (simp_all add: launchingCheckDefaultPlugin_def Let_def)
  with Cons.IH [of cs1] show ?case by (simp add: entry)
qed

lemma defaultPlugins_map_of:
  "(safe, name) \<in> set defaultPlugins \<Longrightarrow> map_of defaultPlugins safe = Some name"
  by (auto simp: defaultPlugins_def)

lemma defaultPlugins_calls:
  "let ns = namespaceName ex (Name (Metadata c));
       addonNs = ''cluster-'' @ Name (Metadata c);
       new = drop (length cs) (snd (launchingCheckDefaultPlugins cc ld ex c cs))
   in (\<forall>k. AddonStoreGetByKey k \<in> set new \<longrightarrow>
            (\<exists>safe name. (safe, name) \<in> set defaultPlugins \<and> k = ns @ ''/addon-default-'' @ safe)) \<and>
      (\<forall>n a. ClusterAddonsCreate n a \<in> set new \<longrightarrow>
            n = addonNs \<and>
            (\<exists>safe. (safe, AddonName a) \<in> set defaultPlugins \<and>
                    AddonMetaName a = ''addon-default-'' @ safe) \<and>
            AddonStoreGetByKey (ns @ ''/'' @ AddonMetaName a) \<in> set new \<and>
            addonStore cc (ns @ ''/'' @ AddonMetaName a) = Inr False)"
  using defaultPlugins_calls_and_keys [of ex c cs cc ld] unfolding Let_def by (elim conjE) (intro conjI)

lemma defaultPlugins_retry:
  fixes cc cc2 :: clusterController and ld :: loaders and ex :: collaborators and c :: cluster
    and cs cs2 :: "call list"
  defines "ns \<equiv> namespaceName ex (Name (Metadata c))"
    and "addonNs \<equiv> ''cluster-'' @ Name (Metadata c)"
  defines "new \<equiv> drop (length cs) (snd (launchingCheckDefaultPlugins cc ld ex c cs))"
    and "new2 \<equiv> drop (length cs2) (snd (launchingCheckDefaultPlugins cc2 ld ex c cs2))"
  assumes cache: "\<forall>k. addonStore cc2 k =
                       Inr (\<exists>a. ClusterAddonsCreate addonNs a \<in> set new \<and> k = addonNs @ ''/'' @ AddonMetaName a)"
  shows "(ns \<noteq> addonNs \<longrightarrow> (\<forall>k. AddonStoreGetByKey k \<in> set new2 \<longrightarrow> addonStore cc2 k = Inr False)) \<and>
         (ns = addonNs \<longrightarrow>
            (\<forall>a. ClusterAddonsCreate addonNs a \<in> set new \<longrightarrow> ClusterAddonsCreate addonNs a \<notin> set new2))"
proof (intro conjI impI allI)
  fix k
  assume differ: "ns \<noteq> addonNs" and probe: "AddonStoreGetByKey k \<in> set new2"
  from defaultPlugins_calls [of ex c cs2 cc2 ld] probe
  obtain safe name where k: "(safe, name) \<in> set defaultPlugins" "k = ns @ ''/addon-default-'' @ safe"
    unfolding Let_def new2_def ns_def by blast
  have "\<not> (\<exists>a. ClusterAddonsCreate addonNs a \<in> set new \<and> k = addonNs @ ''/'' @ AddonMetaName a)"
  proof
    assume "\<exists>a. ClusterAddonsCreate addonNs a \<in> set new \<and> k = addonNs @ ''/'' @ AddonMetaName a"
    then obtain a where a: "ClusterAddonsCreate addonNs a \<in> set new" "k = addonNs @ ''/'' @ AddonMetaName a"
      by blast
    from defaultPlugins_calls [of ex c cs cc ld] a(1)
    obtain safe' where s': "(safe', AddonName a) \<in> set defaultPlugins"
      "AddonMetaName a = ''addon-default-'' @ safe'"
      unfolding Let_def new_def addonNs_def by blast
    from k(2) a(2) s'(2)
    have "ns @ ''/addon-default-'' @ safe = addonNs @ ''/addon-default-'' @ safe'" by simp
    with addon_keys_coincide [OF k(1) s'(1), of ns addonNs] differ show False by simp
  qed
  with cache show "addonStore cc2 k = Inr False" by simp
next
  fix a
  assume same: "ns = addonNs" and first: "ClusterAddonsCreate addonNs a \<in> set new"
  show "ClusterAddonsCreate addonNs a \<notin> set new2"
  proof
    assume "ClusterAddonsCreate addonNs a \<in> set new2"
    with defaultPlugins_calls [of ex c cs2 cc2 ld]
    have "addonStore cc2 (ns @ ''/'' @ AddonMetaName a) = Inr False"
      unfolding Let_def new2_def ns_def by blast
    moreover from cache first same
    have "addonStore cc2 (ns @ ''/'' @ AddonMetaName a) = Inr True" by auto
    ultimately show False by simp
  qed
qed

text \<open>
  C10. In the default-plugins step every probe of the add-on cache is for a key
  \<^verbatim>\<open><namespaceName(name)>/addon-default-<safe-name>\<close> of an entry of the map of
  default plug-ins, and every create is issued against the namespace
  \<^verbatim>\<open>cluster-<name>\<close>, for the add-on \<^verbatim>\<open>addon-default-<safe-name>\<close> of an entry whose
  key the step has probed and found missing. The key under which a created add-on lies
  in its own namespace, \<^verbatim>\<open>cluster-<name>/addon-default-<safe-name>\<close>, is a key the step
  probes for an add-on only when it is the same add-on and
  \<^verbatim>\<open>namespaceName(name)\<close> is \<^verbatim>\<open>cluster-<name>\<close>.
  The step returns no error when every lookup answers and the client accepts every
  create. When it returns no error its calls are, for each add-on the range visits in
  turn, the probe of its key and, when the cache misses the key, its create: every
  default add-on that the range visits is probed, and created when it is missing.
  On a retry whose cache holds exactly the add-ons created before, under the keys of
  their own namespace: when the two namespaces differ every probe misses, so that every
  add-on is created again; when they coincide no add-on created before is created again.
\<close>

theorem defaultPlugins_probe_and_create:
  "let ns = namespaceName ex (Name (Metadata c));
       addonNs = ''cluster-'' @ Name (Metadata c);
       new = drop (length cs) (snd (launchingCheckDefaultPlugins cc ld ex c cs))
   in (\<forall>k. AddonStoreGetByKey k \<in> set new \<longrightarrow>
            (\<exists>safe name. (safe, name) \<in> set defaultPlugins \<and> k = ns @ ''/addon-default-'' @ safe)) \<and>
      (\<forall>n a. ClusterAddonsCreate n a \<in> set new \<longrightarrow>
            n = addonNs \<and>
            (\<exists>safe. (safe, AddonName a) \<in> set defaultPlugins \<and>
                    AddonMetaName a = ''addon-default-'' @ safe) \<and>
            AddonStoreGetByKey (ns @ ''/'' @ AddonMetaName a) \<in> set new \<and>
            addonStore cc (ns @ ''/'' @ AddonMetaName a) = Inr False) \<and>
      (\<forall>safe name safe' name'.
            (safe, name) \<in> set defaultPlugins \<and> (safe', name') \<in> set defaultPlugins \<longrightarrow>
            (ns @ ''/addon-default-'' @ safe = addonNs @ ''/addon-default-'' @ safe' \<longleftrightarrow>
               safe = safe' \<and> ns = addonNs)) \<and>
      ((\<forall>k. \<exists>b. addonStore cc k = Inr b) \<and> (\<forall>h x. client cc h x = None) \<longrightarrow>
         fst (launchingCheckDefaultPlugins cc ld ex c cs) = None) \<and>
      (fst (launchingCheckDefaultPlugins cc ld ex c cs) = None \<longrightarrow>
         new = concat (map (\<lambda>(safe, name).
                  AddonStoreGetByKey (ns @ ''/addon-default-'' @ safe) #
                    (if addonStore cc (ns @ ''/addon-default-'' @ safe) = Inr False
                     then [ClusterAddonsCreate addonNs
                             \<lparr>AddonMetaName = ''addon-default-'' @ safe, AddonName = name,
                              AddonPhase = PendingAddonStatusPhase\<rparr>]
                     else []))
                (rangeMap (pluginsRange ex) defaultPlugins))) \<and>
      (fst (launchingCheckDefaultPlugins cc ld ex c cs) = None \<longrightarrow>
         (\<forall>safe name. (safe, name) \<in> set defaultPlugins \<and> safe \<in> set (pluginsRange ex) \<longrightarrow>
            AddonStoreGetByKey (ns @ ''/addon-default-'' @ safe) \<in> set new \<and>
            (addonStore cc (ns @ ''/addon-default-'' @ safe) = Inr False \<longrightarrow>
               ClusterAddonsCreate addonNs
                 \<lparr>AddonMetaName = ''addon-default-'' @ safe, AddonName = name,
                  AddonPhase = PendingAddonStatusPhase\<rparr> \<in> set new))) \<and>
      (\<forall>cc2 cs2.
         (\<forall>k. addonStore cc2 k =
                 Inr (\<exists>a. ClusterAddonsCreate addonNs a \<in> set new \<and> k = addonNs @ ''/'' @ AddonMetaName a)) \<longrightarrow>
         (ns \<noteq> addonNs \<longrightarrow>
            (\<forall>k. AddonStoreGetByKey k
                    \<in> set (drop (length cs2) (snd (launchingCheckDefaultPlugins cc2 ld ex c cs2))) \<longrightarrow>
                 addonStore cc2 k = Inr False)) \<and>
         (ns = addonNs \<longrightarrow>
            (\<forall>a. ClusterAddonsCreate addonNs a \<in> set new \<longrightarrow>
                 ClusterAddonsCreate addonNs a
                   \<notin> set (drop (length cs2) (snd (launchingCheckDefaultPlugins cc2 ld ex c cs2))))))"
proof -
  let ?ns = "namespaceName ex (Name (Metadata c))"
  let ?addonNs = "''cluster-'' @ Name (Metadata c)"
  let ?r = "launchingCheckDefaultPlugins cc ld ex c cs"
  let ?new = "drop (length cs) (snd ?r)"
  let ?es = "rangeMap (pluginsRange ex) defaultPlugins"
  let ?seg = "\<lambda>(safe, name).
                  AddonStoreGetByKey (?ns @ ''/addon-default-'' @ safe) #
                    (if addonStore cc (?ns @ ''/addon-default-'' @ safe) = Inr False
                     then [ClusterAddonsCreate ?addonNs
                             \<lparr>AddonMetaName = ''addon-default-'' @ safe, AddonName = name,
                              AddonPhase = PendingAddonStatusPhase\<rparr>]
                     else [])"
  note old = defaultPlugins_calls_and_keys [of ex c cs cc ld, unfolded Let_def]
  note o1 = old [THEN conjunct1]
  note o2 = old [THEN conjunct2, THEN conjunct1]
  note o3 = old [THEN conjunct2, THEN conjunct2]
  have q0: "(\<forall>k. \<exists>b. addonStore cc k = Inr b) \<and> (\<forall>h x. client cc h x = None) \<longrightarrow> fst ?r = None"
    using launchingCheckDefaultPluginsLoop_succeeds [of cc c ?ns ?es cs]
    by (simp add: launchingCheckDefaultPlugins_def)
  have q1: "fst ?r = None \<longrightarrow> ?new = concat (map ?seg ?es)"
    using launchingCheckDefaultPluginsLoop_done [of cc c ?ns ?es cs]
    by (simp add: launchingCheckDefaultPlugins_def)
  have q2: "fst ?r = None \<longrightarrow>
         (\<forall>safe name. (safe, name) \<in> set defaultPlugins \<and> safe \<in> set (pluginsRange ex) \<longrightarrow>
            AddonStoreGetByKey (?ns @ ''/addon-default-'' @ safe) \<in> set ?new \<and>
            (addonStore cc (?ns @ ''/addon-default-'' @ safe) = Inr False \<longrightarrow>
               ClusterAddonsCreate ?addonNs
                 \<lparr>AddonMetaName = ''addon-default-'' @ safe, AddonName = name,
                  AddonPhase = PendingAddonStatusPhase\<rparr> \<in> set ?new))"
  proof (intro impI allI)
    fix safe name
    assume ok: "fst ?r = None"
      and entry: "(safe, name) \<in> set defaultPlugins \<and> safe \<in> set (pluginsRange ex)"
    from entry have "(safe, name) \<in> set ?es"
      by (intro rangeMap_member) (simp_all add: defaultPlugins_map_of)
    then have seg: "set (?seg (safe, name)) \<subseteq> set (concat (map ?seg ?es))"
      by force
    from q1 ok have new: "?new = concat (map ?seg ?es)" by simp
    show "AddonStoreGetByKey (?ns @ ''/addon-default-'' @ safe) \<in> set ?new \<and>
            (addonStore cc (?ns @ ''/addon-default-'' @ safe) = Inr False \<longrightarrow>
               ClusterAddonsCreate ?addonNs
                 \<lparr>AddonMetaName = ''addon-default-'' @ safe, AddonName = name,
                  AddonPhase = PendingAddonStatusPhase\<rparr> \<in> set ?new)"
      unfolding new using seg by auto
  qed
  have r: "\<forall>cc2 cs2.
         (\<forall>k. addonStore cc2 k =
                 Inr (\<exists>a. ClusterAddonsCreate ?addonNs a \<in> set ?new \<and> k = ?addonNs @ ''/'' @ AddonMetaName a)) \<longrightarrow>
         (?ns \<noteq> ?addonNs \<longrightarrow>
            (\<forall>k. AddonStoreGetByKey k
                    \<in> set (drop (length cs2) (snd (launchingCheckDefaultPlugins cc2 ld ex c cs2))) \<longrightarrow>
                 addonStore cc2 k = Inr False)) \<and>
         (?ns = ?addonNs \<longrightarrow>
            (\<forall>a. ClusterAddonsCreate ?addonNs a \<in> set ?new \<longrightarrow>
                 ClusterAddonsCreate ?addonNs a
                   \<notin> set (drop (length cs2) (snd (launchingCheckDefaultPlugins cc2 ld ex c cs2)))))"
    using defaultPlugins_retry [of _ c cs cc ld ex] by blast
  show ?thesis
    unfolding Let_def
    by (rule conjI [OF o1 conjI [OF o2 conjI [OF o3 conjI [OF q0 conjI [OF q1 conjI [OF q2 r]]]]]])
qed

lemma created_set:
  "ClusterAddonsCreate n a
      \<in> set (concat (map (\<lambda>(safe, name).
                  [AddonStoreGetByKey (p safe),
                   ClusterAddonsCreate n
                     \<lparr>AddonMetaName = ''addon-default-'' @ safe, AddonName = name,
                      AddonPhase = PendingAddonStatusPhase\<rparr>]) es)) \<longleftrightarrow>
   (\<exists>safe name. (safe, name) \<in> set es \<and>
        a = \<lparr>AddonMetaName = ''addon-default-'' @ safe, AddonName = name,
             AddonPhase = PendingAddonStatusPhase\<rparr>)"
  by (induction es) auto

lemma created_keys:
  "(\<exists>a. ClusterAddonsCreate n a
          \<in> set (concat (map (\<lambda>(safe, name).
                  [AddonStoreGetByKey (p safe),
                   ClusterAddonsCreate n
                     \<lparr>AddonMetaName = ''addon-default-'' @ safe, AddonName = name,
                      AddonPhase = PendingAddonStatusPhase\<rparr>]) es)) \<and>
        k = n @ ''/'' @ AddonMetaName a) =
   (k \<in> set (map (\<lambda>(safe, name). n @ ''/addon-default-'' @ safe) es))"
proof
  assume "\<exists>a. ClusterAddonsCreate n a
          \<in> set (concat (map (\<lambda>(safe, name).
                  [AddonStoreGetByKey (p safe),
                   ClusterAddonsCreate n
                     \<lparr>AddonMetaName = ''addon-default-'' @ safe, AddonName = name,
                      AddonPhase = PendingAddonStatusPhase\<rparr>]) es)) \<and>
        k = n @ ''/'' @ AddonMetaName a"
  then obtain a safe name where "(safe, name) \<in> set es"
    and "a = \<lparr>AddonMetaName = ''addon-default-'' @ safe, AddonName = name,
              AddonPhase = PendingAddonStatusPhase\<rparr>"
    and "k = n @ ''/'' @ AddonMetaName a"
    unfolding created_set by blast
  then have "(safe, name) \<in> set es" and "k = n @ ''/addon-default-'' @ safe"
    by simp_all
  then show "k \<in> set (map (\<lambda>(safe, name). n @ ''/addon-default-'' @ safe) es)"
    by force
next
  assume "k \<in> set (map (\<lambda>(safe, name). n @ ''/addon-default-'' @ safe) es)"
  then obtain safe name where entry: "(safe, name) \<in> set es"
    and k: "k = n @ ''/addon-default-'' @ safe"
    by auto
  let ?a = "\<lparr>AddonMetaName = ''addon-default-'' @ safe, AddonName = name,
              AddonPhase = PendingAddonStatusPhase\<rparr>"
  from entry have "ClusterAddonsCreate n ?a
          \<in> set (concat (map (\<lambda>(safe, name).
                  [AddonStoreGetByKey (p safe),
                   ClusterAddonsCreate n
                     \<lparr>AddonMetaName = ''addon-default-'' @ safe, AddonName = name,
                      AddonPhase = PendingAddonStatusPhase\<rparr>]) es))"
    unfolding created_set by blast
  moreover from k have "k = n @ ''/'' @ AddonMetaName ?a"
    by simp
  ultimately show "\<exists>a. ClusterAddonsCreate n a
          \<in> set (concat (map (\<lambda>(safe, name).
                  [AddonStoreGetByKey (p safe),
                   ClusterAddonsCreate n
                     \<lparr>AddonMetaName = ''addon-default-'' @ safe, AddonName = name,
                      AddonPhase = PendingAddonStatusPhase\<rparr>]) es)) \<and>
        k = n @ ''/'' @ AddonMetaName a"
    by blast
qed

theorem defaultPlugins_probe_and_create_witness:
  "AddonStoreGetByKey ''ns-c1/addon-default-heapster''
     \<in> set (snd (launchingCheckDefaultPlugins demoController demoLoaders otherNamespace demoCluster [])) \<and>
   ClusterAddonsCreate ''cluster-c1''
       \<lparr>AddonMetaName = ''addon-default-heapster'', AddonName = ''heapster'',
        AddonPhase = PendingAddonStatusPhase\<rparr>
     \<in> set (snd (launchingCheckDefaultPlugins demoController demoLoaders otherNamespace demoCluster [])) \<and>
   (''heapster'', ''heapster'') \<in> set defaultPlugins \<and>
   addonStore demoController ''ns-c1/addon-default-heapster'' = Inr False \<and>
   ''ns-c1/addon-default-heapster'' \<noteq> ''cluster-c1/addon-default-heapster'' \<and>
   ''heapster'' \<in> set (pluginsRange otherNamespace) \<and>
   fst (launchingCheckDefaultPlugins demoController demoLoaders otherNamespace demoCluster []) = None \<and>
   snd (launchingCheckDefaultPlugins demoController demoLoaders otherNamespace demoCluster []) =
     concat (map (\<lambda>(safe, name).
        [AddonStoreGetByKey (''ns-c1/addon-default-'' @ safe),
         ClusterAddonsCreate ''cluster-c1''
           \<lparr>AddonMetaName = ''addon-default-'' @ safe, AddonName = name,
            AddonPhase = PendingAddonStatusPhase\<rparr>]) defaultPlugins) \<and>
   addonStore retryController ''cluster-c1/addon-default-heapster'' = Inr True \<and>
   AddonStoreGetByKey ''ns-c1/addon-default-heapster''
     \<in> set (snd (launchingCheckDefaultPlugins retryController demoLoaders otherNamespace demoCluster [])) \<and>
   addonStore retryController ''ns-c1/addon-default-heapster'' = Inr False \<and>
   ClusterAddonsCreate ''cluster-c1''
       \<lparr>AddonMetaName = ''addon-default-heapster'', AddonName = ''heapster'',
        AddonPhase = PendingAddonStatusPhase\<rparr>
     \<in> set (snd (launchingCheckDefaultPlugins retryController demoLoaders otherNamespace demoCluster [])) \<and>
   ClusterAddonsCreate ''cluster-c1''
       \<lparr>AddonMetaName = ''addon-default-heapster'', AddonName = ''heapster'',
        AddonPhase = PendingAddonStatusPhase\<rparr>
     \<in> set (snd (launchingCheckDefaultPlugins demoController demoLoaders demoCollaborators demoCluster [])) \<and>
   ClusterAddonsCreate ''cluster-c1''
       \<lparr>AddonMetaName = ''addon-default-heapster'', AddonName = ''heapster'',
        AddonPhase = PendingAddonStatusPhase\<rparr>
     \<notin> set (snd (launchingCheckDefaultPlugins retryController demoLoaders demoCollaborators demoCluster []))"
proof -
  let ?addon = "\<lparr>AddonMetaName = ''addon-default-heapster'', AddonName = ''heapster'',
                 AddonPhase = PendingAddonStatusPhase\<rparr>"
  let ?c = "demoCluster"
  let ?name = "Name (Metadata demoCluster)"
  let ?first = "launchingCheckDefaultPlugins demoController demoLoaders otherNamespace demoCluster []"
  let ?again = "launchingCheckDefaultPlugins retryController demoLoaders otherNamespace demoCluster []"
  let ?own = "launchingCheckDefaultPlugins demoController demoLoaders demoCollaborators demoCluster []"
  let ?ownAgain = "launchingCheckDefaultPlugins retryController demoLoaders demoCollaborators demoCluster []"
  have sel: "\<And>n. namespaceName otherNamespace n = ''ns-'' @ n"
    "\<And>n. namespaceName demoCollaborators n = ''cluster-'' @ n"
    "pluginsRange otherNamespace =
       [''flannelcni'', ''heapster'', ''kubedns'', ''kubeproxy'', ''kubernetesdashboard'']"
    "pluginsRange demoCollaborators =
       [''flannelcni'', ''heapster'', ''kubedns'', ''kubeproxy'', ''kubernetesdashboard'']"
    by (simp_all add: otherNamespace_def demoCollaborators_def)
  have name: "Name (Metadata demoCluster) = ''c1''"
    by (simp add: demoCluster_def)
  have demo: "\<And>k. addonStore demoController k = Inr False"
    "\<And>h x. client demoController h x = None"
    by (simp_all add: demoController_def)
  have retry: "\<And>k. addonStore retryController k =
       Inr (k \<in> set (map (\<lambda>(safe, name). ''cluster-c1/addon-default-'' @ safe) defaultPlugins))"
    "\<And>h x. client retryController h x = None"
    by (simp_all add: retryController_def demoController_def)
  have es: "rangeMap [''flannelcni'', ''heapster'', ''kubedns'', ''kubeproxy'', ''kubernetesdashboard'']
              defaultPlugins = defaultPlugins"
    by (simp add: rangeMap_def defaultPlugins_def)
  have entry: "(''heapster'', ''heapster'') \<in> set defaultPlugins"
    by (simp add: defaultPlugins_def)
  have inRange: "''heapster'' \<in> set (pluginsRange otherNamespace)"
    by (simp add: sel)
  have inRange': "''heapster'' \<in> set (pluginsRange demoCollaborators)"
    by (simp add: sel)
  have differ: "''ns-c1/addon-default-heapster'' \<noteq> ''cluster-c1/addon-default-heapster''"
    by simp
  have cached: "addonStore retryController ''cluster-c1/addon-default-heapster'' = Inr True"
    by (simp add: retry defaultPlugins_def)
  have answers: "(\<forall>k. \<exists>b. addonStore demoController k = Inr b) \<and> (\<forall>h x. client demoController h x = None)"
    by (auto simp: demo)
  have answers': "(\<forall>k. \<exists>b. addonStore retryController k = Inr b) \<and> (\<forall>h x. client retryController h x = None)"
    by (auto simp: retry)

  note F = defaultPlugins_probe_and_create
    [where ex = otherNamespace and c = demoCluster and cs = "[]" and cc = demoController
       and ld = demoLoaders, unfolded Let_def]
  note A = defaultPlugins_probe_and_create
    [where ex = otherNamespace and c = demoCluster and cs = "[]" and cc = retryController
       and ld = demoLoaders, unfolded Let_def]
  note O = defaultPlugins_probe_and_create
    [where ex = demoCollaborators and c = demoCluster and cs = "[]" and cc = demoController
       and ld = demoLoaders, unfolded Let_def]

  have okF: "fst ?first = None"
    using F [THEN conjunct2, THEN conjunct2, THEN conjunct2, THEN conjunct1] answers by blast
  from F [THEN conjunct2, THEN conjunct2, THEN conjunct2, THEN conjunct2, THEN conjunct1] okF
  have "drop (length ([] :: call list)) (snd ?first) =
          concat (map (\<lambda>(safe, name).
                  AddonStoreGetByKey (namespaceName otherNamespace ?name @ ''/addon-default-'' @ safe) #
                    (if addonStore demoController (namespaceName otherNamespace ?name @ ''/addon-default-'' @ safe) = Inr False
                     then [ClusterAddonsCreate (''cluster-'' @ ?name)
                             \<lparr>AddonMetaName = ''addon-default-'' @ safe, AddonName = name,
                              AddonPhase = PendingAddonStatusPhase\<rparr>]
                     else []))
                (rangeMap (pluginsRange otherNamespace) defaultPlugins))"
    by blast
  then have callsF: "snd ?first =
     concat (map (\<lambda>(safe, name).
        [AddonStoreGetByKey (''ns-c1/addon-default-'' @ safe),
         ClusterAddonsCreate ''cluster-c1''
           \<lparr>AddonMetaName = ''addon-default-'' @ safe, AddonName = name,
            AddonPhase = PendingAddonStatusPhase\<rparr>]) defaultPlugins)"
    by (simp add: sel name demo es)
  from F [THEN conjunct2, THEN conjunct2, THEN conjunct2, THEN conjunct2, THEN conjunct2, THEN conjunct1]
    okF entry inRange
  have "AddonStoreGetByKey (namespaceName otherNamespace ?name @ ''/addon-default-'' @ ''heapster'')
          \<in> set (drop (length ([] :: call list)) (snd ?first)) \<and>
        (addonStore demoController (namespaceName otherNamespace ?name @ ''/addon-default-'' @ ''heapster'') = Inr False \<longrightarrow>
           ClusterAddonsCreate (''cluster-'' @ ?name)
             \<lparr>AddonMetaName = ''addon-default-'' @ ''heapster'', AddonName = ''heapster'',
              AddonPhase = PendingAddonStatusPhase\<rparr> \<in> set (drop (length ([] :: call list)) (snd ?first)))"
    by blast
  then have probeF: "AddonStoreGetByKey ''ns-c1/addon-default-heapster'' \<in> set (snd ?first)"
    and createF: "ClusterAddonsCreate ''cluster-c1'' ?addon \<in> set (snd ?first)"
    by (simp_all add: sel name demo)
  from createF have createF': "ClusterAddonsCreate (''cluster-'' @ ?name) ?addon
                                    \<in> set (drop (length ([] :: call list)) (snd ?first))"
    by (simp add: name)
  from F [THEN conjunct2, THEN conjunct1, THEN spec, THEN spec, THEN mp, OF createF']
  have "addonStore demoController (namespaceName otherNamespace ?name @ ''/'' @ AddonMetaName ?addon) = Inr False"
    by blast
  then have missF: "addonStore demoController ''ns-c1/addon-default-heapster'' = Inr False"
    by (simp add: sel name)

  have okA: "fst ?again = None"
    using A [THEN conjunct2, THEN conjunct2, THEN conjunct2, THEN conjunct1] answers' by blast
  have cacheF: "\<forall>k. addonStore retryController k =
       Inr (\<exists>a. ClusterAddonsCreate (''cluster-'' @ ?name) a \<in> set (drop (length ([] :: call list)) (snd ?first)) \<and>
                k = (''cluster-'' @ ?name) @ ''/'' @ AddonMetaName a)"
    using created_keys [of "''cluster-c1''" _ defaultPlugins] by (simp add: retry callsF name)
  have nsF: "namespaceName otherNamespace ?name \<noteq> ''cluster-'' @ ?name"
    by (simp add: sel name)
  from A [THEN conjunct2, THEN conjunct2, THEN conjunct2, THEN conjunct2, THEN conjunct2, THEN conjunct1]
    okA entry inRange
  have againInst: "AddonStoreGetByKey (namespaceName otherNamespace ?name @ ''/addon-default-'' @ ''heapster'')
          \<in> set (drop (length ([] :: call list)) (snd ?again)) \<and>
        (addonStore retryController (namespaceName otherNamespace ?name @ ''/addon-default-'' @ ''heapster'') = Inr False \<longrightarrow>
           ClusterAddonsCreate (''cluster-'' @ ?name)
             \<lparr>AddonMetaName = ''addon-default-'' @ ''heapster'', AddonName = ''heapster'',
              AddonPhase = PendingAddonStatusPhase\<rparr> \<in> set (drop (length ([] :: call list)) (snd ?again)))"
    by blast
  from F [THEN conjunct2, THEN conjunct2, THEN conjunct2, THEN conjunct2, THEN conjunct2, THEN conjunct2,
          THEN spec, THEN spec, THEN mp, OF cacheF, THEN conjunct1, THEN mp, OF nsF]
  have missAll: "\<forall>k. AddonStoreGetByKey k \<in> set (drop (length ([] :: call list)) (snd ?again)) \<longrightarrow>
                   addonStore retryController k = Inr False" .
  from missAll againInst
  have missInst: "addonStore retryController (namespaceName otherNamespace ?name @ ''/addon-default-'' @ ''heapster'') = Inr False"
    by blast
  from againInst missInst
  have probeA: "AddonStoreGetByKey ''ns-c1/addon-default-heapster'' \<in> set (snd ?again)"
    and createA: "ClusterAddonsCreate ''cluster-c1'' ?addon \<in> set (snd ?again)"
    by (simp_all add: sel name)
  from missInst have missA: "addonStore retryController ''ns-c1/addon-default-heapster'' = Inr False"
    by (simp add: sel name)

  have okO: "fst ?own = None"
    using O [THEN conjunct2, THEN conjunct2, THEN conjunct2, THEN conjunct1] answers by blast
  from O [THEN conjunct2, THEN conjunct2, THEN conjunct2, THEN conjunct2, THEN conjunct1] okO
  have "drop (length ([] :: call list)) (snd ?own) =
          concat (map (\<lambda>(safe, name).
                  AddonStoreGetByKey (namespaceName demoCollaborators ?name @ ''/addon-default-'' @ safe) #
                    (if addonStore demoController (namespaceName demoCollaborators ?name @ ''/addon-default-'' @ safe) = Inr False
                     then [ClusterAddonsCreate (''cluster-'' @ ?name)
                             \<lparr>AddonMetaName = ''addon-default-'' @ safe, AddonName = name,
                              AddonPhase = PendingAddonStatusPhase\<rparr>]
                     else []))
                (rangeMap (pluginsRange demoCollaborators) defaultPlugins))"
    by blast
  then have callsO: "snd ?own =
     concat (map (\<lambda>(safe, name).
        [AddonStoreGetByKey (''cluster-c1/addon-default-'' @ safe),
         ClusterAddonsCreate ''cluster-c1''
           \<lparr>AddonMetaName = ''addon-default-'' @ safe, AddonName = name,
            AddonPhase = PendingAddonStatusPhase\<rparr>]) defaultPlugins)"
    by (simp add: sel name demo es)
  have createO: "ClusterAddonsCreate ''cluster-c1'' ?addon \<in> set (snd ?own)"
    by (simp add: callsO defaultPlugins_def)
  then have createO': "ClusterAddonsCreate (''cluster-'' @ ?name) ?addon
                         \<in> set (drop (length ([] :: call list)) (snd ?own))"
    by (simp add: name)
  have cacheO: "\<forall>k. addonStore retryController k =
       Inr (\<exists>a. ClusterAddonsCreate (''cluster-'' @ ?name) a \<in> set (drop (length ([] :: call list)) (snd ?own)) \<and>
                k = (''cluster-'' @ ?name) @ ''/'' @ AddonMetaName a)"
    using created_keys [of "''cluster-c1''" _ defaultPlugins] by (simp add: retry callsO name)
  have nsO: "namespaceName demoCollaborators ?name = ''cluster-'' @ ?name"
    by (simp add: sel)
  from O [THEN conjunct2, THEN conjunct2, THEN conjunct2, THEN conjunct2, THEN conjunct2, THEN conjunct2,
          THEN spec, THEN spec, THEN mp, OF cacheO, THEN conjunct2, THEN mp, OF nsO,
          THEN spec, THEN mp, OF createO', of "[]"]
  have "ClusterAddonsCreate (''cluster-'' @ ?name) ?addon
          \<notin> set (drop (length ([] :: call list)) (snd ?ownAgain))" .
  then have onceO: "ClusterAddonsCreate ''cluster-c1'' ?addon \<notin> set (snd ?ownAgain)"
    by (simp add: name)

  from probeF createF entry missF differ inRange okF callsF cached probeA missA createA createO onceO
  show ?thesis
    by (intro conjI)
qed




lemma secretsMap_entries:
  "(s, gen) \<in> set (rangeMap order (secretsMap ex)) \<Longrightarrow>
     s = ''apiserver-auth'' \<and> gen = createApiserverAuth ex \<or>
     s = ''apiserver-ssh'' \<and> gen = createApiserverSSH ex"
  by (drule rangeMap_subset) (auto simp: secretsMap_def)





lemma warmSecretsController_sel:
  "secretStore warmSecretsController k = Inr True"
  "client warmSecretsController cs x = None"
  "masterResourcesPath warmSecretsController = ''/res''"
  "serviceStore warmSecretsController k = Inr False"
  by (simp_all add: warmSecretsController_def demoController_def)

lemma demoCollaborators_sel:
  "namespaceName demoCollaborators n = ''cluster-'' @ n"
  "secretsRange demoCollaborators = [''apiserver-auth'', ''apiserver-ssh'']"
  "createApiserverAuth demoCollaborators cc c t = (c, Inr (False, Secret ''apiserver-auth''))"
  "createApiserverSSH demoCollaborators cc c t =
     (c\<lparr>Status := (Status c)\<lparr>ApiserverSSH := ''ssh-rsa''\<rparr>\<rparr>, Inr (True, Secret ''apiserver-ssh''))"
  "checkTimeout demoCollaborators c = (c, None)"
  "timeNow demoCollaborators = 1000"
  by (simp_all add: demoCollaborators_def)

lemma demo_secrets_entries:
  "rangeMap (secretsRange demoCollaborators) (secretsMap demoCollaborators) = secretsMap demoCollaborators"
  by (simp add: demoCollaborators_sel rangeMap_def secretsMap_def)

lemma demoCluster_names:
  "Name (Metadata demoCluster) = ''c1''"
  "Name (Metadata demoClusterWithCA) = ''c1''"
  "Name (Metadata keyedCluster) = ''c1''"
  "ApiserverSSH (Status demoClusterWithCA) = []"
  "ApiserverSSH (Status keyedCluster) = ''ssh-rsa''"
  by (simp_all add: demoCluster_def demoClusterWithCA_def keyedCluster_def)



lemma framedD:
  assumes "framed cc ex"
  shows "snd (checkTimeout ex c) = None \<Longrightarrow> fst (checkTimeout ex c) = c"
    and "Status (fst (createTokens ex c)) = Status c"
    and "Address (fst (createTokens ex c)) = Address c"
    and "fst (createApiserverAuth ex cc c t) = c"
    and "fst (createApiserverSSH ex cc c t) =
           c\<lparr>Status := (Status c)\<lparr>ApiserverSSH := ApiserverSSH (Status (fst (createApiserverSSH ex cc c t)))\<rparr>\<rparr>"
  using assms unfolding framed_def by blast+

text \<open>Being the same cluster but for \<^verbatim>\<open>Status.ApiserverSSH\<close> is transitive.\<close>

lemma sshOnly_trans:
  assumes "c1 = c\<lparr>Status := (Status c)\<lparr>ApiserverSSH := ApiserverSSH (Status c1)\<rparr>\<rparr>"
    and "c2 = c1\<lparr>Status := (Status c1)\<lparr>ApiserverSSH := ApiserverSSH (Status c2)\<rparr>\<rparr>"
  shows "c2 = c\<lparr>Status := (Status c)\<lparr>ApiserverSSH := ApiserverSSH (Status c2)\<rparr>\<rparr>"
proof -
  have s1: "Status c1 = (Status c)\<lparr>ApiserverSSH := ApiserverSSH (Status c1)\<rparr>"
    using arg_cong [OF assms(1), of Status] by simp
  have s2: "Status c2 = (Status c1)\<lparr>ApiserverSSH := ApiserverSSH (Status c2)\<rparr>"
    using arg_cong [OF assms(2), of Status] by simp
  have s: "Status c2 = (Status c)\<lparr>ApiserverSSH := ApiserverSSH (Status c2)\<rparr>"
    by (subst s2, subst s1) simp
  have "c2 = c1\<lparr>Status := Status c2\<rparr>"
    using assms(2) s2 by simp
  also have "c1 = c\<lparr>Status := Status c1\<rparr>"
    using assms(1) s1 by simp
  finally have "c2 = c\<lparr>Status := Status c2\<rparr>" by simp
  with s show ?thesis by simp
qed

lemma launchingCheckServicesLoop_obj:
  "obj (launchingCheckServicesLoop cc c ns es cs) = c \<and>
   \<not> changedC (launchingCheckServicesLoop cc c ns es cs)"
  by (induction es arbitrary: cs)
    (auto simp: returnNil_def returnErr_def Let_def split: sum.splits option.splits bool.splits)

lemma launchingCheckServices_obj:
  "obj (launchingCheckServices cc ld ex c cs) = c \<and> \<not> changedC (launchingCheckServices cc ld ex c cs)"
  unfolding launchingCheckServices_def by (rule launchingCheckServicesLoop_obj)

lemma pendingCheckSecret_obj:
  assumes "gen = createApiserverAuth ex \<or> gen = createApiserverSSH ex" and "framed cc ex"
  shows "obj (fst (pendingCheckSecret cc ld c R ns (s, gen) cs)) =
           c\<lparr>Status := (Status c)\<lparr>ApiserverSSH :=
                ApiserverSSH (Status (obj (fst (pendingCheckSecret cc ld c R ns (s, gen) cs))))\<rparr>\<rparr>"
proof -
  have g: "fst (gen cc c t) = c\<lparr>Status := (Status c)\<lparr>ApiserverSSH := ApiserverSSH (Status (fst (gen cc c t)))\<rparr>\<rparr>"
    for t
    using assms(1) framedD(4,5) [OF assms(2), of c t] by auto
  show ?thesis
  proof (cases "templateParseFiles ld (pathJoin ld (masterResourcesPath cc) (s @ ''-secret.yaml''))")
    case (Inl e)
    then show ?thesis
      by (auto simp: pendingCheckSecret_def Let_def returnErr_def returnC_def returnNil_def
          split: option.splits sum.splits prod.splits)
  next
    case (Inr t)
    obtain c1 res where gc: "gen cc c t = (c1, res)" by (cases "gen cc c t")
    with g [of t] have "c1 = c\<lparr>Status := (Status c)\<lparr>ApiserverSSH := ApiserverSSH (Status c1)\<rparr>\<rparr>" by simp
    with Inr gc show ?thesis
      by (auto simp: pendingCheckSecret_def Let_def returnErr_def returnC_def returnNil_def
          split: option.splits sum.splits prod.splits)
  qed
qed

lemma pendingCheckSecretsLoop_obj:
  assumes "\<forall>(s, gen) \<in> set es. gen = createApiserverAuth ex \<or> gen = createApiserverSSH ex" and "framed cc ex"
  shows "obj (pendingCheckSecretsLoop cc ld c R ns es cs) =
           c\<lparr>Status := (Status c)\<lparr>ApiserverSSH :=
                ApiserverSSH (Status (obj (pendingCheckSecretsLoop cc ld c R ns es cs)))\<rparr>\<rparr>"
  using assms(1)
proof (induction es arbitrary: c cs)
  case Nil
  then show ?case by (simp add: returnNil_def)
next
  case (Cons entry es)
  obtain s gen where entry: "entry = (s, gen)" by (cases entry)
  obtain r go where body: "pendingCheckSecret cc ld c R ns (s, gen) cs = (r, go)"
    by (cases "pendingCheckSecret cc ld c R ns (s, gen) cs")
  have gen: "gen = createApiserverAuth ex \<or> gen = createApiserverSSH ex"
    using Cons.prems entry by auto
  from pendingCheckSecret_obj [OF gen assms(2), of ld c R ns s cs] body
  have r: "obj r = c\<lparr>Status := (Status c)\<lparr>ApiserverSSH := ApiserverSSH (Status (obj r))\<rparr>\<rparr>" by simp
  show ?case
  proof (cases go)
    case False
    with body entry r show ?thesis by simp
  next
    case True
    let ?r' = "pendingCheckSecretsLoop cc ld (obj r) R ns es (calls r)"
    have "obj ?r' = (obj r)\<lparr>Status := (Status (obj r))\<lparr>ApiserverSSH := ApiserverSSH (Status (obj ?r'))\<rparr>\<rparr>"
      using Cons.IH [of "obj r" "calls r"] Cons.prems by simp
    from sshOnly_trans [OF r this] True body entry show ?thesis by simp
  qed
qed

lemma pendingCheckSecrets_obj:
  assumes "framed cc ex"
  shows "obj (pendingCheckSecrets cc ld ex c cs) =
           c\<lparr>Status := (Status c)\<lparr>ApiserverSSH := ApiserverSSH (Status (obj (pendingCheckSecrets cc ld ex c cs)))\<rparr>\<rparr>"
proof -
  have "\<forall>(s, gen) \<in> set (rangeMap (secretsRange ex) (secretsMap ex)).
          gen = createApiserverAuth ex \<or> gen = createApiserverSSH ex"
    using secretsMap_entries by blast
  from pendingCheckSecretsLoop_obj [OF this assms] show ?thesis
    by (simp add: pendingCheckSecrets_def Let_def)
qed

lemma withDefaultVersion_idem: "withDefaultVersion cc (withDefaultVersion cc c) = withDefaultVersion cc c"
  by (simp add: withDefaultVersion_def)

lemma launchingCheckDeployments_cases:
  "versions cc (MasterVersion (Spec (withDefaultVersion cc c))) = None \<and>
     launchingCheckDeployments cc ld ex c cs = unknownVersion ex (withDefaultVersion cc c) cs \<or>
   versions cc (MasterVersion (Spec (withDefaultVersion cc c))) \<noteq> None \<and>
     \<not> changedC (launchingCheckDeployments cc ld ex c cs) \<and>
     obj (launchingCheckDeployments cc ld ex c cs) = withDefaultVersion cc c"
  by (auto simp: launchingCheckDeployments_def Let_def returnErr_def launchingCheckDeploymentsLoop_obj
      launchingCheckDeploymentsLoop_changedC split: option.splits sum.splits)

lemma launchingCheckEtcdCluster_cases:
  "versions cc (MasterVersion (Spec (withDefaultVersion cc c))) = None \<and>
     launchingCheckEtcdCluster cc ld ex c cs = unknownVersion ex (withDefaultVersion cc c) cs \<or>
   versions cc (MasterVersion (Spec (withDefaultVersion cc c))) \<noteq> None \<and>
     obj (launchingCheckEtcdCluster cc ld ex c cs) = withDefaultVersion cc c \<and>
     (changedC (launchingCheckEtcdCluster cc ld ex c cs) \<longrightarrow> err (launchingCheckEtcdCluster cc ld ex c cs) = None)"
  by (auto simp: launchingCheckEtcdCluster_def Let_def returnErr_def returnNil_def returnC_def
      split: option.splits sum.splits bool.splits)

lemma syncFromDeployments_cases:
  "changedC (syncFromDeployments cc ld ex c cs) \<Longrightarrow>
     versions cc (MasterVersion (Spec (withDefaultVersion cc c))) = None \<and>
       syncFromDeployments cc ld ex c cs = unknownVersion ex (withDefaultVersion cc c) cs \<or>
     versions cc (MasterVersion (Spec (withDefaultVersion cc c))) \<noteq> None \<and>
       err (syncFromDeployments cc ld ex c cs) = None \<and>
       obj (syncFromDeployments cc ld ex c cs) = promote ex (withDefaultVersion cc c) \<and>
       (\<exists>c' cs'. launchingCheckDefaultPlugins cc ld ex c' cs' = (None, calls (syncFromDeployments cc ld ex c cs)))"
proof -
  assume ch: "changedC (syncFromDeployments cc ld ex c cs)"
  let ?r10 = "launchingCheckDeployments cc ld ex c cs"
  let ?r11 = "launchingCheckEtcdCluster cc ld ex (obj ?r10) (calls ?r10)"
  from launchingCheckDeployments_cases [of cc c ld ex cs]
  show ?thesis
  proof (elim disjE conjE)
    assume "versions cc (MasterVersion (Spec (withDefaultVersion cc c))) = None"
      and "?r10 = unknownVersion ex (withDefaultVersion cc c) cs"
    then show ?thesis
      by (simp add: syncFromDeployments_def Let_def) (simp add: unknownVersion_def Let_def)
  next
    assume known: "versions cc (MasterVersion (Spec (withDefaultVersion cc c))) \<noteq> None"
      and r10: "\<not> changedC ?r10" "obj ?r10 = withDefaultVersion cc c"
    show ?thesis
    proof (cases "err ?r10")
      case (Some e)
      with r10 ch show ?thesis by (simp add: syncFromDeployments_def Let_def)
    next
      case None
      from launchingCheckEtcdCluster_cases [of cc "obj ?r10" ld ex "calls ?r10"] known
      have r11: "obj ?r11 = withDefaultVersion cc c" "changedC ?r11 \<longrightarrow> err ?r11 = None"
        by (simp_all add: r10 withDefaultVersion_idem)
      show ?thesis
      proof (cases "err ?r11")
        case (Some e)
        with None r11 ch show ?thesis by (simp add: syncFromDeployments_def Let_def)
      next
        case e11: None
        obtain e12 cs12 where p: "launchingCheckDefaultPlugins cc ld ex (obj ?r11) (calls ?r11) = (e12, cs12)"
          by (cases "launchingCheckDefaultPlugins cc ld ex (obj ?r11) (calls ?r11)")
        show ?thesis
        proof (cases e12)
          case (Some e)
          with None e11 p ch show ?thesis
            by (simp add: syncFromDeployments_def Let_def returnErr_def)
        next
          case e12: None
          with None e11 p have r: "syncFromDeployments cc ld ex c cs = returnC (promote ex (obj ?r11)) cs12"
            by (simp add: syncFromDeployments_def Let_def)
          with p e12 r11(1) known show ?thesis
            by (auto simp: returnC_def)
        qed
      qed
    qed
  qed
qed

lemma pendingCheckSecret_yield:
  "changedC (fst (pendingCheckSecret cc ld c R ns entry cs)) \<Longrightarrow>
     err (fst (pendingCheckSecret cc ld c R ns entry cs)) = None"
  by (cases entry)
    (auto simp: pendingCheckSecret_def Let_def returnErr_def returnNil_def returnC_def
      split: option.splits sum.splits prod.splits if_splits)

lemma pendingCheckSecretsLoop_yield:
  "changedC (pendingCheckSecretsLoop cc ld c R ns es cs) \<Longrightarrow>
     err (pendingCheckSecretsLoop cc ld c R ns es cs) = None"
proof (induction es arbitrary: c cs)
  case Nil
  then show ?case by (simp add: returnNil_def)
next
  case (Cons entry es)
  obtain r go where body: "pendingCheckSecret cc ld c R ns entry cs = (r, go)"
    by (cases "pendingCheckSecret cc ld c R ns entry cs")
  show ?case
  proof (cases go)
    case True
    with body Cons.prems Cons.IH [of "obj r" "calls r"] show ?thesis by simp
  next
    case False
    with body Cons.prems pendingCheckSecret_yield [of cc ld c R ns entry cs] show ?thesis by simp
  qed
qed

lemma pendingCheckSecrets_yield:
  "changedC (pendingCheckSecrets cc ld ex c cs) \<Longrightarrow> err (pendingCheckSecrets cc ld ex c cs) = None"
  unfolding pendingCheckSecrets_def Let_def by (rule pendingCheckSecretsLoop_yield)

text \<open>
  How a reconcile that returns the cluster past the public service has ended: with the
  yield of the secrets step, with the failure of the master version, or with the promotion.
\<close>

lemma syncFromSecrets_cases:
  assumes "framed cc ex" and "changedC (syncFromSecrets cc ld ex c cs)"
  shows "syncFromSecrets cc ld ex c cs = pendingCheckSecrets cc ld ex c cs \<and>
           err (syncFromSecrets cc ld ex c cs) = None \<or>
         (\<exists>c7 cs'. c7 = c\<lparr>Status := (Status c)\<lparr>ApiserverSSH := ApiserverSSH (Status c7)\<rparr>\<rparr> \<and>
            (versions cc (MasterVersion (Spec (withDefaultVersion cc c))) = None \<and>
               syncFromSecrets cc ld ex c cs = unknownVersion ex (withDefaultVersion cc c7) cs' \<or>
             versions cc (MasterVersion (Spec (withDefaultVersion cc c))) \<noteq> None \<and>
               err (syncFromSecrets cc ld ex c cs) = None \<and>
               obj (syncFromSecrets cc ld ex c cs) = promote ex (withDefaultVersion cc c7) \<and>
               (\<exists>c' cs''. launchingCheckDefaultPlugins cc ld ex c' cs'' =
                             (None, calls (syncFromSecrets cc ld ex c cs)))))"
proof -
  let ?r = "syncFromSecrets cc ld ex c cs"
  let ?r7 = "pendingCheckSecrets cc ld ex c cs"
  have c7: "obj ?r7 = c\<lparr>Status := (Status c)\<lparr>ApiserverSSH := ApiserverSSH (Status (obj ?r7))\<rparr>\<rparr>"
    by (rule pendingCheckSecrets_obj [OF assms(1)])
  have spec: "Spec (obj ?r7) = Spec c"
    using arg_cong [OF c7, of Spec] by simp
  have v: "MasterVersion (Spec (withDefaultVersion cc (obj ?r7))) = MasterVersion (Spec (withDefaultVersion cc c))"
    by (simp add: withDefaultVersion_def spec)
  show ?thesis
  proof (cases "err ?r7 \<noteq> None \<or> changedC ?r7")
    case True
    then have r: "?r = ?r7" by (simp add: syncFromSecrets_def Let_def)
    with assms(2) pendingCheckSecrets_yield [of cc ld ex c cs] show ?thesis
      by simp
  next
    case False
    obtain e8 cs8 where cm: "launchingCheckConfigMaps cc ld ex (obj ?r7) (calls ?r7) = (e8, cs8)"
      by (cases "launchingCheckConfigMaps cc ld ex (obj ?r7) (calls ?r7)")
    show ?thesis
    proof (cases e8)
      case (Some e)
      with False cm have "?r = ?r7\<lparr>err := e8, calls := cs8\<rparr>"
        by (simp add: syncFromSecrets_def Let_def)
      with False assms(2) show ?thesis by simp
    next
      case None
      obtain e9 cs9 where pvc: "launchingCheckPvcs cc ld ex (obj ?r7) cs8 = (e9, cs9)"
        by (cases "launchingCheckPvcs cc ld ex (obj ?r7) cs8")
      show ?thesis
      proof (cases e9)
        case (Some e)
        with False cm None pvc have "?r = returnErr (obj ?r7) e cs9"
          by (simp add: syncFromSecrets_def Let_def)
        with assms(2) show ?thesis by (simp add: returnErr_def)
      next
        case e9: None
        with False cm None pvc have r: "?r = syncFromDeployments cc ld ex (obj ?r7) cs9"
          by (simp add: syncFromSecrets_def Let_def)
        from syncFromDeployments_cases [of cc ld ex "obj ?r7" cs9] assms(2) r
        have "versions cc (MasterVersion (Spec (withDefaultVersion cc c))) = None \<and>
                ?r = unknownVersion ex (withDefaultVersion cc (obj ?r7)) cs9 \<or>
              versions cc (MasterVersion (Spec (withDefaultVersion cc c))) \<noteq> None \<and>
                err ?r = None \<and> obj ?r = promote ex (withDefaultVersion cc (obj ?r7)) \<and>
                (\<exists>c' cs''. launchingCheckDefaultPlugins cc ld ex c' cs'' = (None, calls ?r))"
          by (simp add: v)
        with c7 show ?thesis by blast
      qed
    qed
  qed
qed

lemma syncFromServiceAccounts_cases:
  assumes "framed cc ex" and "\<not> changedC r3" and "changedC (syncFromServiceAccounts cc ld ex r3)"
  shows "\<exists>cs'. syncFromServiceAccounts cc ld ex r3 = syncFromSecrets cc ld ex (obj r3) cs' \<and>
               changedC (syncFromSecrets cc ld ex (obj r3) cs')"
proof -
  obtain e4 cs4 where sa: "launchingCheckServiceAccounts cc ld ex (obj r3) (calls r3) = (e4, cs4)"
    by (cases "launchingCheckServiceAccounts cc ld ex (obj r3) (calls r3)")
  obtain e5 cs5 where rb: "launchingCheckClusterRoleBindings cc ld ex (obj r3) cs4 = (e5, cs5)"
    by (cases "launchingCheckClusterRoleBindings cc ld ex (obj r3) cs4")
  let ?r6 = "launchingCheckServices cc ld ex (obj r3) cs5"
  have r6: "obj ?r6 = obj r3" "\<not> changedC ?r6"
    using launchingCheckServices_obj [of cc ld ex "obj r3" cs5] by simp_all
  have e4: "e4 = None"
  proof (rule ccontr)
    assume "e4 \<noteq> None"
    then obtain e where "e4 = Some e" by auto
    with sa assms(2,3) show False by (simp add: syncFromServiceAccounts_def)
  qed
  have e5: "e5 = None"
  proof (rule ccontr)
    assume "e5 \<noteq> None"
    then obtain e where "e5 = Some e" by auto
    with sa e4 rb assms(2,3) show False by (simp add: syncFromServiceAccounts_def)
  qed
  have e6: "err ?r6 = None"
  proof (rule ccontr)
    assume "err ?r6 \<noteq> None"
    with sa e4 rb e5 r6 assms(3) show False by (simp add: syncFromServiceAccounts_def Let_def)
  qed
  have "syncFromServiceAccounts cc ld ex r3 = syncFromSecrets cc ld ex (obj r3) (calls ?r6)"
    using sa e4 rb e5 e6 r6 by (simp add: syncFromServiceAccounts_def Let_def)
  with assms(3) show ?thesis by auto
qed

lemma caOnly_parts: "caOnly c c' \<Longrightarrow> changedParts c c' \<le> 1 \<and> Phase (Status c') = Phase (Status c)"
proof -
  assume "caOnly c c'"
  then have eq: "c' = c\<lparr>Status := (Status c)\<lparr>RootCA := RootCA (Status c')\<rparr>\<rparr>"
    by (simp add: caOnly_def)
  have a: "Address c' = Address c" using arg_cong [OF eq, of Address] by simp
  have s: "Status c' = (Status c)\<lparr>RootCA := RootCA (Status c')\<rparr>" using arg_cong [OF eq, of Status] by simp
  have ssh: "ApiserverSSH (Status c') = ApiserverSSH (Status c)"
    using arg_cong [OF s, of ApiserverSSH] by simp
  have ph: "Phase (Status c') = Phase (Status c)"
    using arg_cong [OF s, of Phase] by simp
  have "(Status c')\<lparr>RootCA := RootCA (Status c), ApiserverSSH := ApiserverSSH (Status c)\<rparr> = Status c"
    by (subst s) simp
  then have "c'\<lparr>Address := Address c,
        Status := (Status c')\<lparr>RootCA := RootCA (Status c), ApiserverSSH := ApiserverSSH (Status c)\<rparr>\<rparr> = c"
    by (subst eq) simp
  then have t: "\<not> tokenUsersChanged c c'" by (simp add: tokenUsersChanged_def)
  have "\<not> publicServiceChanged c c'" "\<not> apiserverSSHChanged c c'"
    by (simp_all add: publicServiceChanged_def apiserverSSHChanged_def a ssh)
  with t ph show ?thesis by (simp add: changedParts_def)
qed

lemma addressOnly_parts: "addressOnly c c' \<Longrightarrow> changedParts c c' \<le> 1 \<and> Phase (Status c') = Phase (Status c)"
proof -
  assume "addressOnly c c'"
  then have eq: "c' = c\<lparr>Address := Address c'\<rparr>"
    by (simp add: addressOnly_def)
  have s: "Status c' = Status c" using arg_cong [OF eq, of Status] by simp
  have "c'\<lparr>Address := Address c,
        Status := (Status c')\<lparr>RootCA := RootCA (Status c), ApiserverSSH := ApiserverSSH (Status c)\<rparr>\<rparr> = c"
    unfolding s by (subst eq) simp
  then have t: "\<not> tokenUsersChanged c c'" by (simp add: tokenUsersChanged_def)
  have "\<not> rootCAChanged c c'" "\<not> apiserverSSHChanged c c'"
    by (simp_all add: rootCAChanged_def apiserverSSHChanged_def s)
  with t s show ?thesis by (simp add: changedParts_def)
qed

lemma sshOnly_parts: "sshOnly c c' \<Longrightarrow> changedParts c c' \<le> 1 \<and> Phase (Status c') = Phase (Status c)"
proof -
  assume "sshOnly c c'"
  then have eq: "c' = c\<lparr>Status := (Status c)\<lparr>ApiserverSSH := ApiserverSSH (Status c')\<rparr>\<rparr>"
    by (simp add: sshOnly_def)
  have a: "Address c' = Address c" using arg_cong [OF eq, of Address] by simp
  have s: "Status c' = (Status c)\<lparr>ApiserverSSH := ApiserverSSH (Status c')\<rparr>" using arg_cong [OF eq, of Status] by simp
  have ca: "RootCA (Status c') = RootCA (Status c)"
    using arg_cong [OF s, of RootCA] by simp
  have ph: "Phase (Status c') = Phase (Status c)"
    using arg_cong [OF s, of Phase] by simp
  have "(Status c')\<lparr>RootCA := RootCA (Status c), ApiserverSSH := ApiserverSSH (Status c)\<rparr> = Status c"
    by (subst s) simp
  then have "c'\<lparr>Address := Address c,
        Status := (Status c')\<lparr>RootCA := RootCA (Status c), ApiserverSSH := ApiserverSSH (Status c)\<rparr>\<rparr> = c"
    by (subst eq) simp
  then have t: "\<not> tokenUsersChanged c c'" by (simp add: tokenUsersChanged_def)
  have "\<not> publicServiceChanged c c'" "\<not> rootCAChanged c c'"
    by (simp_all add: publicServiceChanged_def rootCAChanged_def a ca)
  with t ph show ?thesis by (simp add: changedParts_def)
qed

lemma tokenOnly_parts: "tokenOnly c c' \<Longrightarrow> changedParts c c' \<le> 1 \<and> Phase (Status c') = Phase (Status c)"
  by (simp add: tokenOnly_def changedParts_def publicServiceChanged_def rootCAChanged_def
      apiserverSSHChanged_def)

lemma pendingCreateRootCA_quiet:
  "Key (RootCA (Status c)) \<noteq> None \<Longrightarrow> pendingCreateRootCA cc ex c cs = returnNil c cs"
  by (simp add: pendingCreateRootCA_def)

lemma pendingCreateRootCA_stops:
  "Key (RootCA (Status c)) = None \<Longrightarrow>
     changedC (pendingCreateRootCA cc ex c cs) \<or> err (pendingCreateRootCA cc ex c cs) \<noteq> None"
  by (simp add: pendingCreateRootCA_def Let_def returnErr_def returnC_def split: option.splits prod.splits)

lemma pendingCreateRootCA_caOnly: "caOnly c (obj (pendingCreateRootCA cc ex c cs))"
  by (simp add: caOnly_def pendingCreateRootCA_def Let_def returnErr_def returnC_def returnNil_def
      split: option.splits prod.splits)

lemma pendingCreateRootCA_yield:
  "changedC (pendingCreateRootCA cc ex c cs) \<Longrightarrow> err (pendingCreateRootCA cc ex c cs) = None"
  by (auto simp: pendingCreateRootCA_def Let_def returnErr_def returnC_def returnNil_def
      split: option.splits prod.splits if_splits)

lemma launchingCheckTokenUsers_quiet:
  "secretStore cc (namespaceName ex (Name (Metadata c)) @ ''/token-users'') = Inr True \<Longrightarrow>
     launchingCheckTokenUsers cc ex c cs =
       returnNil c (cs @ [SecretStoreGetByKey (namespaceName ex (Name (Metadata c)) @ ''/token-users'')])"
  by (simp add: launchingCheckTokenUsers_def Let_def)

lemma launchingCheckTokenUsers_stops:
  "secretStore cc (namespaceName ex (Name (Metadata c)) @ ''/token-users'') \<noteq> Inr True \<Longrightarrow>
     changedC (launchingCheckTokenUsers cc ex c cs) \<or> err (launchingCheckTokenUsers cc ex c cs) \<noteq> None"
  by (auto simp: launchingCheckTokenUsers_def Let_def returnErr_def returnC_def returnNil_def
      split: option.splits sum.splits prod.splits bool.splits)

lemma launchingCheckTokenUsers_tokenOnly:
  assumes "framed cc ex"
  shows "tokenOnly c (obj (launchingCheckTokenUsers cc ex c cs))"
proof -
  obtain c1 res where tok: "createTokens ex c = (c1, res)" by (cases "createTokens ex c")
  with framedD(2,3) [OF assms, of c] have "Status c1 = Status c" "Address c1 = Address c" by simp_all
  with tok show ?thesis
    by (auto simp: tokenOnly_def launchingCheckTokenUsers_def Let_def returnErr_def returnC_def returnNil_def
        split: option.splits sum.splits bool.splits)
qed

lemma launchingCheckTokenUsers_yield:
  "changedC (launchingCheckTokenUsers cc ex c cs) \<Longrightarrow> err (launchingCheckTokenUsers cc ex c cs) = None"
  by (auto simp: launchingCheckTokenUsers_def Let_def returnErr_def returnC_def returnNil_def
      split: option.splits sum.splits prod.splits bool.splits)

lemma launchingCheckApiserverPublicService_quiet:
  "serviceStore cc (namespaceName ex (Name (Metadata c)) @ ''/apiserver'') = Inr True \<Longrightarrow>
     launchingCheckApiserverPublicService cc ld ex c cs =
       returnNil c (cs @ [ServiceStoreGetByKey (namespaceName ex (Name (Metadata c)) @ ''/apiserver'')])"
  by (simp add: launchingCheckApiserverPublicService_def Let_def)

lemma launchingCheckApiserverPublicService_stops:
  assumes "serviceStore cc (namespaceName ex (Name (Metadata c)) @ ''/apiserver'') \<noteq> Inr True"
  shows "changedC (launchingCheckApiserverPublicService cc ld ex c cs) \<or>
         err (launchingCheckApiserverPublicService cc ld ex c cs) \<noteq> None"
proof -
  obtain port perr cs2 where g:
    "GetFreeNodePort cc (cs @ [ServiceStoreGetByKey (namespaceName ex (Name (Metadata c)) @ ''/apiserver'')])
       = ((port, perr), cs2)"
    by (metis prod.collapse)
  with assms show ?thesis
    by (auto simp: launchingCheckApiserverPublicService_def Let_def returnErr_def returnC_def returnNil_def
        split: option.splits sum.splits bool.splits)
qed

lemma launchingCheckApiserverPublicService_addressOnly:
  "addressOnly c (obj (launchingCheckApiserverPublicService cc ld ex c cs))"
proof -
  obtain port perr cs2 where g:
    "GetFreeNodePort cc (cs @ [ServiceStoreGetByKey (namespaceName ex (Name (Metadata c)) @ ''/apiserver'')])
       = ((port, perr), cs2)"
    by (metis prod.collapse)
  then show ?thesis
    by (auto simp: addressOnly_def launchingCheckApiserverPublicService_def Let_def returnErr_def returnC_def
        returnNil_def split: option.splits sum.splits bool.splits)
qed

lemma launchingCheckApiserverPublicService_yield:
  "changedC (launchingCheckApiserverPublicService cc ld ex c cs) \<Longrightarrow>
     err (launchingCheckApiserverPublicService cc ld ex c cs) = None"
proof -
  obtain port perr cs2 where g:
    "GetFreeNodePort cc (cs @ [ServiceStoreGetByKey (namespaceName ex (Name (Metadata c)) @ ''/apiserver'')])
       = ((port, perr), cs2)"
    by (metis prod.collapse)
  assume "changedC (launchingCheckApiserverPublicService cc ld ex c cs)"
  with g show ?thesis
    by (auto simp: launchingCheckApiserverPublicService_def Let_def returnErr_def returnC_def returnNil_def
        split: option.splits sum.splits bool.splits)
qed

lemma pendingCheckSecrets_sshOnly:
  "framed cc ex \<Longrightarrow> sshOnly c (obj (pendingCheckSecrets cc ld ex c cs))"
  unfolding sshOnly_def by (rule pendingCheckSecrets_obj)

lemma returnNil_sel:
  "obj (returnNil c cs) = c" "\<not> changedC (returnNil c cs)" "err (returnNil c cs) = None"
  "calls (returnNil c cs) = cs"
  by (simp_all add: returnNil_def)

lemma syncPendingCluster_timeout:
  "checkTimeout ex c = (c0, Some e) \<Longrightarrow> syncPendingCluster cc ld ex c cs = returnErr c0 e cs"
  by (simp add: syncPendingCluster_def)

lemma syncPendingCluster_ca:
  assumes "checkTimeout ex c = (c, None)" and "Key (RootCA (Status c)) = None"
  shows "syncPendingCluster cc ld ex c cs = pendingCreateRootCA cc ex c cs"
proof -
  have "err (pendingCreateRootCA cc ex c cs) \<noteq> None \<or> changedC (pendingCreateRootCA cc ex c cs)"
    using pendingCreateRootCA_stops [OF assms(2), of cc ex cs] by blast
  then show ?thesis
    by (simp add: syncPendingCluster_def Let_def assms(1))
qed

lemma syncPendingCluster_token:
  assumes "checkTimeout ex c = (c, None)" and "Key (RootCA (Status c)) \<noteq> None"
    and "secretStore cc (namespaceName ex (Name (Metadata c)) @ ''/token-users'') \<noteq> Inr True"
  shows "syncPendingCluster cc ld ex c cs = launchingCheckTokenUsers cc ex c cs"
proof -
  have "err (launchingCheckTokenUsers cc ex c cs) \<noteq> None \<or> changedC (launchingCheckTokenUsers cc ex c cs)"
    using launchingCheckTokenUsers_stops [OF assms(3), of cs] by blast
  then show ?thesis
    by (simp add: syncPendingCluster_def Let_def assms(1) pendingCreateRootCA_quiet [OF assms(2)]
        returnNil_sel)
qed

lemma syncPendingCluster_service:
  assumes "checkTimeout ex c = (c, None)" and "Key (RootCA (Status c)) \<noteq> None"
    and "secretStore cc (namespaceName ex (Name (Metadata c)) @ ''/token-users'') = Inr True"
    and "serviceStore cc (namespaceName ex (Name (Metadata c)) @ ''/apiserver'') \<noteq> Inr True"
  shows "syncPendingCluster cc ld ex c cs =
           launchingCheckApiserverPublicService cc ld ex c
             (cs @ [SecretStoreGetByKey (namespaceName ex (Name (Metadata c)) @ ''/token-users'')])"
proof -
  let ?cs2 = "cs @ [SecretStoreGetByKey (namespaceName ex (Name (Metadata c)) @ ''/token-users'')]"
  have "err (launchingCheckApiserverPublicService cc ld ex c ?cs2) \<noteq> None \<or>
        changedC (launchingCheckApiserverPublicService cc ld ex c ?cs2)"
    using launchingCheckApiserverPublicService_stops [OF assms(4), of ld ?cs2] by blast
  then show ?thesis
    by (simp add: syncPendingCluster_def Let_def assms(1) pendingCreateRootCA_quiet [OF assms(2)]
        launchingCheckTokenUsers_quiet [OF assms(3)] returnNil_sel)
qed

lemma syncPendingCluster_rest:
  assumes "checkTimeout ex c = (c, None)" and "Key (RootCA (Status c)) \<noteq> None"
    and "secretStore cc (namespaceName ex (Name (Metadata c)) @ ''/token-users'') = Inr True"
    and "serviceStore cc (namespaceName ex (Name (Metadata c)) @ ''/apiserver'') = Inr True"
  shows "syncPendingCluster cc ld ex c cs =
           syncFromServiceAccounts cc ld ex
             (returnNil c
               (cs @ [SecretStoreGetByKey (namespaceName ex (Name (Metadata c)) @ ''/token-users''),
                      ServiceStoreGetByKey (namespaceName ex (Name (Metadata c)) @ ''/apiserver'')]))"
  by (simp add: syncPendingCluster_def Let_def assms(1) pendingCreateRootCA_quiet [OF assms(2)]
      launchingCheckTokenUsers_quiet [OF assms(3)] launchingCheckApiserverPublicService_quiet [OF assms(4)]
      returnNil_sel)

lemma unknownVersion_sel:
  "changedC (unknownVersion ex c cs)"
  "err (unknownVersion ex c cs) =
     Some (Errorf ''unknown new cluster %q master version %q''
             [ArgStr (Name (Metadata c)), ArgStr (MasterVersion (Spec c))])"
  "Phase (Status (obj (unknownVersion ex c cs))) = Failed"
  "LastTransitionTime (Status (obj (unknownVersion ex c cs))) = timeNow ex"
  by (simp_all add: unknownVersion_def Let_def)

lemma promote_sel:
  "Phase (Status (promote ex c)) = Launching"
  "LastTransitionTime (Status (promote ex c)) = timeNow ex"
  by (simp_all add: promote_def Let_def)






text \<open>
  The six ways in which a reconcile returns the cluster: the yield of the root CA, of the
  token users, of the public service or of the secrets, the failure of the master
  version, and the promotion.
\<close>

lemma syncPendingCluster_changed [consumes 2, case_names ca token service secrets failed launched]:
  assumes "framed cc ex" and "changedC (syncPendingCluster cc ld ex c cs)"
  obtains
    "Key (RootCA (Status c)) = None"
      "syncPendingCluster cc ld ex c cs = pendingCreateRootCA cc ex c cs"
      "err (syncPendingCluster cc ld ex c cs) = None"
      "caOnly c (obj (syncPendingCluster cc ld ex c cs))"
  | "Key (RootCA (Status c)) \<noteq> None"
      "secretStore cc (namespaceName ex (Name (Metadata c)) @ ''/token-users'') \<noteq> Inr True"
      "syncPendingCluster cc ld ex c cs = launchingCheckTokenUsers cc ex c cs"
      "err (syncPendingCluster cc ld ex c cs) = None"
      "tokenOnly c (obj (syncPendingCluster cc ld ex c cs))"
  | "Key (RootCA (Status c)) \<noteq> None"
      "secretStore cc (namespaceName ex (Name (Metadata c)) @ ''/token-users'') = Inr True"
      "serviceStore cc (namespaceName ex (Name (Metadata c)) @ ''/apiserver'') \<noteq> Inr True"
      "syncPendingCluster cc ld ex c cs =
         launchingCheckApiserverPublicService cc ld ex c
           (cs @ [SecretStoreGetByKey (namespaceName ex (Name (Metadata c)) @ ''/token-users'')])"
      "err (syncPendingCluster cc ld ex c cs) = None"
      "addressOnly c (obj (syncPendingCluster cc ld ex c cs))"
  | cs' where "Key (RootCA (Status c)) \<noteq> None"
      "secretStore cc (namespaceName ex (Name (Metadata c)) @ ''/token-users'') = Inr True"
      "serviceStore cc (namespaceName ex (Name (Metadata c)) @ ''/apiserver'') = Inr True"
      "syncPendingCluster cc ld ex c cs = pendingCheckSecrets cc ld ex c cs'"
      "err (syncPendingCluster cc ld ex c cs) = None"
      "sshOnly c (obj (syncPendingCluster cc ld ex c cs))"
  | c7 cs' where "Key (RootCA (Status c)) \<noteq> None"
      "secretStore cc (namespaceName ex (Name (Metadata c)) @ ''/token-users'') = Inr True"
      "serviceStore cc (namespaceName ex (Name (Metadata c)) @ ''/apiserver'') = Inr True"
      "sshOnly c c7"
      "versions cc (MasterVersion (Spec (withDefaultVersion cc c))) = None"
      "syncPendingCluster cc ld ex c cs = unknownVersion ex (withDefaultVersion cc c7) cs'"
  | c7 c' cs' where "Key (RootCA (Status c)) \<noteq> None"
      "secretStore cc (namespaceName ex (Name (Metadata c)) @ ''/token-users'') = Inr True"
      "serviceStore cc (namespaceName ex (Name (Metadata c)) @ ''/apiserver'') = Inr True"
      "sshOnly c c7"
      "versions cc (MasterVersion (Spec (withDefaultVersion cc c))) \<noteq> None"
      "err (syncPendingCluster cc ld ex c cs) = None"
      "obj (syncPendingCluster cc ld ex c cs) = promote ex (withDefaultVersion cc c7)"
      "launchingCheckDefaultPlugins cc ld ex c' cs' = (None, calls (syncPendingCluster cc ld ex c cs))"
proof -
  let ?r = "syncPendingCluster cc ld ex c cs"
  let ?token = "namespaceName ex (Name (Metadata c)) @ ''/token-users''"
  let ?service = "namespaceName ex (Name (Metadata c)) @ ''/apiserver''"
  obtain c0 e0 where to: "checkTimeout ex c = (c0, e0)" by (cases "checkTimeout ex c")
  have e0: "e0 = None"
  proof (rule ccontr)
    assume "e0 \<noteq> None"
    then obtain e where "e0 = Some e" by auto
    with to assms(2) show False by (simp add: syncPendingCluster_def returnErr_def)
  qed
  with to framedD(1) [OF assms(1), of c] have "c0 = c" by simp
  with to e0 have to: "checkTimeout ex c = (c, None)" by simp
  show thesis
  proof (cases "Key (RootCA (Status c)) = None")
    case True
    have r: "?r = pendingCreateRootCA cc ex c cs"
      by (rule syncPendingCluster_ca [OF to True])
    have "err ?r = None"
      unfolding r by (rule pendingCreateRootCA_yield) (use assms(2) r in simp)
    moreover have "caOnly c (obj ?r)"
      unfolding r by (rule pendingCreateRootCA_caOnly)
    ultimately show thesis using True r by (rule_tac that(1))
  next
    case key: False
    show thesis
    proof (cases "secretStore cc ?token = Inr True")
      case False
      have r: "?r = launchingCheckTokenUsers cc ex c cs"
        by (rule syncPendingCluster_token [OF to key False])
      have "err ?r = None"
        unfolding r by (rule launchingCheckTokenUsers_yield) (use assms(2) r in simp)
      moreover have "tokenOnly c (obj ?r)"
        unfolding r by (rule launchingCheckTokenUsers_tokenOnly [OF assms(1)])
      ultimately show thesis using key False r by (rule_tac that(2))
    next
      case tok: True
      show thesis
      proof (cases "serviceStore cc ?service = Inr True")
        case False
        have r: "?r = launchingCheckApiserverPublicService cc ld ex c (cs @ [SecretStoreGetByKey ?token])"
          by (rule syncPendingCluster_service [OF to key tok False])
        have "err ?r = None"
          unfolding r by (rule launchingCheckApiserverPublicService_yield) (use assms(2) r in simp)
        moreover have "addressOnly c (obj ?r)"
          unfolding r by (rule launchingCheckApiserverPublicService_addressOnly)
        ultimately show thesis using key tok False r by (rule_tac that(3))
      next
        case svc: True
        let ?r3 = "returnNil c (cs @ [SecretStoreGetByKey ?token, ServiceStoreGetByKey ?service])"
        have r: "?r = syncFromServiceAccounts cc ld ex ?r3"
          by (rule syncPendingCluster_rest [OF to key tok svc])
        have "changedC (syncFromServiceAccounts cc ld ex ?r3)"
          using assms(2) r by simp
        from syncFromServiceAccounts_cases [OF assms(1) returnNil_sel(2) this]
        obtain cs7 where s: "?r = syncFromSecrets cc ld ex c cs7" "changedC (syncFromSecrets cc ld ex c cs7)"
          unfolding returnNil_sel r by blast
        from syncFromSecrets_cases [OF assms(1) s(2), folded sshOnly_def]
        consider (yield) "syncFromSecrets cc ld ex c cs7 = pendingCheckSecrets cc ld ex c cs7"
            "err (syncFromSecrets cc ld ex c cs7) = None"
          | (failed) c7 csf where "sshOnly c c7"
            "versions cc (MasterVersion (Spec (withDefaultVersion cc c))) = None"
            "syncFromSecrets cc ld ex c cs7 = unknownVersion ex (withDefaultVersion cc c7) csf"
          | (launched) c7 cp csp where "sshOnly c c7"
            "versions cc (MasterVersion (Spec (withDefaultVersion cc c))) \<noteq> None"
            "err (syncFromSecrets cc ld ex c cs7) = None"
            "obj (syncFromSecrets cc ld ex c cs7) = promote ex (withDefaultVersion cc c7)"
            "launchingCheckDefaultPlugins cc ld ex cp csp = (None, calls (syncFromSecrets cc ld ex c cs7))"
          by (elim disjE exE conjE) blast+
        then show thesis
        proof cases
          case yield
          have r7: "?r = pendingCheckSecrets cc ld ex c cs7"
            using s(1) yield(1) by simp
          have "err ?r = None"
            using s(1) yield(2) by simp
          moreover have "sshOnly c (obj ?r)"
            unfolding r7 by (rule pendingCheckSecrets_sshOnly [OF assms(1)])
          ultimately show thesis using key tok svc r7 by (rule_tac that(4))
        next
          case failed
          have "?r = unknownVersion ex (withDefaultVersion cc c7) csf"
            using s(1) failed(3) by simp
          with key tok svc failed(1,2) show thesis by (rule_tac that(5))
        next
          case launched
          have "err ?r = None" "obj ?r = promote ex (withDefaultVersion cc c7)"
            "launchingCheckDefaultPlugins cc ld ex cp csp = (None, calls ?r)"
            using s(1) launched(3,4,5) by simp_all
          with key tok svc launched(1,2) show thesis by (rule_tac that(6))
        qed
      qed
    qed
  qed
qed

lemma syncPendingCluster_secrets:
  assumes "checkTimeout ex c = (c, None)" and "Key (RootCA (Status c)) \<noteq> None"
    and "secretStore cc (namespaceName ex (Name (Metadata c)) @ ''/token-users'') = Inr True"
    and "serviceStore cc (namespaceName ex (Name (Metadata c)) @ ''/apiserver'') = Inr True"
    and "launchingCheckServiceAccounts cc ld ex c
           (cs @ [SecretStoreGetByKey (namespaceName ex (Name (Metadata c)) @ ''/token-users''),
                  ServiceStoreGetByKey (namespaceName ex (Name (Metadata c)) @ ''/apiserver'')]) = (None, cs4)"
    and "launchingCheckClusterRoleBindings cc ld ex c cs4 = (None, cs5)"
    and "err (launchingCheckServices cc ld ex c cs5) = None"
    and "changedC (pendingCheckSecrets cc ld ex c (calls (launchingCheckServices cc ld ex c cs5)))"
  shows "syncPendingCluster cc ld ex c cs =
           pendingCheckSecrets cc ld ex c (calls (launchingCheckServices cc ld ex c cs5))"
proof -
  let ?r6 = "launchingCheckServices cc ld ex c cs5"
  have r6: "obj ?r6 = c" "\<not> changedC ?r6"
    using launchingCheckServices_obj [of cc ld ex c cs5] by simp_all
  have "syncPendingCluster cc ld ex c cs = syncFromSecrets cc ld ex c (calls ?r6)"
    unfolding syncPendingCluster_rest [OF assms(1-4)]
    by (simp add: syncFromServiceAccounts_def Let_def returnNil_sel assms(5-7) r6)
  also have "\<dots> = pendingCheckSecrets cc ld ex c (calls ?r6)"
    using assms(8) by (simp add: syncFromSecrets_def Let_def)
  finally show ?thesis .
qed

text \<open>
  C1. Under the frame conditions on the collaborators: a reconcile that returns the
  cluster in phase \<^verbatim>\<open>Pending\<close> has returned no error, has left the phase as it was,
  has changed at most one of the four parts of the cluster (root CA, address of the
  public service, SSH material, the rest of the record, which the token generator
  writes), and its outcome, with the calls made, is the outcome of one of the four
  steps that yield (root CA, token users, public service, secrets): no later step has run.
  And each of these steps does yield: when the timeout check passes, the reconcile is the
  root-CA step if the key is absent; the token-users step if the key is present and the
  secret is not cached; the public-service step if moreover the secret is cached and the
  service is not; and the secrets step if the service is cached too, the steps in
  between return no error and the secrets step returns the cluster.
\<close>

theorem yield_on_mutation:
  assumes "framed cc ex"
  shows
  "let r = syncPendingCluster cc ld ex c cs;
       tokenKey = namespaceName ex (Name (Metadata c)) @ ''/token-users'';
       serviceKey = namespaceName ex (Name (Metadata c)) @ ''/apiserver'';
       passed = (snd (checkTimeout ex c) = None)
   in (changedC r \<and> Phase (Status (obj r)) = Pending \<longrightarrow>
         Phase (Status c) = Pending \<and> err r = None \<and> changedParts c (obj r) \<le> 1 \<and>
         (r = pendingCreateRootCA cc ex c cs \<or>
          r = launchingCheckTokenUsers cc ex c cs \<or>
          r = launchingCheckApiserverPublicService cc ld ex c (cs @ [SecretStoreGetByKey tokenKey]) \<or>
          (\<exists>cs'. r = pendingCheckSecrets cc ld ex c cs'))) \<and>
      (passed \<and> Key (RootCA (Status c)) = None \<longrightarrow> r = pendingCreateRootCA cc ex c cs) \<and>
      (passed \<and> Key (RootCA (Status c)) \<noteq> None \<and> secretStore cc tokenKey \<noteq> Inr True \<longrightarrow>
         r = launchingCheckTokenUsers cc ex c cs) \<and>
      (passed \<and> Key (RootCA (Status c)) \<noteq> None \<and> secretStore cc tokenKey = Inr True \<and>
       serviceStore cc serviceKey \<noteq> Inr True \<longrightarrow>
         r = launchingCheckApiserverPublicService cc ld ex c (cs @ [SecretStoreGetByKey tokenKey])) \<and>
      (passed \<and> Key (RootCA (Status c)) \<noteq> None \<and> secretStore cc tokenKey = Inr True \<and>
       serviceStore cc serviceKey = Inr True \<longrightarrow>
         (\<forall>cs4 cs5.
            launchingCheckServiceAccounts cc ld ex c
              (cs @ [SecretStoreGetByKey tokenKey, ServiceStoreGetByKey serviceKey]) = (None, cs4) \<and>
            launchingCheckClusterRoleBindings cc ld ex c cs4 = (None, cs5) \<and>
            err (launchingCheckServices cc ld ex c cs5) = None \<and>
            changedC (pendingCheckSecrets cc ld ex c (calls (launchingCheckServices cc ld ex c cs5))) \<longrightarrow>
            r = pendingCheckSecrets cc ld ex c (calls (launchingCheckServices cc ld ex c cs5))))"
proof -
  let ?r = "syncPendingCluster cc ld ex c cs"
  let ?tokenKey = "namespaceName ex (Name (Metadata c)) @ ''/token-users''"
  let ?serviceKey = "namespaceName ex (Name (Metadata c)) @ ''/apiserver''"
  have yields: "changedC ?r \<and> Phase (Status (obj ?r)) = Pending \<longrightarrow>
         Phase (Status c) = Pending \<and> err ?r = None \<and> changedParts c (obj ?r) \<le> 1 \<and>
         (?r = pendingCreateRootCA cc ex c cs \<or>
          ?r = launchingCheckTokenUsers cc ex c cs \<or>
          ?r = launchingCheckApiserverPublicService cc ld ex c (cs @ [SecretStoreGetByKey ?tokenKey]) \<or>
          (\<exists>cs'. ?r = pendingCheckSecrets cc ld ex c cs'))"
  proof (intro impI, elim conjE)
    assume ch: "changedC ?r" and ph: "Phase (Status (obj ?r)) = Pending"
    from assms ch show "Phase (Status c) = Pending \<and> err ?r = None \<and> changedParts c (obj ?r) \<le> 1 \<and>
         (?r = pendingCreateRootCA cc ex c cs \<or>
          ?r = launchingCheckTokenUsers cc ex c cs \<or>
          ?r = launchingCheckApiserverPublicService cc ld ex c (cs @ [SecretStoreGetByKey ?tokenKey]) \<or>
          (\<exists>cs'. ?r = pendingCheckSecrets cc ld ex c cs'))"
    proof (cases rule: syncPendingCluster_changed)
      case ca
      from caOnly_parts [OF ca(4)] ph ca(2,3) show ?thesis by simp
    next
      case token
      from tokenOnly_parts [OF token(5)] ph token(3,4) show ?thesis by simp
    next
      case service
      from addressOnly_parts [OF service(6)] ph service(4,5) show ?thesis by simp
    next
      case (secrets cs')
      from sshOnly_parts [OF secrets(6)] ph secrets(5) have "Phase (Status c) = Pending \<and> err ?r = None \<and>
          changedParts c (obj ?r) \<le> 1"
        by simp
      with secrets(4) show ?thesis by blast
    next
      case (failed c7 cs')
      with ph show ?thesis by (simp add: unknownVersion_sel)
    next
      case (launched c7 c' cs')
      with ph show ?thesis by (simp add: promote_sel)
    qed
  qed
  have passed: "checkTimeout ex c = (c, None)" if "snd (checkTimeout ex c) = None"
    using that framedD(1) [OF assms that] by (cases "checkTimeout ex c") simp
  have ca: "snd (checkTimeout ex c) = None \<and> Key (RootCA (Status c)) = None \<longrightarrow>
              ?r = pendingCreateRootCA cc ex c cs"
    using passed syncPendingCluster_ca [of ex c cc ld cs] by blast
  have token: "snd (checkTimeout ex c) = None \<and> Key (RootCA (Status c)) \<noteq> None \<and>
               secretStore cc ?tokenKey \<noteq> Inr True \<longrightarrow> ?r = launchingCheckTokenUsers cc ex c cs"
    using passed syncPendingCluster_token [of ex c cc ld cs] by blast
  have service: "snd (checkTimeout ex c) = None \<and> Key (RootCA (Status c)) \<noteq> None \<and>
                 secretStore cc ?tokenKey = Inr True \<and> serviceStore cc ?serviceKey \<noteq> Inr True \<longrightarrow>
         ?r = launchingCheckApiserverPublicService cc ld ex c (cs @ [SecretStoreGetByKey ?tokenKey])"
    using passed syncPendingCluster_service [of ex c cc ld cs] by blast
  have secrets: "snd (checkTimeout ex c) = None \<and> Key (RootCA (Status c)) \<noteq> None \<and>
                 secretStore cc ?tokenKey = Inr True \<and> serviceStore cc ?serviceKey = Inr True \<longrightarrow>
         (\<forall>cs4 cs5.
            launchingCheckServiceAccounts cc ld ex c
              (cs @ [SecretStoreGetByKey ?tokenKey, ServiceStoreGetByKey ?serviceKey]) = (None, cs4) \<and>
            launchingCheckClusterRoleBindings cc ld ex c cs4 = (None, cs5) \<and>
            err (launchingCheckServices cc ld ex c cs5) = None \<and>
            changedC (pendingCheckSecrets cc ld ex c (calls (launchingCheckServices cc ld ex c cs5))) \<longrightarrow>
            ?r = pendingCheckSecrets cc ld ex c (calls (launchingCheckServices cc ld ex c cs5)))"
    using passed syncPendingCluster_secrets [of ex c cc ld cs] by blast
  show ?thesis
    unfolding Let_def
    by (rule conjI [OF yields conjI [OF ca conjI [OF token conjI [OF service secrets]]]])
qed

lemma demo_framed: "framed cc demoCollaborators"
  by (simp add: framed_def demoCollaborators_def)

lemma warmSecrets_GetFreeNodePort:
  "GetFreeNodePort warmSecretsController cs = ((30002, None), cs @ [ServiceStoreList])"
  by (simp add: GetFreeNodePort_def warmSecretsController_def demoController_def
      scanPorts.simps [of _ _ 30000] scanPorts.simps [of _ _ 30001] scanPorts.simps [of _ _ 30002])

lemma warmController_sel:
  "secretStore warmController k = Inr True"
  "serviceStore warmController k = Inr True"
  "saStore warmController k = Inr True"
  "clusterRoleBindingStore warmController k = Inr True"
  "cmStore warmController k = Inr True"
  "addonStore warmController k = Inr True"
  "etcdClusterStore warmController k = Inr True"
  "client warmController cs x = None"
  "masterResourcesPath warmController = ''/res''"
  "dc warmController = ''eu1''"
  "defaultMasterVersionID warmController = ''v1''"
  "versions warmController k = (if k = ''v1'' then Some demoVersion else None)"
  "depStore warmController i k =
     Inr [\<lparr>MatchLabels = [(''role'', ''etcd-operator'')]\<rparr>,
          \<lparr>MatchLabels = [(''role'', ''apiserver'')]\<rparr>,
          \<lparr>MatchLabels = [(''role'', ''controller-manager'')]\<rparr>,
          \<lparr>MatchLabels = [(''role'', ''scheduler'')]\<rparr>]"
  by (simp_all add: warmController_def demoController_def)

lemma demoClusterWithCA_sel:
  "Key (RootCA (Status demoClusterWithCA)) = Some [75, 69, 89]"
  "Phase (Status demoClusterWithCA) = Pending"
  "Key (RootCA (Status demoCluster)) = None"
  "Phase (Status demoCluster) = Pending"
  "Key (RootCA (Status keyedCluster)) = Some [75, 69, 89]"
  "Phase (Status keyedCluster) = Pending"
  by (simp_all add: demoClusterWithCA_def demoCluster_def keyedCluster_def)

lemma demo_ca_step:
  "pendingCreateRootCA demoController demoCollaborators demoCluster [] = returnC demoClusterWithCA []"
  by (simp add: pendingCreateRootCA_def demoCollaborators_def demoCluster_def demoClusterWithCA_def
      Let_def)

lemma demo_token_step:
  "launchingCheckTokenUsers demoController demoCollaborators demoClusterWithCA [] =
     returnC (demoClusterWithCA\<lparr>Unnamed := ''tokens''\<rparr>)
       [SecretStoreGetByKey ''cluster-c1/token-users'',
        SecretsCreate ''cluster-c1'' (Secret ''token-users''),
        RecordClusterEvent ''launching'' ''Created secret %q'' [ArgStr ''cluster-c1/token-users'']]"
  by (simp add: launchingCheckTokenUsers_def Let_def demoCollaborators_sel demoCluster_names
      demoController_sel)
    (simp add: demoCollaborators_def)

lemma warm_service_step:
  "changedC (launchingCheckApiserverPublicService warmSecretsController demoLoaders demoCollaborators
               demoClusterWithCA cs)"
  by (simp add: launchingCheckApiserverPublicService_def Let_def demoCollaborators_sel demoCluster_names
      warmSecretsController_sel warmSecrets_GetFreeNodePort demoLoaders_def returnC_def)

lemma warm_quiet_steps:
  "launchingCheckServiceAccounts warmController demoLoaders demoCollaborators demoClusterWithCA cs =
     (None, cs @ [SaStoreGetByKey ''cluster-c1/etcd-operator''])"
  "launchingCheckClusterRoleBindings warmController demoLoaders demoCollaborators demoClusterWithCA cs =
     (None, cs @ [ClusterRoleBindingStoreGetByKey ''cluster-c1-etcd-operator''])"
  "launchingCheckServices warmController demoLoaders demoCollaborators demoClusterWithCA cs =
     returnNil demoClusterWithCA (cs @ [ServiceStoreGetByKey ''cluster-c1/apiserver-insecure''])"
  by (simp_all add: launchingCheckServiceAccounts_def launchingCheckClusterRoleBindings_def
      launchingCheckServices_def Let_def demoCollaborators_sel demoCluster_names warmController_sel
      demoLoaders_def)

lemma warm_secrets_step:
  "pendingCheckSecrets warmController demoLoaders demoCollaborators demoClusterWithCA cs =
     returnC keyedCluster
       (cs @ [SecretStoreGetByKey ''cluster-c1/apiserver-auth'',
              SecretStoreGetByKey ''cluster-c1/apiserver-ssh'',
              SecretsDelete ''cluster-c1'' ''apiserver-ssh'',
              SecretsCreate ''cluster-c1'' (Secret ''apiserver-ssh''),
              RecordClusterEvent ''pending'' ''Created secret %q'' [ArgStr ''cluster-c1/apiserver-ssh'']])"
  by (simp add: pendingCheckSecrets_def Let_def demo_secrets_entries demoCluster_names
      demoCollaborators_sel(1))
    (simp add: secretsMap_def pendingCheckSecret_def Let_def warmController_sel
      demoCollaborators_sel demoLoaders_def returnNil_def returnC_def keyedCluster_def)

theorem yield_on_mutation_witness:
  "framed demoController demoCollaborators \<and>
   syncPendingCluster demoController demoLoaders demoCollaborators demoCluster [] =
     returnC demoClusterWithCA [] \<and>
   changedParts demoCluster demoClusterWithCA \<le> 1 \<and>
   syncPendingCluster demoController demoLoaders demoCollaborators demoClusterWithCA [] =
     returnC (demoClusterWithCA\<lparr>Unnamed := ''tokens''\<rparr>)
       [SecretStoreGetByKey ''cluster-c1/token-users'',
        SecretsCreate ''cluster-c1'' (Secret ''token-users''),
        RecordClusterEvent ''launching'' ''Created secret %q'' [ArgStr ''cluster-c1/token-users'']] \<and>
   changedParts demoClusterWithCA (demoClusterWithCA\<lparr>Unnamed := ''tokens''\<rparr>) \<le> 1 \<and>
   syncPendingCluster warmSecretsController demoLoaders demoCollaborators demoClusterWithCA [] =
     launchingCheckApiserverPublicService warmSecretsController demoLoaders demoCollaborators demoClusterWithCA
       [SecretStoreGetByKey ''cluster-c1/token-users''] \<and>
   changedC (syncPendingCluster warmSecretsController demoLoaders demoCollaborators demoClusterWithCA []) \<and>
   changedParts demoClusterWithCA
     (obj (syncPendingCluster warmSecretsController demoLoaders demoCollaborators demoClusterWithCA [])) \<le> 1 \<and>
   syncPendingCluster warmController demoLoaders demoCollaborators demoClusterWithCA [] =
     returnC keyedCluster
       [SecretStoreGetByKey ''cluster-c1/token-users'',
        ServiceStoreGetByKey ''cluster-c1/apiserver'',
        SaStoreGetByKey ''cluster-c1/etcd-operator'',
        ClusterRoleBindingStoreGetByKey ''cluster-c1-etcd-operator'',
        ServiceStoreGetByKey ''cluster-c1/apiserver-insecure'',
        SecretStoreGetByKey ''cluster-c1/apiserver-auth'',
        SecretStoreGetByKey ''cluster-c1/apiserver-ssh'',
        SecretsDelete ''cluster-c1'' ''apiserver-ssh'',
        SecretsCreate ''cluster-c1'' (Secret ''apiserver-ssh''),
        RecordClusterEvent ''pending'' ''Created secret %q'' [ArgStr ''cluster-c1/apiserver-ssh'']] \<and>
   changedParts demoClusterWithCA keyedCluster \<le> 1"
proof -
  note fr = demo_framed [of demoController]
  let ?ca = "syncPendingCluster demoController demoLoaders demoCollaborators demoCluster []"
  let ?token = "syncPendingCluster demoController demoLoaders demoCollaborators demoClusterWithCA []"
  let ?service = "syncPendingCluster warmSecretsController demoLoaders demoCollaborators demoClusterWithCA []"
  let ?secrets = "syncPendingCluster warmController demoLoaders demoCollaborators demoClusterWithCA []"
  note A = yield_on_mutation [OF demo_framed, where cc = demoController and ld = demoLoaders
      and c = demoCluster and cs = "[]", unfolded Let_def]
  note B = yield_on_mutation [OF demo_framed, where cc = demoController and ld = demoLoaders
      and c = demoClusterWithCA and cs = "[]", unfolded Let_def]
  note C = yield_on_mutation [OF demo_framed, where cc = warmSecretsController and ld = demoLoaders
      and c = demoClusterWithCA and cs = "[]", unfolded Let_def]
  note D = yield_on_mutation [OF demo_framed, where cc = warmController and ld = demoLoaders
      and c = demoClusterWithCA and cs = "[]", unfolded Let_def]

  have "snd (checkTimeout demoCollaborators demoCluster) = None \<and> Key (RootCA (Status demoCluster)) = None"
    by (simp add: demoCollaborators_sel demoClusterWithCA_sel)
  from A [THEN conjunct2, THEN conjunct1, THEN mp, OF this]
  have ca: "?ca = returnC demoClusterWithCA []"
    by (simp add: demo_ca_step)
  then have "changedC ?ca \<and> Phase (Status (obj ?ca)) = Pending"
    by (simp add: returnC_def demoClusterWithCA_sel)
  from A [THEN conjunct1, THEN mp, OF this]
  have caParts: "changedParts demoCluster demoClusterWithCA \<le> 1"
    by (simp add: ca returnC_def)

  have "snd (checkTimeout demoCollaborators demoClusterWithCA) = None \<and>
        Key (RootCA (Status demoClusterWithCA)) \<noteq> None \<and>
        secretStore demoController (namespaceName demoCollaborators (Name (Metadata demoClusterWithCA)) @ ''/token-users'')
          \<noteq> Inr True"
    by (simp add: demoCollaborators_sel demoClusterWithCA_sel demoController_sel)
  from B [THEN conjunct2, THEN conjunct2, THEN conjunct1, THEN mp, OF this]
  have token: "?token = returnC (demoClusterWithCA\<lparr>Unnamed := ''tokens''\<rparr>)
       [SecretStoreGetByKey ''cluster-c1/token-users'',
        SecretsCreate ''cluster-c1'' (Secret ''token-users''),
        RecordClusterEvent ''launching'' ''Created secret %q'' [ArgStr ''cluster-c1/token-users'']]"
    by (simp add: demo_token_step)
  then have "changedC ?token \<and> Phase (Status (obj ?token)) = Pending"
    by (simp add: returnC_def demoClusterWithCA_sel)
  from B [THEN conjunct1, THEN mp, OF this]
  have tokenParts: "changedParts demoClusterWithCA (demoClusterWithCA\<lparr>Unnamed := ''tokens''\<rparr>) \<le> 1"
    by (simp add: token returnC_def)

  have "snd (checkTimeout demoCollaborators demoClusterWithCA) = None \<and>
        Key (RootCA (Status demoClusterWithCA)) \<noteq> None \<and>
        secretStore warmSecretsController
          (namespaceName demoCollaborators (Name (Metadata demoClusterWithCA)) @ ''/token-users'') = Inr True \<and>
        serviceStore warmSecretsController
          (namespaceName demoCollaborators (Name (Metadata demoClusterWithCA)) @ ''/apiserver'') \<noteq> Inr True"
    by (simp add: demoCollaborators_sel demoClusterWithCA_sel warmSecretsController_sel)
  from C [THEN conjunct2, THEN conjunct2, THEN conjunct2, THEN conjunct1, THEN mp, OF this]
  have service: "?service =
     launchingCheckApiserverPublicService warmSecretsController demoLoaders demoCollaborators demoClusterWithCA
       [SecretStoreGetByKey ''cluster-c1/token-users'']"
    by (simp add: demoCollaborators_sel demoCluster_names)
  then have serviceChanged: "changedC ?service"
    by (simp add: warm_service_step)
  have "addressOnly demoClusterWithCA (obj ?service)"
    unfolding service by (rule launchingCheckApiserverPublicService_addressOnly)
  from addressOnly_parts [OF this] have "Phase (Status (obj ?service)) = Pending"
    by (simp add: demoClusterWithCA_sel)
  with serviceChanged have "changedC ?service \<and> Phase (Status (obj ?service)) = Pending"
    by simp
  from C [THEN conjunct1, THEN mp, OF this]
  have serviceParts: "changedParts demoClusterWithCA (obj ?service) \<le> 1"
    by simp

  let ?cs3 = "[] @ [SecretStoreGetByKey (namespaceName demoCollaborators (Name (Metadata demoClusterWithCA)) @ ''/token-users''),
                    ServiceStoreGetByKey (namespaceName demoCollaborators (Name (Metadata demoClusterWithCA)) @ ''/apiserver'')]"
  let ?cs4 = "?cs3 @ [SaStoreGetByKey ''cluster-c1/etcd-operator'']"
  let ?cs5 = "?cs4 @ [ClusterRoleBindingStoreGetByKey ''cluster-c1-etcd-operator'']"
  have cached: "snd (checkTimeout demoCollaborators demoClusterWithCA) = None \<and>
        Key (RootCA (Status demoClusterWithCA)) \<noteq> None \<and>
        secretStore warmController
          (namespaceName demoCollaborators (Name (Metadata demoClusterWithCA)) @ ''/token-users'') = Inr True \<and>
        serviceStore warmController
          (namespaceName demoCollaborators (Name (Metadata demoClusterWithCA)) @ ''/apiserver'') = Inr True"
    by (simp add: demoCollaborators_sel demoClusterWithCA_sel warmController_sel)
  have between: "launchingCheckServiceAccounts warmController demoLoaders demoCollaborators demoClusterWithCA ?cs3
          = (None, ?cs4) \<and>
        launchingCheckClusterRoleBindings warmController demoLoaders demoCollaborators demoClusterWithCA ?cs4
          = (None, ?cs5) \<and>
        err (launchingCheckServices warmController demoLoaders demoCollaborators demoClusterWithCA ?cs5) = None \<and>
        changedC (pendingCheckSecrets warmController demoLoaders demoCollaborators demoClusterWithCA
          (calls (launchingCheckServices warmController demoLoaders demoCollaborators demoClusterWithCA ?cs5)))"
    by (simp add: warm_quiet_steps warm_secrets_step returnNil_def returnC_def)
  from D [THEN conjunct2, THEN conjunct2, THEN conjunct2, THEN conjunct2, THEN mp, OF cached,
          THEN spec, THEN spec, THEN mp, OF between]
  have secrets: "?secrets = returnC keyedCluster
       [SecretStoreGetByKey ''cluster-c1/token-users'',
        ServiceStoreGetByKey ''cluster-c1/apiserver'',
        SaStoreGetByKey ''cluster-c1/etcd-operator'',
        ClusterRoleBindingStoreGetByKey ''cluster-c1-etcd-operator'',
        ServiceStoreGetByKey ''cluster-c1/apiserver-insecure'',
        SecretStoreGetByKey ''cluster-c1/apiserver-auth'',
        SecretStoreGetByKey ''cluster-c1/apiserver-ssh'',
        SecretsDelete ''cluster-c1'' ''apiserver-ssh'',
        SecretsCreate ''cluster-c1'' (Secret ''apiserver-ssh''),
        RecordClusterEvent ''pending'' ''Created secret %q'' [ArgStr ''cluster-c1/apiserver-ssh'']]"
    by (simp add: warm_quiet_steps warm_secrets_step returnNil_sel demoCollaborators_sel demoCluster_names)
  then have "changedC ?secrets \<and> Phase (Status (obj ?secrets)) = Pending"
    by (simp add: returnC_def demoClusterWithCA_sel)
  from D [THEN conjunct1, THEN mp, OF this]
  have secretsParts: "changedParts demoClusterWithCA keyedCluster \<le> 1"
    by (simp add: secrets returnC_def)

  from fr ca caParts token tokenParts service serviceChanged serviceParts secrets secretsParts
  show ?thesis by (intro conjI)
qed









end
